theory Spec2Isabelle
  imports Main "HOL-Library.Sublist" "HOL-Library.AList"
begin

chapter \<open>ITD-SDK-js: session continuity, token storage and the mirror pool\<close>

text \<open>
  A shallow embedding of the parts of the SDK that keep a session alive
  (\<open>AuthManager\<close>, the token and cookie files), spread calls over several accounts
  (\<open>mirror-pool.js\<close>) and decode responses (the resource managers), followed by the
  properties proved of them. A function that can throw returns a sum type whose left
  side is the thrown error; a function that assigns to the session, the disk or the
  pool's counter takes the state and returns it.
\<close>

section \<open>JavaScript values\<close>

text \<open>
  Response bodies, tokens and the parsed mirror file are JSON values as JavaScript sees
  them. Objects are association lists of own properties in insertion order. Numbers are
  restricted to integer values; the library never computes with them, it only tests
  them for truthiness and prints them.
\<close>

datatype jsval =
    JUndefined
  | JNull
  | JBool bool
  | JNum int
  | JStr string
  | JArr "jsval list"
  | JObj "(string \<times> jsval) list"

text \<open>
  Values thrown by the code or by the libraries it calls. \<open>HttpError\<close> is what the HTTP
  client rejects with: a message and, when the server answered, the status and body.
\<close>

datatype js_error =
    TypeError string
  | ReferenceError string
  | Error string
  | IOError string
  | HttpError string "(int \<times> jsval) option"

text \<open>JavaScript truthiness (\<open>ToBoolean\<close>), as used by \<open>if (v)\<close>, \<open>!v\<close>, \<open>a && b\<close>, \<open>a || b\<close>.\<close>

fun truthy :: "jsval \<Rightarrow> bool" where
  "truthy JUndefined = False"
| "truthy JNull = False"
| "truthy (JBool b) = b"
| "truthy (JNum n) = (n \<noteq> 0)"
| "truthy (JStr s) = (s \<noteq> [])"
| "truthy (JArr xs) = True"
| "truthy (JObj kvs) = True"

definition js_or :: "jsval \<Rightarrow> jsval \<Rightarrow> jsval" where
  "js_or a b = (if truthy a then a else b)"

definition nullish :: "jsval \<Rightarrow> bool" where
  "nullish v = (v = JUndefined \<or> v = JNull)"

text \<open>
  Property read \<open>v.k\<close> for the property names the library reads from response data
  (\<open>data\<close>, \<open>users\<close>, \<open>hashtags\<close>, \<open>pagination\<close>, \<open>accessToken\<close>, ...); none of them is
  inherited from a prototype, so a primitive or an array answers \<open>undefined\<close>, and
  \<open>null\<close>/\<open>undefined\<close> throw a TypeError.
\<close>

fun get_prop :: "jsval \<Rightarrow> string \<Rightarrow> js_error + jsval" where
  "get_prop JUndefined k = Inl (TypeError (''Cannot read properties of undefined: '' @ k))"
| "get_prop JNull k = Inl (TypeError (''Cannot read properties of null: '' @ k))"
| "get_prop (JObj kvs) k = Inr (case map_of kvs k of None \<Rightarrow> JUndefined | Some v \<Rightarrow> v)"
| "get_prop v k = Inr JUndefined"

text \<open>Optional chaining \<open>v?.k\<close>.\<close>

definition opt_prop :: "jsval \<Rightarrow> string \<Rightarrow> jsval" where
  "opt_prop v k = (case get_prop v k of Inl e \<Rightarrow> JUndefined | Inr x \<Rightarrow> x)"

text \<open>Decimal printing of integers, for template literals.\<close>

definition digit_char :: "nat \<Rightarrow> char" where
  "digit_char d = char_of (48 + d)"

fun string_of_nat :: "nat \<Rightarrow> string" where
  "string_of_nat n =
     (if n < 10 then [digit_char n] else string_of_nat (n div 10) @ [digit_char (n mod 10)])"

declare string_of_nat.simps [simp del]

definition string_of_int :: "int \<Rightarrow> string" where
  "string_of_int i = (if i < 0 then CHR ''-'' # string_of_nat (nat (- i)) else string_of_nat (nat i))"

fun join :: "string \<Rightarrow> string list \<Rightarrow> string" where
  "join sep [] = []"
| "join sep [x] = x"
| "join sep (x # y # ys) = x @ sep @ join sep (y # ys)"

text \<open>\<open>ToString\<close>, as applied by a template literal \<open>`${v}`\<close>.\<close>

fun to_string :: "jsval \<Rightarrow> string" where
  "to_string JUndefined = ''undefined''"
| "to_string JNull = ''null''"
| "to_string (JBool b) = (if b then ''true'' else ''false'')"
| "to_string (JNum n) = string_of_int n"
| "to_string (JStr s) = s"
| "to_string (JArr xs) = join '','' (map (\<lambda>x. if x = JUndefined \<or> x = JNull then [] else to_string x) xs)"
| "to_string (JObj kvs) = ''[object Object]''"

section \<open>Files\<close>

text \<open>
  The part of \<open>fs\<close> the library uses. A path is absent or holds text; \<open>denied\<close> marks
  paths on which reading and writing fail (permissions, I/O errors), in which case
  \<open>readFileSync\<close> and \<open>writeFileSync\<close> throw.
\<close>

record disk =
  files :: "string \<rightharpoonup> string"
  denied :: "string \<Rightarrow> bool"

definition existsSync :: "disk \<Rightarrow> string \<Rightarrow> bool" where
  "existsSync d p = (files d p \<noteq> None)"

definition readFileSync :: "disk \<Rightarrow> string \<Rightarrow> js_error + string" where
  "readFileSync d p =
     (if denied d p then Inl (IOError p)
      else case files d p of None \<Rightarrow> Inl (IOError p) | Some c \<Rightarrow> Inr c)"

definition writeFileSync :: "disk \<Rightarrow> string \<Rightarrow> string \<Rightarrow> js_error + disk" where
  "writeFileSync d p c =
     (if denied d p then Inl (IOError p) else Inr (d\<lparr>files := (files d)(p \<mapsto> c)\<rparr>))"

section \<open>Token storage (\<open>saveAccessToken\<close>, \<open>saveCookieHeader\<close>)\<close>

definition envPath :: string where
  "envPath = ''.env''"

definition cookiesPath :: string where
  "cookiesPath = ''.cookies''"

definition tokenKey :: string where
  "tokenKey = ''ITD_ACCESS_TOKEN=''"

definition newline :: string where
  "newline = [CHR 0x0A]"

text \<open>
  Line terminators of the regular-expression engine among the characters of the model:
  \<open>.\<close> does not match them, and with the \<open>m\<close> flag \<open>^\<close> matches after one and \<open>$\<close>
  before one.
\<close>

definition is_line_terminator :: "char \<Rightarrow> bool" where
  "is_line_terminator c = (c = CHR 0x0A \<or> c = CHR 0x0D)"

abbreviation in_line :: "char \<Rightarrow> bool" where
  "in_line c \<equiv> \<not> is_line_terminator c"

text \<open>
  \<open>/^ITD_ACCESS_TOKEN=.*$/m\<close> executed on the rest of the content: the leftmost match,
  as (text before, matched text, text after). \<open>bol\<close> says whether the current position
  is at the start of a line. After the key, the greedy \<open>.*\<close> runs to the next line
  terminator or to the end, where \<open>$\<close> holds.
\<close>

fun tokenRegex_exec :: "bool \<Rightarrow> string \<Rightarrow> (string \<times> string \<times> string) option" where
  "tokenRegex_exec bol [] = None"
| "tokenRegex_exec bol (c # cs) =
     (if bol \<and> prefix tokenKey (c # cs)
      then Some ([], takeWhile in_line (c # cs), dropWhile in_line (c # cs))
      else map_option (\<lambda>(p, m, s). (c # p, m, s)) (tokenRegex_exec (is_line_terminator c) cs))"

definition tokenRegex_test :: "string \<Rightarrow> bool" where
  "tokenRegex_test content = (tokenRegex_exec True content \<noteq> None)"

text \<open>
  \<open>GetSubstitution\<close> for a pattern without capture groups: in the replacement text
  \<open>$$\<close> is a dollar sign, \<open>$&\<close> the matched text, \<open>$`\<close> the text before the match and
  \<open>$'\<close> the text after it; any other \<open>$\<close> stands for itself.
\<close>

fun getSubstitution :: "string \<Rightarrow> string \<Rightarrow> string \<Rightarrow> string \<Rightarrow> string" where
  "getSubstitution m p s [] = []"
| "getSubstitution m p s [c] = [c]"
| "getSubstitution m p s (c # d # r) =
     (if c = CHR ''$'' then
        (if d = CHR ''$'' then CHR ''$'' # getSubstitution m p s r
         else if d = CHR ''&'' then m @ getSubstitution m p s r
         else if d = CHR 0x60 then p @ getSubstitution m p s r
         else if d = CHR 0x27 then s @ getSubstitution m p s r
         else c # getSubstitution m p s (d # r))
      else c # getSubstitution m p s (d # r))"

text \<open>\<open>content.replace(tokenRegex, replacement)\<close>: the regex is not global, so only the first match is replaced.\<close>

definition tokenRegex_replace :: "string \<Rightarrow> string \<Rightarrow> string" where
  "tokenRegex_replace content replacement =
     (case tokenRegex_exec True content of
        None \<Rightarrow> content
      | Some (p, m, s) \<Rightarrow> p @ getSubstitution m p s replacement @ s)"

text \<open>
  \<open>saveAccessToken(newToken)\<close>: the whole body is inside \<open>try\<close>, and the handler returns
  \<open>false\<close>. The result is the returned flag and the disk afterwards.
\<close>

definition saveAccessToken :: "jsval \<Rightarrow> disk \<Rightarrow> bool \<times> disk" where
  "saveAccessToken newToken d =
     (if \<not> existsSync d envPath then (False, d)
      else case readFileSync d envPath of
        Inl e \<Rightarrow> (False, d)
      | Inr content \<Rightarrow>
          (let content' =
             (if tokenRegex_test content
              then tokenRegex_replace content (tokenKey @ to_string newToken)
              else content @ newline @ tokenKey @ to_string newToken @ newline)
           in case writeFileSync d envPath content' of
                Inl e \<Rightarrow> (False, d)
              | Inr d' \<Rightarrow> (True, d')))"

definition saveCookieHeader :: "string \<Rightarrow> disk \<Rightarrow> bool \<times> disk" where
  "saveCookieHeader newCookieHeader d =
     (case writeFileSync d cookiesPath newCookieHeader of
        Inl e \<Rightarrow> (False, d)
      | Inr d' \<Rightarrow> (True, d'))"

section \<open>Control flow: exceptions with state\<close>

text \<open>
  A block of statements yields a thrown error or a value, together with the state it
  leaves behind: assignments made before a \<open>throw\<close> stay made. \<open>try_catch\<close> is
  \<open>try { ... } catch (e) { ... }\<close>.
\<close>

type_synonym ('s, 'a) outcome = "(js_error + 'a) \<times> 's"

definition try_catch :: "('s, 'a) outcome \<Rightarrow> (js_error \<Rightarrow> 's \<Rightarrow> ('s, 'a) outcome) \<Rightarrow> ('s, 'a) outcome" where
  "try_catch r handler = (case r of (Inl e, s) \<Rightarrow> handler e s | (Inr v, s) \<Rightarrow> (Inr v, s))"

section \<open>HTTP\<close>

record http_response =
  status :: int
  data :: jsval
  set_cookie :: "string list option"

text \<open>An awaited request settles with a response or rejects with an error.\<close>

type_synonym http_result = "js_error + http_response"

record http_request =
  verb :: string
  url :: string
  headers :: "(string \<times> string) list"

section \<open>Session state and the cookie jar\<close>

text \<open>
  The cookie jar is the \<open>tough-cookie\<close> library's; its two operations are parameters of
  the model. \<open>setCookieSync\<close> throws on a cookie string it cannot parse or accept.
  A stored cookie is read back as its key and value.
\<close>

record 'j cookie_lib =
  setCookieSync :: "string \<Rightarrow> string \<Rightarrow> 'j \<Rightarrow> js_error + 'j"
  getCookiesSync :: "string \<Rightarrow> 'j \<Rightarrow> js_error + (string \<times> string) list"

text \<open>
  One client: the session fields of \<open>ITDClient\<close> and \<open>AuthManager\<close>, the default
  \<open>Cookie\<close> header of its HTTP client, the disk, and the requests it has sent.
\<close>

record 'j world =
  baseUrl :: string
  accessToken :: jsval
  isAuthenticated :: bool
  userData :: jsval
  defaultCookie :: "string option"
  cookieJar :: 'j
  fs :: disk
  sent :: "http_request list"

text \<open>
  Modelled from the spec: \<open>ITDClient.setAccessToken\<close> (\<open>client.js\<close>) is not among the
  sources; per the data model it sets the session's \<open>accessToken\<close>, the single source
  of truth for the \<open>Authorization\<close> header.
\<close>

definition setAccessToken :: "jsval \<Rightarrow> 'j world \<Rightarrow> 'j world" where
  "setAccessToken token w = w\<lparr>accessToken := token\<rparr>"

section \<open>\<open>AuthManager\<close>\<close>

subsection \<open>\<open>refreshAccessToken\<close>\<close>

definition refresh_request :: "'j world \<Rightarrow> http_request" where
  "refresh_request w =
     \<lparr>verb = ''POST'', url = baseUrl w @ ''/api/v1/auth/refresh'',
      headers = [(''Referer'', baseUrl w @ ''/''), (''Origin'', baseUrl w)]\<rparr>"

text \<open>The loop over \<open>set-cookie\<close>: each cookie has its own \<open>try\<close>, whose handler is empty.\<close>

fun merge_cookies :: "'j cookie_lib \<Rightarrow> string \<Rightarrow> string list \<Rightarrow> 'j \<Rightarrow> 'j" where
  "merge_cookies lib u [] jar = jar"
| "merge_cookies lib u (cookieString # rest) jar =
     (case setCookieSync lib cookieString u jar of
        Inl e \<Rightarrow> merge_cookies lib u rest jar
      | Inr jar' \<Rightarrow> merge_cookies lib u rest jar')"

definition important_cookie :: "string \<times> string \<Rightarrow> bool" where
  "important_cookie c =
     (fst c = ''refresh_token'' \<or> prefix ''__ddg'' (fst c) \<or> fst c = ''is_auth'')"

definition cookie_header :: "(string \<times> string) list \<Rightarrow> string" where
  "cookie_header cs = join ''; '' (map (\<lambda>c. fst c @ ''='' @ snd c) cs)"

text \<open>The second inner \<open>try\<close>: read the jar back and write the important cookies to the cookie file.\<close>

definition persist_cookies :: "'j cookie_lib \<Rightarrow> 'j world \<Rightarrow> 'j world" where
  "persist_cookies lib w =
     (case getCookiesSync lib (baseUrl w) (cookieJar w) of
        Inl e \<Rightarrow> w
      | Inr allCookies \<Rightarrow>
          (let importantCookies = filter important_cookie allCookies
           in if length importantCookies > 0
              then w\<lparr>fs := snd (saveCookieHeader (cookie_header importantCookies) (fs w))\<rparr>
              else w))"

text \<open>Up to the \<open>await\<close>: the request is sent.\<close>

definition refresh_begin :: "'j world \<Rightarrow> 'j world" where
  "refresh_begin w = w\<lparr>sent := sent w @ [refresh_request w]\<rparr>"

text \<open>The rest of the \<open>try\<close> block, once the request has settled.\<close>

definition refresh_body :: "'j cookie_lib \<Rightarrow> http_result \<Rightarrow> 'j world \<Rightarrow> ('j world, jsval) outcome" where
  "refresh_body lib settled w =
     (case settled of
        Inl e \<Rightarrow> (Inl e, w)
      | Inr response \<Rightarrow>
          if status response = 200 \<and> truthy (opt_prop (data response) ''accessToken'') then
            (case get_prop (data response) ''accessToken'' of
               Inl e \<Rightarrow> (Inl e, w)
             | Inr newToken \<Rightarrow>
                 (let w1 = setAccessToken newToken w;
                      w2 = w1\<lparr>isAuthenticated := True\<rparr>;
                      w3 = w2\<lparr>fs := snd (saveAccessToken newToken (fs w2))\<rparr>;
                      w4 = (case set_cookie response of
                              None \<Rightarrow> w3
                            | Some cookies \<Rightarrow>
                                persist_cookies lib
                                  (w3\<lparr>cookieJar := merge_cookies lib (baseUrl w3) cookies (cookieJar w3)\<rparr>))
                  in (Inr newToken, w4)))
          else (Inr JNull, w))"

definition refresh_resume :: "'j cookie_lib \<Rightarrow> http_result \<Rightarrow> 'j world \<Rightarrow> ('j world, jsval) outcome" where
  "refresh_resume lib settled w = try_catch (refresh_body lib settled w) (\<lambda>error w'. (Inr JNull, w'))"

definition refreshAccessToken :: "'j cookie_lib \<Rightarrow> http_result \<Rightarrow> 'j world \<Rightarrow> ('j world, jsval) outcome" where
  "refreshAccessToken lib settled w = refresh_resume lib settled (refresh_begin w)"

subsection \<open>\<open>logout\<close> and \<open>checkAuth\<close>\<close>

definition logout_request :: "'j world \<Rightarrow> http_request" where
  "logout_request w = \<lparr>verb = ''POST'', url = baseUrl w @ ''/api/v1/auth/sign-out'', headers = []\<rparr>"

definition logout_body :: "http_result \<Rightarrow> 'j world \<Rightarrow> ('j world, jsval) outcome" where
  "logout_body settled w =
     (case settled of
        Inl e \<Rightarrow> (Inl e, w)
      | Inr response \<Rightarrow>
          if status response = 200 then
            (let w1 = w\<lparr>isAuthenticated := False\<rparr>;
                 w2 = w1\<lparr>userData := JNull\<rparr>;
                 w3 = setAccessToken JNull w2;
                 w4 = w3\<lparr>defaultCookie := Some []\<rparr>
             in (Inr (JBool True), w4))
          else (Inr (JBool False), w))"

definition logout :: "http_result \<Rightarrow> 'j world \<Rightarrow> ('j world, jsval) outcome" where
  "logout settled w =
     try_catch (logout_body settled (w\<lparr>sent := sent w @ [logout_request w]\<rparr>))
       (\<lambda>error w'. (Inr (JBool False), w'))"

definition checkAuth :: "'j world \<Rightarrow> bool" where
  "checkAuth w = (truthy (accessToken w) \<or> isAuthenticated w)"

section \<open>Mirror pool (\<open>mirror-pool.js\<close>)\<close>

subsection \<open>Reading the multi-account file\<close>

text \<open>
  \<open>String.prototype.trim\<close> strips white space and line terminators. A string is a list
  of code units below 256; among those the white space characters are tab, vertical
  tab, form feed, space and no-break space, and the line terminators are line feed and
  carriage return.
\<close>

definition is_whitespace :: "char \<Rightarrow> bool" where
  "is_whitespace c = (c \<in> set [CHR 0x09, CHR 0x0A, CHR 0x0B, CHR 0x0C, CHR 0x0D, CHR 0x20, CHR 0xA0])"

definition trim :: "string \<Rightarrow> string" where
  "trim s = rev (dropWhile is_whitespace (rev (dropWhile is_whitespace s)))"

text \<open>\<open>Object.entries\<close> of an object or an array; the entries of an array are keyed by position.\<close>

definition entries :: "jsval \<Rightarrow> (string \<times> jsval) list" where
  "entries v =
     (case v of
        JObj kvs \<Rightarrow> kvs
      | JArr xs \<Rightarrow> zip (map string_of_nat [0..<length xs]) xs
      | _ \<Rightarrow> [])"

text \<open>\<open>val && typeof val === 'object'\<close>: objects and arrays (\<open>null\<close> is falsy).\<close>

definition is_object :: "jsval \<Rightarrow> bool" where
  "is_object v = (case v of JObj kvs \<Rightarrow> True | JArr xs \<Rightarrow> True | _ \<Rightarrow> False)"

definition toCookieString :: "jsval \<Rightarrow> string" where
  "toCookieString val =
     (case val of
        JStr s \<Rightarrow> trim s
      | _ \<Rightarrow>
          if is_object val then
            join ''; '' (map to_string (filter truthy
              (map (\<lambda>(k, v). if \<not> nullish v \<and> v \<noteq> JStr [] then JStr (k @ ''='' @ to_string v) else JNull)
                 (entries val))))
          else [])"

text \<open>
  Paths: \<open>path.isAbsolute\<close> and \<open>path.join\<close> of Node on POSIX paths. \<open>path.join\<close> joins
  its non-empty arguments with \<open>/\<close> and normalises the result: empty segments and \<open>.\<close>
  are dropped, \<open>..\<close> removes the segment before it (and is kept at the front of a
  relative path), a trailing \<open>/\<close> is kept.
\<close>

definition path_isAbsolute :: "string \<Rightarrow> bool" where
  "path_isAbsolute p = prefix ''/'' p"

text \<open>The segments of a path: the pieces between the separators.\<close>

fun path_segments :: "string \<Rightarrow> string list" where
  "path_segments [] = [[]]"
| "path_segments (c # cs) =
     (if c = CHR ''/'' then [] # path_segments cs
      else (case path_segments cs of [] \<Rightarrow> [[c]] | s # ss \<Rightarrow> (c # s) # ss))"

text \<open>
  \<open>normalizeString\<close>: \<open>kept\<close> holds the segments kept so far, the last one first;
  \<open>allowAboveRoot\<close> is true for a relative path.
\<close>

fun normalize_segments :: "bool \<Rightarrow> string list \<Rightarrow> string list \<Rightarrow> string list" where
  "normalize_segments allowAboveRoot kept [] = rev kept"
| "normalize_segments allowAboveRoot kept (s # ss) =
     (if s = [] \<or> s = ''.'' then normalize_segments allowAboveRoot kept ss
      else if s = ''..'' then
        (case kept of
           [] \<Rightarrow> normalize_segments allowAboveRoot (if allowAboveRoot then [''..''] else []) ss
         | k # ks \<Rightarrow>
             if k = ''..''
             then normalize_segments allowAboveRoot (if allowAboveRoot then ''..'' # kept else kept) ss
             else normalize_segments allowAboveRoot ks ss)
      else normalize_segments allowAboveRoot (s # kept) ss)"

definition path_normalize :: "string \<Rightarrow> string" where
  "path_normalize p =
     (if p = [] then ''.''
      else
        (let isAbsolute = path_isAbsolute p;
             trailingSeparator = (last p = CHR ''/'');
             body = join ''/'' (normalize_segments (\<not> isAbsolute) [] (path_segments p))
         in if body = [] then (if isAbsolute then ''/'' else if trailingSeparator then ''./'' else ''.'')
            else (if isAbsolute then ''/'' else []) @ body @ (if trailingSeparator then ''/'' else [])))"

definition path_join :: "string \<Rightarrow> string \<Rightarrow> string" where
  "path_join a b =
     (if a = [] \<and> b = [] then ''.''
      else if a = [] then path_normalize b
      else if b = [] then path_normalize a
      else path_normalize (a @ ''/'' @ b))"

text \<open>The options object built for one account.\<close>

record mirror_config =
  cfg_projectRoot :: string
  cfg_cookiesString :: string
  cfg_cookiesPath :: string
  cfg_envPath :: string

text \<open>
  The identifiers in scope inside the callback of \<open>keys.map\<close>: its parameter and local,
  the parameters and locals of \<open>loadMirrorsFromFile\<close>, and the module's imports,
  constants and functions. Reading an identifier bound in no scope throws a
  ReferenceError (the module defines no such global either).
\<close>

definition callback_scope :: "string list" where
  "callback_scope =
     [''key'', ''cookieString'',
      ''filePath'', ''projectRoot'', ''baseOptions'', ''fullPath'', ''raw'', ''data'', ''keys'',
      ''fs'', ''path'', ''ITDClient'', ''MANAGER_KEYS'',
      ''toCookieString'', ''loadMirrorsFromFile'', ''createMirrorPool'']"

definition read_identifier :: "string \<Rightarrow> 'a \<Rightarrow> js_error + 'a" where
  "read_identifier name bound_value =
     (if name \<in> set callback_scope then Inr bound_value
      else Inl (ReferenceError (name @ '' is not defined'')))"

text \<open>
  The callback of \<open>keys.map\<close>. The returned object literal has the shorthand property
  \<open>cookiesString\<close>, which reads the identifier of that name; the local holding the
  cookie string is named \<open>cookieString\<close>.
\<close>

definition mirror_entry :: "string \<Rightarrow> jsval \<Rightarrow> string \<Rightarrow> js_error + mirror_config" where
  "mirror_entry projectRoot data_obj key =
     (let cookieString = toCookieString (opt_prop data_obj key)
      in if cookieString = [] then Inl (Error (''mirror '' @ key @ '': cookie string required''))
         else case read_identifier ''cookiesString'' cookieString of
                Inl e \<Rightarrow> Inl e
              | Inr cookiesString \<Rightarrow>
                  Inr \<lparr>cfg_projectRoot = projectRoot,
                       cfg_cookiesString = cookiesString,
                       cfg_cookiesPath = path_join projectRoot (''.cookies.mirrors.'' @ key),
                       cfg_envPath = path_join projectRoot (''.env.mirrors.'' @ key)\<rparr>)"

text \<open>\<open>Array.prototype.map\<close> with a callback that may throw: the first throw ends the loop.\<close>

fun map_throwing :: "('a \<Rightarrow> js_error + 'b) \<Rightarrow> 'a list \<Rightarrow> js_error + 'b list" where
  "map_throwing f [] = Inr []"
| "map_throwing f (x # xs) =
     (case f x of
        Inl e \<Rightarrow> Inl e
      | Inr y \<Rightarrow> (case map_throwing f xs of Inl e \<Rightarrow> Inl e | Inr ys \<Rightarrow> Inr (y # ys)))"

text \<open>
  \<open>loadMirrorsFromFile\<close>. \<open>JSON.parse\<close> is a parameter: it answers \<open>None\<close> where it would
  throw a SyntaxError. The messages in the \<open>throw\<close> statements of this function and of
  \<open>createMirrorPool\<close> are Russian texts in the source; they are rendered in English here,
  and no property below depends on their wording.
\<close>

definition loadMirrorsFromFile ::
  "(string \<Rightarrow> jsval option) \<Rightarrow> disk \<Rightarrow> string \<Rightarrow> string \<Rightarrow> js_error + mirror_config list" where
  "loadMirrorsFromFile json_parse d filePath projectRoot =
     (let fullPath = (if path_isAbsolute filePath then filePath else path_join projectRoot filePath)
      in if \<not> existsSync d fullPath then Inl (Error (''mirror file not found: '' @ fullPath))
         else case readFileSync d fullPath of
           Inl e \<Rightarrow> Inl e
         | Inr text \<Rightarrow>
             (case json_parse (trim text) of
                None \<Rightarrow> Inl (Error (''mirror file must be valid JSON: '' @ fullPath))
              | Some data_obj \<Rightarrow>
                  (case data_obj of
                     JObj kvs \<Rightarrow>
                       (let keys = map fst kvs
                        in if length keys = 0 then Inl (Error ''mirror file needs at least one account'')
                           else map_throwing (mirror_entry projectRoot data_obj) keys)
                   | _ \<Rightarrow> Inl (Error ''mirror file must hold an object keyed by account''))))"

subsection \<open>\<open>createMirrorPool\<close>\<close>

text \<open>
  The argument: an array whose elements are clients or option objects, an options object
  (of which \<open>mirrorsCookiesPath\<close> and \<open>projectRoot\<close> are read), or anything else.
\<close>

datatype 'c pool_arg =
    ArgArray "('c + mirror_config) list"
  | ArgOptions "string option" "string option"
  | ArgOther

text \<open>
  The pool: the clients, the counter \<open>index\<close> of the closure, and a log of the client
  each method call was applied to (the log is not a variable of the code; it records
  the calls \<open>value.apply(c, args)\<close> and \<open>fn.apply(manager, args)\<close>, and the calls a caller
  makes on a client directly).
\<close>

record 'c pool =
  clients :: "'c list"
  index :: nat
  applied :: "('c \<times> string) list"

text \<open>
  \<open>new ITDClient(c)\<close> is a parameter (\<open>client.js\<close> is not among the sources); \<open>cwd\<close> is
  \<open>process.cwd()\<close>.
\<close>

text \<open>\<open>c instanceof ITDClient ? c : new ITDClient(c)\<close>.\<close>

definition as_client :: "(mirror_config \<Rightarrow> 'c) \<Rightarrow> 'c + mirror_config \<Rightarrow> 'c" where
  "as_client new_client c = (case c of Inl cl \<Rightarrow> cl | Inr cfg \<Rightarrow> new_client cfg)"

definition createMirrorPool ::
  "(mirror_config \<Rightarrow> 'c) \<Rightarrow> (string \<Rightarrow> jsval option) \<Rightarrow> disk \<Rightarrow> string \<Rightarrow> 'c pool_arg \<Rightarrow> js_error + 'c pool" where
  "createMirrorPool new_client json_parse d cwd configsOrOptions =
     (case configsOrOptions of
        ArgArray configs \<Rightarrow>
          if length configs = 0 then Inl (TypeError ''createMirrorPool(configs): configs must not be empty'')
          else Inr \<lparr>clients = map (as_client new_client) configs, index = 0, applied = []\<rparr>
      | ArgOptions mirrorsCookiesPath projectRootOpt \<Rightarrow>
          (case mirrorsCookiesPath of
             None \<Rightarrow> Inl (TypeError ''createMirrorPool({ mirrorsCookiesPath }): mirrorsCookiesPath required'')
           | Some mpath \<Rightarrow>
               if mpath = [] then Inl (TypeError ''createMirrorPool({ mirrorsCookiesPath }): mirrorsCookiesPath required'')
               else
                 (let projectRoot = (case projectRootOpt of None \<Rightarrow> cwd | Some r \<Rightarrow> r)
                  in case loadMirrorsFromFile json_parse d mpath projectRoot of
                       Inl e \<Rightarrow> Inl e
                     | Inr configs \<Rightarrow>
                         Inr \<lparr>clients = map new_client configs, index = 0, applied = []\<rparr>))
      | ArgOther \<Rightarrow> Inl (TypeError ''createMirrorPool: pass an array of configs or { mirrorsCookiesPath }''))"

subsection \<open>Dispatch\<close>

definition MANAGER_KEYS :: "string list" where
  "MANAGER_KEYS =
     [''auth'', ''posts'', ''comments'', ''users'', ''notifications'', ''hashtags'',
      ''files'', ''reports'', ''searchManager'', ''verification'']"

text \<open>\<open>nextClient\<close>: \<open>clients[index % clients.length]\<close>, then \<open>index += 1\<close>. On an empty array the read is \<open>undefined\<close>.\<close>

definition nextClient :: "'c pool \<Rightarrow> 'c option \<times> 'c pool" where
  "nextClient p =
     ((if clients p = [] then None else Some (clients p ! (index p mod length (clients p)))),
      p\<lparr>index := index p + 1\<rparr>)"

text \<open>What the \<open>get\<close> trap of the pool proxy returns for a property name.\<close>

datatype 'c pool_value =
    ClientGetter
  | ClientsArray "'c list"
  | SizeValue nat
  | ManagerProxy string
  | MethodWrapper string
  | PlainValue "'c option" string

text \<open>
  The \<open>get\<close> trap. Every client is an \<open>ITDClient\<close>, so whether \<open>clients[0][prop]\<close> is a
  function depends on the name only: \<open>is_method\<close>. Reading a property of \<open>clients[0]\<close>
  throws when there is no client.
\<close>

definition pool_get :: "(string \<Rightarrow> bool) \<Rightarrow> string \<Rightarrow> 'c pool \<Rightarrow> ('c pool, 'c pool_value) outcome" where
  "pool_get is_method prop p =
     (if prop = ''getClient'' \<or> prop = ''nextClient'' then (Inr ClientGetter, p)
      else if prop = ''clients'' then (Inr (ClientsArray (clients p)), p)
      else if prop = ''size'' then (Inr (SizeValue (length (clients p))), p)
      else if clients p = [] then (Inl (TypeError ''Cannot read properties of undefined''), p)
      else if prop \<in> set MANAGER_KEYS then (Inr (ManagerProxy prop), p)
      else if is_method prop then (Inr (MethodWrapper prop), p)
      else (case nextClient p of (c, p') \<Rightarrow> (Inr (PlainValue c prop), p')))"

text \<open>
  What a call expression evaluates to: a method applied to a client, a client (or
  \<open>undefined\<close>) handed out by \<open>getClient\<close>, or a TypeError because the callee is not a
  function.
\<close>

datatype 'c call_result =
    AppliedTo 'c string
  | HandedOut "'c option"
  | NotAFunction

text \<open>Applying a method of the client class to a client (or to an object the client owns).\<close>

definition apply_method :: "'c option \<Rightarrow> string \<Rightarrow> 'c pool \<Rightarrow> 'c call_result \<times> 'c pool" where
  "apply_method target name p =
     (case target of
        None \<Rightarrow> (NotAFunction, p)
      | Some c \<Rightarrow> (AppliedTo c name, p\<lparr>applied := applied p @ [(c, name)]\<rparr>))"

text \<open>
  The call expressions a caller writes against the pool, \<open>pool.prop(...)\<close> and
  \<open>pool.obj.method(...)\<close>, and against a client it holds, \<open>client.method(...)\<close> and
  \<open>client.obj.method(...)\<close>.
\<close>

datatype 'c call_expr =
    PoolCall string
  | PoolMemberCall string string
  | ClientCall 'c string
  | ClientMemberCall 'c string string

text \<open>
  \<open>has_method obj m\<close> says whether the property \<open>obj\<close> of a client (a manager, or another
  object it owns) has a function \<open>m\<close>. The \<open>get\<close> trap of a manager proxy takes the next
  client before it looks at the method.
\<close>

definition eval_call ::
  "(string \<Rightarrow> bool) \<Rightarrow> (string \<Rightarrow> string \<Rightarrow> bool) \<Rightarrow> 'c call_expr \<Rightarrow> 'c pool \<Rightarrow> 'c call_result \<times> 'c pool" where
  "eval_call is_method has_method e p =
     (case e of
        PoolCall prop \<Rightarrow>
          (case pool_get is_method prop p of
             (Inl err, p') \<Rightarrow> (NotAFunction, p')
           | (Inr ClientGetter, p') \<Rightarrow>
               (case nextClient p' of (c, p'') \<Rightarrow> (HandedOut c, p''))
           | (Inr (MethodWrapper name), p') \<Rightarrow>
               (case nextClient p' of (c, p'') \<Rightarrow> apply_method c name p'')
           | (Inr other, p') \<Rightarrow> (NotAFunction, p'))
      | PoolMemberCall obj m \<Rightarrow>
          (case pool_get is_method obj p of
             (Inr (ManagerProxy propName), p') \<Rightarrow>
               (case nextClient p' of
                  (c, p'') \<Rightarrow>
                    if has_method propName m then apply_method c (propName @ ''.'' @ m) p''
                    else (NotAFunction, p''))
           | (Inr (PlainValue c prop), p') \<Rightarrow>
               (if has_method prop m then apply_method c (prop @ ''.'' @ m) p'
                else (NotAFunction, p'))
           | (other, p') \<Rightarrow> (NotAFunction, p'))
      | ClientCall c m \<Rightarrow>
          (if is_method m then apply_method (Some c) m p else (NotAFunction, p))
      | ClientMemberCall c obj m \<Rightarrow>
          (if has_method obj m then apply_method (Some c) (obj @ ''.'' @ m) p else (NotAFunction, p)))"

fun run_calls ::
  "(string \<Rightarrow> bool) \<Rightarrow> (string \<Rightarrow> string \<Rightarrow> bool) \<Rightarrow> 'c call_expr list \<Rightarrow> 'c pool \<Rightarrow> 'c call_result list \<times> 'c pool" where
  "run_calls is_method has_method [] p = ([], p)"
| "run_calls is_method has_method (e # es) p =
     (case eval_call is_method has_method e p of
        (r, p') \<Rightarrow> (case run_calls is_method has_method es p' of (rs, p'') \<Rightarrow> (r # rs, p'')))"

text \<open>
  A method call through the auto-dispatch facade: a method of the client class called
  on the pool under a name the proxy does not reserve, or a method of one of the
  managers called through the pool.
\<close>

definition reserved_names :: "string list" where
  "reserved_names = [''getClient'', ''nextClient'', ''clients'', ''size'']"

definition facade_call :: "(string \<Rightarrow> bool) \<Rightarrow> (string \<Rightarrow> string \<Rightarrow> bool) \<Rightarrow> 'c call_expr \<Rightarrow> bool" where
  "facade_call is_method has_method e =
     (case e of
        PoolCall prop \<Rightarrow> is_method prop \<and> prop \<notin> set reserved_names \<and> prop \<notin> set MANAGER_KEYS
      | PoolMemberCall obj m \<Rightarrow> obj \<in> set MANAGER_KEYS \<and> has_method obj m
      | _ \<Rightarrow> False)"

text \<open>A call made on the client reference \<open>c\<close> the caller holds.\<close>

definition pinned_call_on :: "'c \<Rightarrow> 'c call_expr \<Rightarrow> bool" where
  "pinned_call_on c e =
     (case e of ClientCall c' m \<Rightarrow> c' = c | ClientMemberCall c' obj m \<Rightarrow> c' = c | _ \<Rightarrow> False)"

text \<open>The client a call was applied to.\<close>

definition routed_to :: "'c call_result \<Rightarrow> 'c option" where
  "routed_to r = (case r of AppliedTo c name \<Rightarrow> Some c | _ \<Rightarrow> None)"


section \<open>Resource methods\<close>

text \<open>
  The methods of the manager classes. A method is a function of the session (read by
  the guard it starts with) and of the outcome of every call it awaits; it returns a
  value or throws, and changes no session state. Arguments that only shape the request
  (ids, names, limits, texts) are left out. \<open>and_then\<close> sequences steps that may throw,
  \<open>try_pure\<close> is \<open>try { ... } catch (error) { ... }\<close> around them; the handlers of the
  resource methods log and return. A property read that can throw (the value may be
  \<open>null\<close>) is written with \<open>get_prop\<close>; a read with \<open>?.\<close>, or of a value just tested to be
  truthy, is written with \<open>opt_prop\<close>.
\<close>

definition and_then :: "js_error + 'a \<Rightarrow> ('a \<Rightarrow> js_error + 'b) \<Rightarrow> js_error + 'b" where
  "and_then r f = (case r of Inl e \<Rightarrow> Inl e | Inr v \<Rightarrow> f v)"

definition try_pure :: "js_error + 'a \<Rightarrow> (js_error \<Rightarrow> js_error + 'a) \<Rightarrow> js_error + 'a" where
  "try_pure r handler = (case r of Inl e \<Rightarrow> handler e | Inr v \<Rightarrow> Inr v)"

text \<open>\<open>a ?? b\<close>.\<close>

definition js_coalesce :: "jsval \<Rightarrow> jsval \<Rightarrow> jsval" where
  "js_coalesce a b = (if nullish a then b else a)"

text \<open>
  \<open>v.length\<close>: the length of an array or of a string, an own property of an object,
  \<open>undefined\<close> for a number or a boolean.
\<close>

definition length_prop :: "jsval \<Rightarrow> js_error + jsval" where
  "length_prop v =
     (case v of
        JArr xs \<Rightarrow> Inr (JNum (int (length xs)))
      | JStr s \<Rightarrow> Inr (JNum (int (length s)))
      | _ \<Rightarrow> get_prop v ''length'')"

text \<open>
  \<open>v > 0\<close>. \<open>undefined\<close> converts to NaN, \<open>null\<close> to 0, \<open>true\<close> to 1. A string, an array
  or an object is first converted to a primitive and then to a number; that conversion
  (which throws for an object whose \<open>valueOf\<close> and \<open>toString\<close> are not callable) is the
  parameter \<open>coerced\<close>.
\<close>

definition gt_zero :: "(jsval \<Rightarrow> js_error + bool) \<Rightarrow> jsval \<Rightarrow> js_error + bool" where
  "gt_zero coerced v =
     (case v of
        JUndefined \<Rightarrow> Inr False
      | JNull \<Rightarrow> Inr False
      | JBool b \<Rightarrow> Inr b
      | JNum n \<Rightarrow> Inr (0 < n)
      | _ \<Rightarrow> coerced v)"

text \<open>\<open>error.response?.status\<close>: only a rejection of the HTTP client carries a response.\<close>

definition response_status :: "js_error \<Rightarrow> int option" where
  "response_status error =
     (case error of HttpError msg (Some (st, body)) \<Rightarrow> Some st | _ \<Rightarrow> None)"

text \<open>\<open>Array.prototype.filter\<close> with a predicate that may throw.\<close>

fun filter_throwing :: "('a \<Rightarrow> js_error + bool) \<Rightarrow> 'a list \<Rightarrow> js_error + 'a list" where
  "filter_throwing f [] = Inr []"
| "filter_throwing f (x # xs) =
     and_then (f x) (\<lambda>keep.
     and_then (filter_throwing f xs) (\<lambda>ys. Inr (if keep then x # ys else ys)))"

text \<open>
  Modelled from the spec: \<open>ITDClient.requireAuth\<close> (\<open>client.js\<close>) is not among the
  sources; it is the local precondition check "is there a usable access token, or has
  the session been explicitly marked authenticated", which makes no network call.
\<close>

definition requireAuth :: "'j world \<Rightarrow> bool" where
  "requireAuth w = (truthy (accessToken w) \<or> isAuthenticated w)"

subsection \<open>\<open>UsersManager\<close> (\<open>part_002\<close>)\<close>

definition updateProfile :: "'j world \<Rightarrow> http_result \<Rightarrow> js_error + jsval" where
  "updateProfile w settled =
     (if \<not> checkAuth w then Inr JNull
      else try_pure
             (and_then settled (\<lambda>response.
                if status response = 200 then Inr (data response) else Inr JNull))
             (\<lambda>error. Inr JNull))"

text \<open>\<open>getMyProfile\<close>: the body of a 200 response is returned as it is.\<close>

definition getMyProfile :: "'j world \<Rightarrow> http_result \<Rightarrow> js_error + jsval" where
  "getMyProfile w settled =
     (if \<not> checkAuth w then Inr JNull
      else try_pure
             (and_then settled (\<lambda>response.
                if status response = 200 then Inr (data response) else Inr JNull))
             (\<lambda>error. Inr JNull))"

text \<open>\<open>getUserProfile\<close>: \<open>response.data.data || response.data\<close>; no guard.\<close>

definition getUserProfile :: "http_result \<Rightarrow> js_error + jsval" where
  "getUserProfile settled =
     try_pure
       (and_then settled (\<lambda>response.
          if status response = 200 then
            and_then (get_prop (data response) ''data'') (\<lambda>d. Inr (js_or d (data response)))
          else Inr JNull))
       (\<lambda>error. Inr JNull)"

definition followUser :: "'j world \<Rightarrow> http_result \<Rightarrow> js_error + jsval" where
  "followUser w settled =
     (if \<not> checkAuth w then Inr JNull
      else try_pure
             (and_then settled (\<lambda>response.
                if status response = 200 \<or> status response = 201 then Inr (data response)
                else Inr JNull))
             (\<lambda>error. Inr JNull))"

definition unfollowUser :: "'j world \<Rightarrow> http_result \<Rightarrow> js_error + jsval" where
  "unfollowUser w settled =
     (if \<not> checkAuth w then Inr JNull
      else try_pure
             (and_then settled (\<lambda>response.
                if status response = 200 \<or> status response = 204
                then Inr (js_or (data response)
                            (JObj [(''following'', JBool False), (''followersCount'', JNum 0)]))
                else Inr JNull))
             (\<lambda>error. Inr JNull))"

definition empty_followers :: jsval where
  "empty_followers = JObj [(''users'', JArr []), (''pagination'', JObj [])]"

text \<open>\<open>getFollowers\<close>.\<close>

definition getFollowers_try :: "http_result \<Rightarrow> js_error + jsval" where
  "getFollowers_try settled =
     and_then settled (\<lambda>response.
       if status response = 200 then
         and_then (get_prop (data response) ''data'') (\<lambda>d.
         and_then (if truthy d then get_prop d ''users'' else Inr d) (\<lambda>nested_users.
           if truthy nested_users then
             and_then (get_prop d ''pagination'') (\<lambda>pg.
               Inr (JObj [(''users'', nested_users), (''pagination'', js_or pg (JObj []))]))
           else
             and_then (get_prop (data response) ''users'') (\<lambda>u.
               if truthy u then
                 and_then (get_prop (data response) ''pagination'') (\<lambda>pg.
                   Inr (JObj [(''users'', u), (''pagination'', js_or pg (JObj []))]))
               else Inr empty_followers)))
       else Inr JNull)"

definition getFollowers :: "http_result \<Rightarrow> js_error + jsval" where
  "getFollowers settled = try_pure (getFollowers_try settled) (\<lambda>error. Inr JNull)"

text \<open>\<open>getFollowing\<close>: the statements of \<open>getFollowers\<close>, on another URL.\<close>

definition getFollowing_try :: "http_result \<Rightarrow> js_error + jsval" where
  "getFollowing_try settled =
     and_then settled (\<lambda>response.
       if status response = 200 then
         and_then (get_prop (data response) ''data'') (\<lambda>d.
         and_then (if truthy d then get_prop d ''users'' else Inr d) (\<lambda>nested_users.
           if truthy nested_users then
             and_then (get_prop d ''pagination'') (\<lambda>pg.
               Inr (JObj [(''users'', nested_users), (''pagination'', js_or pg (JObj []))]))
           else
             and_then (get_prop (data response) ''users'') (\<lambda>u.
               if truthy u then
                 and_then (get_prop (data response) ''pagination'') (\<lambda>pg.
                   Inr (JObj [(''users'', u), (''pagination'', js_or pg (JObj []))]))
               else Inr empty_followers)))
       else Inr JNull)"

definition getFollowing :: "http_result \<Rightarrow> js_error + jsval" where
  "getFollowing settled = try_pure (getFollowing_try settled) (\<lambda>error. Inr JNull)"

text \<open>
  \<open>getUserClan\<close>. The class defines it twice (lines 288 and 412); the later definition
  is the one in force, and both return \<open>profile.avatar || null\<close> for a truthy profile
  and \<open>null\<close> otherwise.
\<close>

definition getUserClan :: "http_result \<Rightarrow> js_error + jsval" where
  "getUserClan settled =
     and_then (getUserProfile settled) (\<lambda>profile.
       if truthy profile then Inr (js_or (opt_prop profile ''avatar'') JNull) else Inr JNull)"

definition getTopClans :: "http_result \<Rightarrow> js_error + jsval" where
  "getTopClans settled =
     try_pure
       (and_then settled (\<lambda>response.
          if status response = 200 then
            and_then (get_prop (data response) ''clans'') (\<lambda>clans. Inr (js_or clans (JArr [])))
          else Inr JNull))
       (\<lambda>error. Inr JNull)"

definition getWhoToFollow :: "'j world \<Rightarrow> http_result \<Rightarrow> js_error + jsval" where
  "getWhoToFollow w settled =
     (if \<not> checkAuth w then Inr JNull
      else try_pure
             (and_then settled (\<lambda>response.
                if status response = 200 then
                  and_then (get_prop (data response) ''users'') (\<lambda>users. Inr (js_or users (JArr [])))
                else Inr JNull))
             (\<lambda>error. Inr JNull))"

definition isFollowing :: "'j world \<Rightarrow> http_result \<Rightarrow> js_error + jsval" where
  "isFollowing w settled =
     (if \<not> checkAuth w then Inr (JBool False)
      else and_then (getUserProfile settled) (\<lambda>profile.
             if truthy profile then Inr (JBool (opt_prop profile ''isFollowing'' = JBool True))
             else Inr (JBool False)))"

definition getMyFollowersCount :: "'j world \<Rightarrow> http_result \<Rightarrow> js_error + jsval" where
  "getMyFollowersCount w settled =
     and_then (getMyProfile w settled) (\<lambda>profile.
       if truthy profile then Inr (js_or (opt_prop profile ''followersCount'') (JNum 0))
       else Inr (JNum 0))"

definition getMyFollowingCount :: "'j world \<Rightarrow> http_result \<Rightarrow> js_error + jsval" where
  "getMyFollowingCount w settled =
     and_then (getMyProfile w settled) (\<lambda>profile.
       if truthy profile then Inr (js_or (opt_prop profile ''followingCount'') (JNum 0))
       else Inr (JNum 0))"

definition getMyClan :: "'j world \<Rightarrow> http_result \<Rightarrow> js_error + jsval" where
  "getMyClan w settled =
     and_then (getMyProfile w settled) (\<lambda>profile.
       if truthy profile then Inr (js_or (opt_prop profile ''avatar'') JNull) else Inr JNull)"

subsection \<open>\<open>HashtagsManager\<close> (\<open>part_003\<close>)\<close>

definition empty_trending :: jsval where
  "empty_trending = JObj [(''hashtags'', JArr [])]"

definition getTrending :: "http_result \<Rightarrow> js_error + jsval" where
  "getTrending settled =
     try_pure
       (and_then settled (\<lambda>response.
          if status response = 200 then
            and_then (get_prop (data response) ''data'') (\<lambda>d.
            and_then (if truthy d then get_prop d ''hashtags'' else Inr d) (\<lambda>nested_hashtags.
              if truthy nested_hashtags then Inr (JObj [(''hashtags'', nested_hashtags)])
              else
                and_then (get_prop (data response) ''hashtags'') (\<lambda>h.
                  if truthy h then Inr (JObj [(''hashtags'', h)]) else Inr empty_trending)))
          else Inr JNull))
       (\<lambda>error. Inr JNull)"

text \<open>
  \<open>getPostsByHashtag\<close>: under a truthy \<open>data\<close> member the three fields are read from it;
  the fallback reads \<open>posts\<close> and \<open>pagination\<close> from the body and sets \<open>hashtag\<close> to \<open>null\<close>.
\<close>

definition getPostsByHashtag :: "http_result \<Rightarrow> js_error + jsval" where
  "getPostsByHashtag settled =
     try_pure
       (and_then settled (\<lambda>response.
          if status response = 200 then
            and_then (get_prop (data response) ''data'') (\<lambda>d.
              if truthy d then
                Inr (JObj [(''hashtag'', js_or (opt_prop d ''hashtag'') JNull),
                           (''posts'', js_or (opt_prop d ''posts'') (JArr [])),
                           (''pagination'', js_or (opt_prop d ''pagination'') (JObj []))])
              else
                and_then (get_prop (data response) ''posts'') (\<lambda>posts.
                and_then (get_prop (data response) ''pagination'') (\<lambda>pg.
                  Inr (JObj [(''hashtag'', JNull),
                             (''posts'', js_or posts (JArr [])),
                             (''pagination'', js_or pg (JObj []))]))))
          else Inr JNull))
       (\<lambda>error. Inr JNull)"

subsection \<open>\<open>VerificationManager\<close> (\<open>part_004\<close>)\<close>

text \<open>\<open>getStatus\<close>: \<open>response.data?.data ?? response.data\<close>.\<close>

definition getStatus :: "'j world \<Rightarrow> http_result \<Rightarrow> js_error + jsval" where
  "getStatus w settled =
     (if \<not> checkAuth w then Inr JNull
      else try_pure
             (and_then settled (\<lambda>response.
                if status response = 200
                then Inr (js_coalesce (opt_prop (data response) ''data'') (data response))
                else Inr JNull))
             (\<lambda>error. Inr JNull))"

definition submit :: "'j world \<Rightarrow> http_result \<Rightarrow> js_error + jsval" where
  "submit w settled =
     (if \<not> checkAuth w then Inr JNull
      else try_pure
             (and_then settled (\<lambda>response.
                if status response = 200 \<or> status response = 201
                then Inr (js_coalesce (opt_prop (data response) ''data'') (data response))
                else Inr JNull))
             (\<lambda>error. Inr JNull))"

subsection \<open>\<open>FilesManager\<close> (\<open>files.js\<close>)\<close>

text \<open>\<open>uploadFile\<close>: inside the \<open>try\<close>, a path that does not exist ends the method before the request.\<close>

definition uploadFile :: "'j world \<Rightarrow> string \<Rightarrow> http_result \<Rightarrow> js_error + jsval" where
  "uploadFile w filePath settled =
     (if \<not> checkAuth w then Inr JNull
      else try_pure
             (if \<not> existsSync (fs w) filePath then Inr JNull
              else and_then settled (\<lambda>response.
                     if status response = 200 \<or> status response = 201 then Inr (data response)
                     else Inr JNull))
             (\<lambda>error. Inr JNull))"

definition getFile :: "'j world \<Rightarrow> http_result \<Rightarrow> js_error + jsval" where
  "getFile w settled =
     (if \<not> checkAuth w then Inr JNull
      else try_pure
             (and_then settled (\<lambda>response.
                if status response = 200
                then Inr (js_coalesce (opt_prop (data response) ''data'') (data response))
                else Inr JNull))
             (\<lambda>error. Inr JNull))"

definition deleteFile :: "'j world \<Rightarrow> http_result \<Rightarrow> js_error + jsval" where
  "deleteFile w settled =
     (if \<not> checkAuth w then Inr (JBool False)
      else try_pure
             (and_then settled (\<lambda>response.
                Inr (JBool (status response = 200 \<or> status response = 204))))
             (\<lambda>error. Inr (JBool False)))"

subsection \<open>\<open>ReportsManager\<close> (\<open>reports.js\<close>)\<close>

definition report :: "'j world \<Rightarrow> http_result \<Rightarrow> js_error + jsval" where
  "report w settled =
     (if \<not> checkAuth w then Inr JNull
      else try_pure
             (and_then settled (\<lambda>response.
                if status response = 200 \<or> status response = 201 then
                  (if truthy (data response) \<and> truthy (opt_prop (data response) ''data'')
                   then Inr (opt_prop (data response) ''data'')
                   else Inr (js_or (data response) (JObj [(''success'', JBool True)])))
                else Inr JNull))
             (\<lambda>error. Inr JNull))"

text \<open>\<open>reportPost\<close>, \<open>reportComment\<close> and \<open>reportUser\<close> return what \<open>report\<close> returns.\<close>

definition reportPost :: "'j world \<Rightarrow> http_result \<Rightarrow> js_error + jsval" where
  "reportPost w settled = report w settled"

definition reportComment :: "'j world \<Rightarrow> http_result \<Rightarrow> js_error + jsval" where
  "reportComment w settled = report w settled"

definition reportUser :: "'j world \<Rightarrow> http_result \<Rightarrow> js_error + jsval" where
  "reportUser w settled = report w settled"

subsection \<open>\<open>SearchManager\<close> (\<open>search.js\<close>)\<close>

definition empty_search :: jsval where
  "empty_search = JObj [(''users'', JArr []), (''hashtags'', JArr [])]"

definition search_try :: "http_result \<Rightarrow> js_error + jsval" where
  "search_try settled =
     and_then settled (\<lambda>response.
       if status response = 200 then
         and_then (get_prop (data response) ''data'') (\<lambda>d.
           if truthy d then
             and_then (get_prop d ''users'') (\<lambda>u.
             and_then (get_prop d ''hashtags'') (\<lambda>h.
               Inr (JObj [(''users'', js_or u (JArr [])), (''hashtags'', js_or h (JArr []))])))
           else
             and_then (get_prop (data response) ''users'') (\<lambda>u.
             and_then (get_prop (data response) ''hashtags'') (\<lambda>h.
               if truthy u \<or> truthy h
               then Inr (JObj [(''users'', js_or u (JArr [])), (''hashtags'', js_or h (JArr []))])
               else Inr empty_search)))
       else Inr JNull)"

definition search :: "http_result \<Rightarrow> js_error + jsval" where
  "search settled = try_pure (search_try settled) (\<lambda>error. Inr JNull)"

text \<open>
  \<open>searchUsers\<close> and \<open>searchHashtags\<close> await a method of another manager
  (\<open>this.client.users.searchUsers\<close>, \<open>this.client.hashtags.search\<close>) outside any \<open>try\<close>.
  Neither method is among the sources; the outcome of the awaited call, a value or a
  throw, is the parameter \<open>delegated\<close>.
\<close>

definition searchUsers :: "js_error + jsval \<Rightarrow> js_error + jsval" where
  "searchUsers delegated =
     and_then delegated (\<lambda>result. if truthy result then Inr (opt_prop result ''users'') else Inr JNull)"

definition searchHashtags :: "js_error + jsval \<Rightarrow> js_error + jsval" where
  "searchHashtags delegated =
     and_then delegated (\<lambda>result. if truthy result then Inr (opt_prop result ''hashtags'') else Inr JNull)"

subsection \<open>\<open>CommentsManager\<close> (\<open>comments.js\<close> and its later revision \<open>part_005\<close>)\<close>

text \<open>
  \<open>addComment\<close>, \<open>likeComment\<close>, \<open>unlikeComment\<close> and \<open>deleteComment\<close> are the same in
  both revisions but for the guard: \<open>this.client.auth.checkAuth()\<close> in \<open>comments.js\<close>,
  \<open>this.client.requireAuth()\<close> in \<open>part_005\<close>. The \<open>try\<close> statement of each is given once.
\<close>

definition addComment_request :: "http_result \<Rightarrow> js_error + jsval" where
  "addComment_request settled =
     try_pure
       (and_then settled (\<lambda>response.
          if status response = 200 \<or> status response = 201 then Inr (data response)
          else Inr JNull))
       (\<lambda>error. Inr JNull)"

definition addComment :: "'j world \<Rightarrow> http_result \<Rightarrow> js_error + jsval" where
  "addComment w settled = (if \<not> checkAuth w then Inr JNull else addComment_request settled)"

definition addComment_part_005 :: "'j world \<Rightarrow> http_result \<Rightarrow> js_error + jsval" where
  "addComment_part_005 w settled = (if \<not> requireAuth w then Inr JNull else addComment_request settled)"

definition likeComment_request :: "http_result \<Rightarrow> js_error + jsval" where
  "likeComment_request settled =
     try_pure
       (and_then settled (\<lambda>response.
          if status response = 200 \<or> status response = 201 then Inr (data response)
          else Inr JNull))
       (\<lambda>error. Inr JNull)"

definition likeComment :: "'j world \<Rightarrow> http_result \<Rightarrow> js_error + jsval" where
  "likeComment w settled = (if \<not> checkAuth w then Inr JNull else likeComment_request settled)"

definition likeComment_part_005 :: "'j world \<Rightarrow> http_result \<Rightarrow> js_error + jsval" where
  "likeComment_part_005 w settled = (if \<not> requireAuth w then Inr JNull else likeComment_request settled)"

definition unlikeComment_request :: "http_result \<Rightarrow> js_error + jsval" where
  "unlikeComment_request settled =
     try_pure
       (and_then settled (\<lambda>response.
          if status response = 200 \<or> status response = 204
          then Inr (js_or (data response) (JObj [(''liked'', JBool False), (''likesCount'', JNum 0)]))
          else Inr JNull))
       (\<lambda>error. Inr JNull)"

definition unlikeComment :: "'j world \<Rightarrow> http_result \<Rightarrow> js_error + jsval" where
  "unlikeComment w settled = (if \<not> checkAuth w then Inr JNull else unlikeComment_request settled)"

definition unlikeComment_part_005 :: "'j world \<Rightarrow> http_result \<Rightarrow> js_error + jsval" where
  "unlikeComment_part_005 w settled =
     (if \<not> requireAuth w then Inr JNull else unlikeComment_request settled)"

text \<open>\<open>deleteComment\<close>: \<open>true\<close> on 200 or 204, \<open>false\<close> otherwise.\<close>

definition deleteComment_request :: "http_result \<Rightarrow> js_error + jsval" where
  "deleteComment_request settled =
     try_pure
       (and_then settled (\<lambda>response.
          if status response = 200 \<or> status response = 204 then Inr (JBool True)
          else Inr (JBool False)))
       (\<lambda>error. Inr (JBool False))"

definition deleteComment :: "'j world \<Rightarrow> http_result \<Rightarrow> js_error + jsval" where
  "deleteComment w settled =
     (if \<not> checkAuth w then Inr (JBool False) else deleteComment_request settled)"

definition deleteComment_part_005 :: "'j world \<Rightarrow> http_result \<Rightarrow> js_error + jsval" where
  "deleteComment_part_005 w settled =
     (if \<not> requireAuth w then Inr (JBool False) else deleteComment_request settled)"

text \<open>\<open>restoreComment\<close> (\<open>part_005\<close> only).\<close>

definition restoreComment :: "'j world \<Rightarrow> http_result \<Rightarrow> js_error + jsval" where
  "restoreComment w settled =
     (if \<not> requireAuth w then Inr (JBool False)
      else try_pure
             (and_then settled (\<lambda>response.
                Inr (JBool (status response = 200 \<or> status response = 201 \<or> status response = 204))))
             (\<lambda>error. Inr (JBool False)))"

text \<open>
  \<open>replyToComment\<close> (\<open>part_005\<close> only); a falsy \<open>replyToUserId\<close> ends the method before
  the request.
\<close>

definition replyToComment :: "'j world \<Rightarrow> jsval \<Rightarrow> http_result \<Rightarrow> js_error + jsval" where
  "replyToComment w replyToUserId settled =
     (if \<not> requireAuth w then Inr JNull
      else if \<not> truthy replyToUserId then Inr JNull
      else try_pure
             (and_then settled (\<lambda>response.
                if status response = 200 \<or> status response = 201 then Inr (data response)
                else Inr JNull))
             (\<lambda>error. Inr JNull))"

text \<open>
  \<open>addVoiceComment\<close> (\<open>part_005\<close> only) awaits \<open>uploadFile\<close> and then \<open>addComment\<close>, outside
  any \<open>try\<close>; it sends up to two requests.
\<close>

definition addVoiceComment ::
  "'j world \<Rightarrow> string \<Rightarrow> http_result \<Rightarrow> http_result \<Rightarrow> js_error + jsval" where
  "addVoiceComment w audioPath upload_settled comment_settled =
     (if \<not> requireAuth w then Inr JNull
      else and_then (uploadFile w audioPath upload_settled) (\<lambda>uploaded.
             if \<not> truthy uploaded then Inr JNull
             else addComment_part_005 w comment_settled))"

definition empty_comments :: jsval where
  "empty_comments =
     JObj [(''comments'', JArr []), (''total'', JNum 0), (''hasMore'', JBool False), (''nextCursor'', JNull)]"

text \<open>
  \<open>getComments\<close> of \<open>comments.js\<close>: besides the nested and the flat shape it accepts a
  bare array of comments; on any failure it returns the empty result.
\<close>

definition getComments_try :: "http_result \<Rightarrow> js_error + jsval" where
  "getComments_try settled =
     and_then settled (\<lambda>response.
       if status response = 200 then
         and_then (get_prop (data response) ''data'') (\<lambda>d.
         and_then (if truthy d then get_prop d ''comments'' else Inr d) (\<lambda>nested_comments.
           if truthy nested_comments then
             and_then (get_prop d ''total'') (\<lambda>total.
             and_then (get_prop d ''hasMore'') (\<lambda>hasMore.
             and_then (get_prop d ''nextCursor'') (\<lambda>nextCursor.
               Inr (JObj [(''comments'', nested_comments),
                          (''total'', js_or total (JNum 0)),
                          (''hasMore'', js_or hasMore (JBool False)),
                          (''nextCursor'', js_or nextCursor JNull)]))))
           else
             and_then (get_prop (data response) ''comments'') (\<lambda>comments.
               if truthy comments then
                 and_then (get_prop (data response) ''total'') (\<lambda>total.
                 and_then (get_prop (data response) ''hasMore'') (\<lambda>hasMore.
                 and_then (get_prop (data response) ''nextCursor'') (\<lambda>nextCursor.
                   Inr (JObj [(''comments'', comments),
                              (''total'', js_or total (JNum 0)),
                              (''hasMore'', js_or hasMore (JBool False)),
                              (''nextCursor'', js_or nextCursor JNull)]))))
               else
                 (case data response of
                    JArr xs \<Rightarrow>
                      Inr (JObj [(''comments'', JArr xs),
                                 (''total'', JNum (int (length xs))),
                                 (''hasMore'', JBool False),
                                 (''nextCursor'', JNull)])
                  | _ \<Rightarrow> Inr empty_comments))))
       else Inr empty_comments)"

definition getComments :: "http_result \<Rightarrow> js_error + jsval" where
  "getComments settled = try_pure (getComments_try settled) (\<lambda>error. Inr empty_comments)"

text \<open>
  \<open>getComments\<close> of \<open>part_005\<close>. Its local function \<open>parseResponse\<close> unwraps with
  \<open>response.data?.data ?? response.data\<close> and completes the fields with \<open>??\<close>.
\<close>

definition parseResponse :: "http_response \<Rightarrow> js_error + jsval" where
  "parseResponse response =
     (let d = js_coalesce (opt_prop (data response) ''data'') (data response);
          comments = opt_prop d ''comments''
      in if truthy comments then
           and_then (if nullish (opt_prop d ''total'') then length_prop comments
                     else Inr (opt_prop d ''total'')) (\<lambda>total.
             Inr (JObj [(''comments'', comments),
                        (''total'', total),
                        (''hasMore'', js_coalesce (opt_prop d ''hasMore'') (JBool False)),
                        (''nextCursor'', js_coalesce (opt_prop d ''nextCursor'') JNull)]))
         else
           (case d of
              JArr xs \<Rightarrow>
                Inr (JObj [(''comments'', JArr xs),
                           (''total'', JNum (int (length xs))),
                           (''hasMore'', JBool False),
                           (''nextCursor'', JNull)])
            | _ \<Rightarrow> Inr empty_comments))"

text \<open>
  The statement \<open>if (error.response?.status === 422) { try { ... } catch (_) {} }\<close> of the
  handler: one more request, whose comments are returned when it answers 200. \<open>Some r\<close>
  means the statement returned \<open>r\<close>.
\<close>

definition retry_after_422 :: "js_error \<Rightarrow> http_result \<Rightarrow> jsval option" where
  "retry_after_422 error retry_settled =
     (if response_status error = Some 422 then
        (case retry_settled of
           Inl e \<Rightarrow> None
         | Inr retry \<Rightarrow>
             if status retry = 200
             then (case parseResponse retry of Inl e \<Rightarrow> None | Inr r \<Rightarrow> Some r)
             else None)
      else None)"

definition getComments_catch :: "js_error \<Rightarrow> http_result \<Rightarrow> js_error + jsval" where
  "getComments_catch error retry_settled =
     (case retry_after_422 error retry_settled of Some r \<Rightarrow> Inr r | None \<Rightarrow> Inr empty_comments)"

text \<open>
  The method sends up to three requests: the first; after an answer 422 a second one
  (\<open>fallback\<close>) inside the \<open>try\<close>; and, in the handler, one more after an error that
  carries status 422. \<open>first\<close>, \<open>second\<close> and \<open>third\<close> are the outcomes of the requests in
  the order they are sent.
\<close>

definition getComments_part_005 :: "http_result \<Rightarrow> http_result \<Rightarrow> http_result \<Rightarrow> js_error + jsval" where
  "getComments_part_005 first second third =
     (case first of
        Inl error \<Rightarrow> getComments_catch error second
      | Inr response \<Rightarrow>
          if status response = 200 then
            (case parseResponse response of
               Inl error \<Rightarrow> getComments_catch error second
             | Inr r \<Rightarrow> Inr r)
          else if status response = 422 then
            (case second of
               Inl error \<Rightarrow> getComments_catch error third
             | Inr fallback \<Rightarrow>
                 if status fallback = 200 then
                   (case parseResponse fallback of
                      Inl error \<Rightarrow> getComments_catch error third
                    | Inr r \<Rightarrow> Inr r)
                 else Inr empty_comments)
          else Inr empty_comments)"

text \<open>
  \<open>getPostCommentsCount\<close>, \<open>getTopComment\<close> and \<open>hasComments\<close> have the same text in both
  revisions; they await the revision's own \<open>getComments\<close> outside any \<open>try\<close>. The
  statements after that \<open>await\<close> are given once, as a function of its result.

  \<open>getPostCommentsCount\<close> falls back to \<open>this.client.posts.getPost\<close>, which is not among
  the sources: the outcome of that call is the parameter \<open>getPost\<close>.
\<close>

definition getPostCommentsCount_of :: "js_error + jsval \<Rightarrow> jsval \<Rightarrow> js_error + jsval" where
  "getPostCommentsCount_of getPost result =
     (if truthy result \<and> opt_prop result ''total'' \<noteq> JUndefined then Inr (opt_prop result ''total'')
      else and_then getPost (\<lambda>post.
             if truthy post then Inr (js_or (opt_prop post ''commentsCount'') (JNum 0))
             else Inr (JNum 0)))"

definition getPostCommentsCount :: "js_error + jsval \<Rightarrow> http_result \<Rightarrow> js_error + jsval" where
  "getPostCommentsCount getPost settled =
     and_then (getComments settled) (getPostCommentsCount_of getPost)"

definition getPostCommentsCount_part_005 ::
  "js_error + jsval \<Rightarrow> http_result \<Rightarrow> http_result \<Rightarrow> http_result \<Rightarrow> js_error + jsval" where
  "getPostCommentsCount_part_005 getPost first second third =
     and_then (getComments_part_005 first second third) (getPostCommentsCount_of getPost)"

text \<open>
  \<open>getTopComment\<close>: the expression \<open>[...result.comments].sort(...)[0]\<close>, evaluated when the
  comments have a positive length, is the parameter \<open>sorted_first\<close> (spreading a value
  that is not iterable throws, and so does the comparison on a \<open>null\<close> element).
\<close>

definition getTopComment_of ::
  "(jsval \<Rightarrow> js_error + bool) \<Rightarrow> (jsval \<Rightarrow> js_error + jsval) \<Rightarrow> jsval \<Rightarrow> js_error + jsval" where
  "getTopComment_of coerced sorted_first result =
     (if truthy result \<and> truthy (opt_prop result ''comments'') then
        and_then (length_prop (opt_prop result ''comments'')) (\<lambda>n.
        and_then (gt_zero coerced n) (\<lambda>positive.
          if positive then sorted_first (opt_prop result ''comments'') else Inr JNull))
      else Inr JNull)"

definition getTopComment ::
  "(jsval \<Rightarrow> js_error + bool) \<Rightarrow> (jsval \<Rightarrow> js_error + jsval) \<Rightarrow> http_result \<Rightarrow> js_error + jsval" where
  "getTopComment coerced sorted_first settled =
     and_then (getComments settled) (getTopComment_of coerced sorted_first)"

definition getTopComment_part_005 ::
  "(jsval \<Rightarrow> js_error + bool) \<Rightarrow> (jsval \<Rightarrow> js_error + jsval) \<Rightarrow>
   http_result \<Rightarrow> http_result \<Rightarrow> http_result \<Rightarrow> js_error + jsval" where
  "getTopComment_part_005 coerced sorted_first first second third =
     and_then (getComments_part_005 first second third) (getTopComment_of coerced sorted_first)"

definition hasComments_of :: "(jsval \<Rightarrow> js_error + bool) \<Rightarrow> jsval \<Rightarrow> js_error + jsval" where
  "hasComments_of coerced count = and_then (gt_zero coerced count) (\<lambda>positive. Inr (JBool positive))"

definition hasComments ::
  "(jsval \<Rightarrow> js_error + bool) \<Rightarrow> js_error + jsval \<Rightarrow> http_result \<Rightarrow> js_error + jsval" where
  "hasComments coerced getPost settled =
     and_then (getPostCommentsCount getPost settled) (hasComments_of coerced)"

definition hasComments_part_005 ::
  "(jsval \<Rightarrow> js_error + bool) \<Rightarrow> js_error + jsval \<Rightarrow>
   http_result \<Rightarrow> http_result \<Rightarrow> http_result \<Rightarrow> js_error + jsval" where
  "hasComments_part_005 coerced getPost first second third =
     and_then (getPostCommentsCount_part_005 getPost first second third) (hasComments_of coerced)"

subsection \<open>\<open>NotificationsManager\<close> (\<open>notifications.js\<close> and the two earlier revisions in \<open>part_006\<close>)\<close>

text \<open>
  The first class of \<open>part_006\<close> (lines 4 to 213) has the methods of \<open>notifications.js\<close>
  with the guard \<open>this.client.auth.checkAuth()\<close> in place of \<open>this.client.requireAuth()\<close>,
  and no \<open>getNotificationStream\<close>. The second class of \<open>part_006\<close> (from line 217), named
  \<open>part_006b\<close> here, pages by cursor: its \<open>getNotifications\<close>, \<open>markAllAsRead\<close> and
  \<open>getUnreadNotifications\<close> differ, its \<open>markAsRead\<close>, \<open>getUnreadCount\<close> and
  \<open>hasUnreadNotifications\<close> are those of the first class, and it has no \<open>markAsReadBatch\<close>.
  The \<open>try\<close> statement of a method shared by revisions is given once.
\<close>

text \<open>\<open>getNotifications\<close> of \<open>notifications.js\<close>; the filter \<open>type\<close> is a string or \<open>null\<close>.\<close>

definition getNotifications_request :: "string option \<Rightarrow> http_result \<Rightarrow> js_error + jsval" where
  "getNotifications_request type_filter settled =
     try_pure
       (and_then settled (\<lambda>response.
          if status response = 200 then
            (let notifications =
                   (case opt_prop (data response) ''notifications'' of JArr xs \<Rightarrow> xs | _ \<Rightarrow> []);
                 hasMore = truthy (opt_prop (data response) ''hasMore'')
             in and_then
                  (case type_filter of
                     None \<Rightarrow> Inr notifications
                   | Some t \<Rightarrow>
                       if t \<noteq> [] \<and> length notifications > 0
                       then filter_throwing
                              (\<lambda>notif. and_then (get_prop notif ''type'') (\<lambda>nt. Inr (nt = JStr t)))
                              notifications
                       else Inr notifications)
                  (\<lambda>ns. Inr (JObj [(''notifications'', JArr ns), (''hasMore'', JBool hasMore)])))
          else Inr JNull))
       (\<lambda>error. Inr JNull)"

definition getNotifications :: "'j world \<Rightarrow> string option \<Rightarrow> http_result \<Rightarrow> js_error + jsval" where
  "getNotifications w type_filter settled =
     (if \<not> requireAuth w then Inr JNull else getNotifications_request type_filter settled)"

definition getNotifications_part_006 :: "'j world \<Rightarrow> string option \<Rightarrow> http_result \<Rightarrow> js_error + jsval" where
  "getNotifications_part_006 w type_filter settled =
     (if \<not> checkAuth w then Inr JNull else getNotifications_request type_filter settled)"

text \<open>
  \<open>getNotifications\<close> of \<open>part_006b\<close>: the notifications are taken from the nested shape,
  from a bare array, or from the flat shape, and need not be an array; a value without
  a \<open>filter\<close> method makes the type filter throw inside the \<open>try\<close>.
\<close>

definition filter_by_type ::
  "(jsval \<Rightarrow> js_error + bool) \<Rightarrow> string option \<Rightarrow> jsval \<Rightarrow> js_error + jsval" where
  "filter_by_type coerced type_filter notifications =
     (case type_filter of
        None \<Rightarrow> Inr notifications
      | Some t \<Rightarrow>
          if t = [] then Inr notifications
          else and_then (length_prop notifications) (\<lambda>n.
               and_then (gt_zero coerced n) (\<lambda>positive.
                 if \<not> positive then Inr notifications
                 else (case notifications of
                         JArr xs \<Rightarrow>
                           and_then
                             (filter_throwing
                                (\<lambda>notif. and_then (get_prop notif ''type'') (\<lambda>nt. Inr (nt = JStr t)))
                                xs)
                             (\<lambda>ys. Inr (JArr ys))
                       | _ \<Rightarrow> Inl (TypeError ''notifications.filter is not a function'')))))"

definition getNotifications_part_006b ::
  "'j world \<Rightarrow> (jsval \<Rightarrow> js_error + bool) \<Rightarrow> string option \<Rightarrow> http_result \<Rightarrow> js_error + jsval" where
  "getNotifications_part_006b w coerced type_filter settled =
     (if \<not> checkAuth w then Inr JNull
      else try_pure
             (and_then settled (\<lambda>response.
                if status response = 200 then
                  and_then (get_prop (data response) ''data'') (\<lambda>d.
                  and_then
                    (if truthy d \<and> truthy (opt_prop d ''notifications'') then
                       Inr (opt_prop d ''notifications'', js_or (opt_prop d ''pagination'') (JObj []))
                     else (case data response of
                             JArr xs \<Rightarrow> Inr (JArr xs, JObj [])
                           | _ \<Rightarrow>
                               if truthy (opt_prop (data response) ''notifications'') then
                                 Inr (opt_prop (data response) ''notifications'',
                                      js_or (opt_prop (data response) ''pagination'') (JObj []))
                               else Inr (JArr [], JObj [])))
                    (\<lambda>(notifications, pagination).
                       and_then (filter_by_type coerced type_filter notifications) (\<lambda>ns.
                         Inr (JObj [(''notifications'', ns), (''pagination'', pagination)]))))
                else Inr JNull))
             (\<lambda>error. Inr JNull))"

text \<open>
  \<open>markAsReadBatch\<close>: an \<open>ids\<close> that is not an array, or is empty, is answered without
  a request.
\<close>

definition markAsReadBatch_request :: "jsval \<Rightarrow> http_result \<Rightarrow> js_error + jsval" where
  "markAsReadBatch_request ids settled =
     (if (case ids of JArr xs \<Rightarrow> length xs = 0 | _ \<Rightarrow> True)
      then Inr (JObj [(''success'', JBool True), (''count'', JNum 0)])
      else try_pure
             (and_then settled (\<lambda>response.
                if status response = 200 then Inr (data response) else Inr JNull))
             (\<lambda>error. Inr JNull))"

definition markAsReadBatch :: "'j world \<Rightarrow> jsval \<Rightarrow> http_result \<Rightarrow> js_error + jsval" where
  "markAsReadBatch w ids settled =
     (if \<not> requireAuth w then Inr JNull else markAsReadBatch_request ids settled)"

definition markAsReadBatch_part_006 :: "'j world \<Rightarrow> jsval \<Rightarrow> http_result \<Rightarrow> js_error + jsval" where
  "markAsReadBatch_part_006 w ids settled =
     (if \<not> checkAuth w then Inr JNull else markAsReadBatch_request ids settled)"

definition markAsRead_request :: "http_result \<Rightarrow> js_error + jsval" where
  "markAsRead_request settled =
     try_pure
       (and_then settled (\<lambda>response.
          if status response = 200 \<or> status response = 204
          then Inr (js_or (data response) (JObj [(''success'', JBool True)]))
          else Inr JNull))
       (\<lambda>error. Inr JNull)"

definition markAsRead :: "'j world \<Rightarrow> http_result \<Rightarrow> js_error + jsval" where
  "markAsRead w settled = (if \<not> requireAuth w then Inr JNull else markAsRead_request settled)"

definition markAsRead_part_006 :: "'j world \<Rightarrow> http_result \<Rightarrow> js_error + jsval" where
  "markAsRead_part_006 w settled = (if \<not> checkAuth w then Inr JNull else markAsRead_request settled)"

definition getUnreadCount_request :: "http_result \<Rightarrow> js_error + jsval" where
  "getUnreadCount_request settled =
     try_pure
       (and_then settled (\<lambda>response.
          if status response = 200 then
            and_then (get_prop (data response) ''count'') (\<lambda>count. Inr (js_or count (JNum 0)))
          else Inr JNull))
       (\<lambda>error. Inr JNull)"

definition getUnreadCount :: "'j world \<Rightarrow> http_result \<Rightarrow> js_error + jsval" where
  "getUnreadCount w settled = (if \<not> requireAuth w then Inr JNull else getUnreadCount_request settled)"

definition getUnreadCount_part_006 :: "'j world \<Rightarrow> http_result \<Rightarrow> js_error + jsval" where
  "getUnreadCount_part_006 w settled =
     (if \<not> checkAuth w then Inr JNull else getUnreadCount_request settled)"

text \<open>\<open>markAllAsRead\<close>: \<open>response.data?.success !== false\<close> on 200 or 204.\<close>

definition markAllAsRead_request :: "http_result \<Rightarrow> js_error + jsval" where
  "markAllAsRead_request settled =
     try_pure
       (and_then settled (\<lambda>response.
          if status response = 200 \<or> status response = 204
          then Inr (JBool (opt_prop (data response) ''success'' \<noteq> JBool False))
          else Inr (JBool False)))
       (\<lambda>error. Inr (JBool False))"

definition markAllAsRead :: "'j world \<Rightarrow> http_result \<Rightarrow> js_error + jsval" where
  "markAllAsRead w settled =
     (if \<not> requireAuth w then Inr (JBool False) else markAllAsRead_request settled)"

definition markAllAsRead_part_006 :: "'j world \<Rightarrow> http_result \<Rightarrow> js_error + jsval" where
  "markAllAsRead_part_006 w settled =
     (if \<not> checkAuth w then Inr (JBool False) else markAllAsRead_request settled)"

text \<open>\<open>markAllAsRead\<close> of \<open>part_006b\<close>: \<open>true\<close> on 200 or 204.\<close>

definition markAllAsRead_part_006b :: "'j world \<Rightarrow> http_result \<Rightarrow> js_error + jsval" where
  "markAllAsRead_part_006b w settled =
     (if \<not> checkAuth w then Inr (JBool False)
      else try_pure
             (and_then settled (\<lambda>response.
                if status response = 200 \<or> status response = 204 then Inr (JBool True)
                else Inr (JBool False)))
             (\<lambda>error. Inr (JBool False)))"

text \<open>\<open>hasUnreadNotifications\<close>: \<open>(count || 0) > 0\<close> on what \<open>getUnreadCount\<close> returns.\<close>

definition hasUnreadNotifications_of :: "(jsval \<Rightarrow> js_error + bool) \<Rightarrow> jsval \<Rightarrow> js_error + jsval" where
  "hasUnreadNotifications_of coerced count =
     and_then (gt_zero coerced (js_or count (JNum 0))) (\<lambda>positive. Inr (JBool positive))"

definition hasUnreadNotifications ::
  "'j world \<Rightarrow> (jsval \<Rightarrow> js_error + bool) \<Rightarrow> http_result \<Rightarrow> js_error + jsval" where
  "hasUnreadNotifications w coerced settled =
     and_then (getUnreadCount w settled) (hasUnreadNotifications_of coerced)"

definition hasUnreadNotifications_part_006 ::
  "'j world \<Rightarrow> (jsval \<Rightarrow> js_error + bool) \<Rightarrow> http_result \<Rightarrow> js_error + jsval" where
  "hasUnreadNotifications_part_006 w coerced settled =
     and_then (getUnreadCount_part_006 w settled) (hasUnreadNotifications_of coerced)"

text \<open>
  \<open>getUnreadNotifications\<close> awaits \<open>getNotifications\<close> without a type filter and, outside
  any \<open>try\<close>, keeps the notifications whose \<open>read\<close> is falsy with
  \<open>all.notifications.filter(n => !n.read)\<close>.
\<close>

definition filter_unread :: "jsval \<Rightarrow> js_error + jsval" where
  "filter_unread notifications =
     (case notifications of
        JArr xs \<Rightarrow>
          and_then
            (filter_throwing (\<lambda>n. and_then (get_prop n ''read'') (\<lambda>r. Inr (\<not> truthy r))) xs)
            (\<lambda>ys. Inr (JArr ys))
      | _ \<Rightarrow>
          and_then (get_prop notifications ''filter'') (\<lambda>f.
            Inl (TypeError ''all.notifications.filter is not a function'')))"

definition getUnreadNotifications_of :: "string \<Rightarrow> jsval \<Rightarrow> js_error + jsval" where
  "getUnreadNotifications_of page_field everything =
     (if \<not> truthy everything then Inr JNull
      else and_then (filter_unread (opt_prop everything ''notifications'')) (\<lambda>unread.
             Inr (JObj [(''notifications'', unread), (page_field, opt_prop everything page_field)])))"

definition getUnreadNotifications :: "'j world \<Rightarrow> http_result \<Rightarrow> js_error + jsval" where
  "getUnreadNotifications w settled =
     and_then (getNotifications w None settled) (getUnreadNotifications_of ''hasMore'')"

definition getUnreadNotifications_part_006 :: "'j world \<Rightarrow> http_result \<Rightarrow> js_error + jsval" where
  "getUnreadNotifications_part_006 w settled =
     and_then (getNotifications_part_006 w None settled) (getUnreadNotifications_of ''hasMore'')"

text \<open>In \<open>part_006b\<close> the second field of the result is \<open>pagination\<close>.\<close>

definition getUnreadNotifications_part_006b ::
  "'j world \<Rightarrow> (jsval \<Rightarrow> js_error + bool) \<Rightarrow> http_result \<Rightarrow> js_error + jsval" where
  "getUnreadNotifications_part_006b w coerced settled =
     and_then (getNotifications_part_006b w coerced None settled)
       (getUnreadNotifications_of ''pagination'')"

text \<open>
  \<open>getNotificationStream\<close> (\<open>notifications.js\<close>) awaits \<open>fetch\<close>, not the HTTP client. Of
  the response it reads \<open>ok\<close>, \<open>body\<close> and \<open>status\<close>. It returns \<open>null\<close> or the object whose
  \<open>close()\<close> stops the stream; the reader loop it starts is not awaited. \<open>onError\<close> is
  the callback after the options are destructured (the caller's, or the default, which
  logs); a callback may throw.
\<close>

record fetch_response =
  fetch_ok :: bool
  fetch_has_body :: bool
  fetch_status :: int

datatype stream_handle = StreamHandle

definition getNotificationStream ::
  "'j world \<Rightarrow> (js_error \<Rightarrow> js_error + unit) \<Rightarrow> js_error + fetch_response \<Rightarrow>
   js_error + stream_handle option" where
  "getNotificationStream w onError fetched =
     (if \<not> requireAuth w then Inr None
      else try_pure
             (and_then fetched (\<lambda>response.
                if \<not> fetch_ok response \<or> \<not> fetch_has_body response then
                  and_then (onError (Error (''Stream failed: '' @ string_of_int (fetch_status response))))
                    (\<lambda>u. Inr None)
                else Inr (Some StreamHandle)))
             (\<lambda>err. and_then (onError err) (\<lambda>u. Inr None)))"


section \<open>Calls to \<open>refreshAccessToken\<close> in flight\<close>

text \<open>
  Scheduling is cooperative: a call runs until its \<open>await\<close>, and resumes when its request
  settles. \<open>Invoke\<close> is a caller entering \<open>refreshAccessToken\<close>; \<open>Settle r\<close> is the
  request of one suspended call settling with \<open>r\<close>. \<open>pending\<close> counts the suspended
  calls, \<open>returned\<close> collects what the finished ones returned.
\<close>

datatype refresh_event = Invoke | Settle http_result

record 'j refresh_state =
  session :: "'j world"
  pending :: nat
  returned :: "jsval list"

definition refresh_step :: "'j cookie_lib \<Rightarrow> 'j refresh_state \<Rightarrow> refresh_event \<Rightarrow> 'j refresh_state" where
  "refresh_step lib st ev =
     (case ev of
        Invoke \<Rightarrow> st\<lparr>session := refresh_begin (session st), pending := pending st + 1\<rparr>
      | Settle r \<Rightarrow>
          if pending st = 0 then st
          else (case refresh_resume lib r (session st) of
                  (res, w') \<Rightarrow>
                    st\<lparr>session := w', pending := pending st - 1,
                       returned := returned st @ [case res of Inl e \<Rightarrow> JUndefined | Inr v \<Rightarrow> v]\<rparr>))"

definition run_refresh :: "'j cookie_lib \<Rightarrow> refresh_event list \<Rightarrow> 'j refresh_state \<Rightarrow> 'j refresh_state" where
  "run_refresh lib evs st = foldl (refresh_step lib) st evs"

definition refresh_requests :: "'j world \<Rightarrow> nat" where
  "refresh_requests w = length (filter (\<lambda>r. url r = baseUrl w @ ''/api/v1/auth/refresh'') (sent w))"

section \<open>Notions used to state the properties\<close>

text \<open>The lines of a text: the pieces between line terminators.\<close>

fun split_lines :: "string \<Rightarrow> string list" where
  "split_lines [] = [[]]"
| "split_lines (c # cs) =
     (if is_line_terminator c then [] # split_lines cs
      else (case split_lines cs of [] \<Rightarrow> [[c]] | l # ls \<Rightarrow> (c # l) # ls))"

definition is_key_line :: "string \<Rightarrow> bool" where
  "is_key_line l = prefix tokenKey l"

text \<open>The writer seen line by line: the first line that starts with the key is replaced.\<close>

fun replace_first_key :: "string \<Rightarrow> string list \<Rightarrow> string list" where
  "replace_first_key new_line [] = []"
| "replace_first_key new_line (l # ls) =
     (if is_key_line l then new_line # ls else l # replace_first_key new_line ls)"

text \<open>A token the writer stores verbatim: no \<open>$\<close> (special in a replacement text) and no line terminator.\<close>

definition plain_token :: "string \<Rightarrow> bool" where
  "plain_token t = (CHR ''$'' \<notin> set t \<and> (\<forall>c \<in> set t. in_line c))"

text \<open>The refresh endpoint answered 200 with a truthy \<open>accessToken\<close> in the body.\<close>

definition refresh_succeeded :: "http_result \<Rightarrow> bool" where
  "refresh_succeeded settled =
     (case settled of
        Inl e \<Rightarrow> False
      | Inr response \<Rightarrow> status response = 200 \<and> truthy (opt_prop (data response) ''accessToken''))"

text \<open>The request settled with a response of status 200.\<close>

definition responded_200 :: "http_result \<Rightarrow> bool" where
  "responded_200 settled = (case settled of Inl e \<Rightarrow> False | Inr response \<Rightarrow> status response = 200)"

text \<open>The request settled with a response whose status is one of \<open>accepted\<close>.\<close>

definition responded_with :: "int list \<Rightarrow> http_result \<Rightarrow> bool" where
  "responded_with accepted settled =
     (case settled of Inl e \<Rightarrow> False | Inr response \<Rightarrow> status response \<in> set accepted)"

text \<open>The path at which \<open>createMirrorPool\<close> looks for the mirror file \<open>mirrorsCookiesPath\<close>.\<close>

definition mirror_file_path :: "string \<Rightarrow> string option \<Rightarrow> string \<Rightarrow> string" where
  "mirror_file_path cwd projectRootOpt mirrorsCookiesPath =
     (if path_isAbsolute mirrorsCookiesPath then mirrorsCookiesPath
      else path_join (case projectRootOpt of None \<Rightarrow> cwd | Some r \<Rightarrow> r) mirrorsCookiesPath)"

text \<open>A 422: a response with status 422, or a rejection that carries one.\<close>

definition answered_422 :: "http_result \<Rightarrow> bool" where
  "answered_422 settled =
     (case settled of
        Inl error \<Rightarrow> response_status error = Some 422
      | Inr response \<Rightarrow> status response = 422)"

text \<open>\<open>fetch\<close> rejected, or answered with a response that is not \<open>ok\<close> or has no body.\<close>

definition fetch_failed :: "js_error + fetch_response \<Rightarrow> bool" where
  "fetch_failed fetched =
     (case fetched of Inl e \<Rightarrow> True | Inr response \<Rightarrow> \<not> fetch_ok response \<or> \<not> fetch_has_body response)"


definition ok_response :: "jsval \<Rightarrow> http_result" where
  "ok_response body = Inr \<lparr>status = 200, data = body, set_cookie = None\<rparr>"









text \<open>The value of \<open>response.data?.accessToken\<close> of a settled request (\<open>undefined\<close> when it threw).\<close>

definition body_token :: "http_result \<Rightarrow> jsval" where
  "body_token settled =
     (case settled of Inl e \<Rightarrow> JUndefined | Inr response \<Rightarrow> opt_prop (data response) ''accessToken'')"

text \<open>The body of the response is an object with an own property \<open>accessToken\<close>, whatever its value.\<close>

definition accessToken_field_present :: "http_result \<Rightarrow> bool" where
  "accessToken_field_present settled =
     (case settled of
        Inl e \<Rightarrow> False
      | Inr response \<Rightarrow>
          (case data response of JObj kvs \<Rightarrow> map_of kvs ''accessToken'' \<noteq> None | _ \<Rightarrow> False))"

text \<open>The number of calls entered in a schedule.\<close>

definition is_invoke :: "refresh_event \<Rightarrow> bool" where
  "is_invoke ev = (case ev of Invoke \<Rightarrow> True | Settle r \<Rightarrow> False)"

definition invocations :: "refresh_event list \<Rightarrow> nat" where
  "invocations evs = length (filter is_invoke evs)"

definition idle :: "'j world \<Rightarrow> 'j refresh_state" where
  "idle w = \<lparr>session = w, pending = 0, returned = []\<rparr>"

section \<open>Concrete inputs\<close>

text \<open>
  A small cookie jar to run the model on: a cookie string \<open>name=value; attributes\<close> is
  stored under its name, and a string without a name or without \<open>=\<close> is rejected.
\<close>

definition parse_cookie :: "string \<Rightarrow> (string \<times> string) option" where
  "parse_cookie s =
     (let name = takeWhile (\<lambda>c. c \<noteq> CHR ''='') s;
          rest = dropWhile (\<lambda>c. c \<noteq> CHR ''='') s
      in if name = [] \<or> rest = [] then None
         else Some (name, takeWhile (\<lambda>c. c \<noteq> CHR '';'') (tl rest)))"

definition simple_jar :: "(string \<times> string) list cookie_lib" where
  "simple_jar =
     \<lparr>setCookieSync = (\<lambda>cookieString u jar.
         case parse_cookie cookieString of
           None \<Rightarrow> Inl (Error ''Cookie failed to parse'')
         | Some (k, v) \<Rightarrow> Inr (AList.update k v jar)),
      getCookiesSync = (\<lambda>u jar. Inr jar)\<rparr>"

definition env_disk :: "string \<Rightarrow> disk" where
  "env_disk content = \<lparr>files = [envPath \<mapsto> content], denied = (\<lambda>p. False)\<rparr>"

text \<open>Token files: one with the key among other lines, one without it, one with the key twice.\<close>

definition env_with_key :: string where
  "env_with_key = ''A=1'' @ newline @ ''ITD_ACCESS_TOKEN=old'' @ newline @ ''B=2''"

definition env_without_key :: string where
  "env_without_key = ''A=1'' @ newline @ ''B=2''"

definition env_duplicate_key :: string where
  "env_duplicate_key = ''ITD_ACCESS_TOKEN=a'' @ newline @ ''ITD_ACCESS_TOKEN=b''"

definition signed_in :: "(string \<times> string) list world" where
  "signed_in =
     \<lparr>baseUrl = ''https://example.test'',
      accessToken = JStr ''old'',
      isAuthenticated = True,
      userData = JObj [(''username'', JStr ''gork'')],
      defaultCookie = Some ''refresh_token=r0'',
      cookieJar = [(''refresh_token'', ''r0'')],
      fs = env_disk ''ITD_ACCESS_TOKEN=old'',
      sent = []\<rparr>"

text \<open>The same session on a disk that has no token file.\<close>

definition signed_in_without_env :: "(string \<times> string) list world" where
  "signed_in_without_env = signed_in\<lparr>fs := \<lparr>files = Map.empty, denied = (\<lambda>p. False)\<rparr>\<rparr>"

definition token_response :: "jsval \<Rightarrow> string list option \<Rightarrow> http_result" where
  "token_response token cookies =
     Inr \<lparr>status = 200, data = JObj [(''accessToken'', token)], set_cookie = cookies\<rparr>"

text \<open>A pool of three accounts, the methods of its clients, and seven calls through the facade.\<close>

definition abc_accounts :: "(string + mirror_config) list" where
  "abc_accounts = [Inl ''A'', Inl ''B'', Inl ''C'']"

definition abc_pool :: "string pool" where
  "abc_pool = \<lparr>clients = [''A'', ''B'', ''C''], index = 0, applied = []\<rparr>"

definition client_methods :: "string \<Rightarrow> bool" where
  "client_methods m = (m \<in> set [''getMyProfile'', ''getTrendingPosts'', ''addComment'', ''getNotifications''])"

definition manager_methods :: "string \<Rightarrow> string \<Rightarrow> bool" where
  "manager_methods obj m = ((obj, m) \<in> set [(''users'', ''getFollowers''), (''searchManager'', ''search'')])"

definition seven_calls :: "string call_expr list" where
  "seven_calls =
     [PoolCall ''getMyProfile'', PoolMemberCall ''users'' ''getFollowers'', PoolCall ''addComment'',
      PoolCall ''getNotifications'', PoolCall ''getNotifications'',
      PoolMemberCall ''searchManager'' ''search'', PoolCall ''getTrendingPosts'']"

definition five_pinned_calls :: "string call_expr list" where
  "five_pinned_calls =
     [ClientCall ''A'' ''getNotifications'', ClientCall ''A'' ''addComment'',
      ClientMemberCall ''A'' ''users'' ''getFollowers'', ClientCall ''A'' ''getMyProfile'',
      ClientCall ''A'' ''addComment'']"




text \<open>
  Outcomes of a request: an answer 500, a timeout, an answer 422, and a rejection that
  carries an answer 422.
\<close>

definition server_error :: http_result where
  "server_error = Inr \<lparr>status = 500, data = JStr ''oops'', set_cookie = None\<rparr>"

definition timed_out :: http_result where
  "timed_out = Inl (HttpError ''timeout'' None)"

definition unprocessable :: http_result where
  "unprocessable = Inr \<lparr>status = 422, data = JNull, set_cookie = None\<rparr>"

definition rejected_422 :: http_result where
  "rejected_422 = Inl (HttpError ''Request failed with status code 422'' (Some (422, JNull)))"

text \<open>The body \<open>{"comments": [{"id": "c1"}]}\<close>.\<close>

definition one_comment :: jsval where
  "one_comment = JObj [(''comments'', JArr [JObj [(''id'', JStr ''c1'')]])]"

text \<open>The mirror file \<open>{"gork": "refresh_token=abc"}\<close> and a parser that knows it.\<close>

definition gork_text :: string where
  "gork_text = ''{'' @ [CHR 0x22] @ ''gork'' @ [CHR 0x22] @ '': '' @ [CHR 0x22] @ ''refresh_token=abc'' @ [CHR 0x22] @ ''}''"

definition gork_parse :: "string \<Rightarrow> jsval option" where
  "gork_parse t = (if t = gork_text then Some (JObj [(''gork'', JStr ''refresh_token=abc'')]) else None)"

definition gork_disk :: disk where
  "gork_disk = \<lparr>files = [''/app/.cookies.mirrors'' \<mapsto> gork_text], denied = (\<lambda>p. False)\<rparr>"

text \<open>A mirror file cut off in the middle of its first key (an opening brace, a quote, \<open>gork\<close>): not JSON.\<close>

definition broken_text :: string where
  "broken_text = ''{'' @ [CHR 0x22] @ ''gork''"

definition broken_disk :: disk where
  "broken_disk = \<lparr>files = [''/app/.cookies.mirrors'' \<mapsto> broken_text], denied = (\<lambda>p. False)\<rparr>"

section \<open>Properties of the token-file writer\<close>

lemma getSubstitution_plain:
  "CHR ''$'' \<notin> set r \<Longrightarrow> getSubstitution m p s r = r"
  by (induction m p s r rule: getSubstitution.induct) auto

lemma tokenKey_in_line: "\<forall>c \<in> set tokenKey. in_line c"
  by (simp add: tokenKey_def is_line_terminator_def)

lemma tokenKey_no_dollar: "CHR ''$'' \<notin> set tokenKey"
  by (simp add: tokenKey_def)

lemma split_lines_not_Nil [simp]: "split_lines s \<noteq> []"
  by (induction s) (simp_all split: list.splits)

lemma split_lines_Cons [simp]:
  "split_lines (c # cs) =
     (if is_line_terminator c then [] # split_lines cs
      else (c # hd (split_lines cs)) # tl (split_lines cs))"
  by (cases "split_lines cs") simp_all

declare split_lines.simps(2) [simp del]

lemma hd_split_lines: "hd (split_lines s) = takeWhile in_line s"
  by (induction s) simp_all

lemma tl_split_lines: "tl (split_lines s) = tl (split_lines (dropWhile in_line s))"
  by (induction s) simp_all

lemma split_lines_in_line_prefix:
  "\<forall>c \<in> set l. in_line c \<Longrightarrow> split_lines (l @ s) = (l @ hd (split_lines s)) # tl (split_lines s)"
  by (induction l) simp_all

lemma hd_split_lines_dropWhile: "hd (split_lines (dropWhile in_line s)) = []"
  by (induction s) simp_all

lemma split_lines_append_newline:
  "split_lines (a @ newline @ b) = split_lines a @ split_lines b"
proof (induction a)
  case Nil
  show ?case by (simp add: newline_def is_line_terminator_def)
next
  case (Cons c a)
  then show ?case by (cases "split_lines a") simp_all
qed

lemma prefix_in_line_takeWhile:
  "\<forall>c \<in> set k. in_line c \<Longrightarrow> prefix k (takeWhile in_line s) = prefix k s"
proof (induction k arbitrary: s)
  case Nil
  show ?case by simp
next
  case (Cons x k)
  then show ?case by (cases s) auto
qed

lemma is_key_line_first: "is_key_line (hd (split_lines s)) = prefix tokenKey s"
  unfolding is_key_line_def hd_split_lines
  using tokenKey_in_line by (rule prefix_in_line_takeWhile)


lemma not_key_line_Nil: "\<not> is_key_line []"
  by (simp add: is_key_line_def tokenKey_def)

lemma is_key_line_Cons:
  assumes "in_line c"
  shows "is_key_line (c # hd (split_lines cs)) = prefix tokenKey (c # cs)"
proof -
  have "is_key_line (hd (split_lines (c # cs))) = prefix tokenKey (c # cs)"
    by (rule is_key_line_first)
  with assms show ?thesis by simp
qed

lemma replace_first_key_hd:
  "ls \<noteq> [] \<Longrightarrow> is_key_line (hd ls) \<Longrightarrow> replace_first_key v ls = v # tl ls"
  by (cases ls) simp_all

lemma key_line_hd:
  "ls \<noteq> [] \<Longrightarrow> is_key_line (hd ls) \<Longrightarrow> \<exists>l \<in> set ls. is_key_line l"
  by (cases ls) simp_all

text \<open>The lines the regular expression can match in: all of them at the start of a line, all but the first otherwise.\<close>

lemma tokenRegex_exec_None:
  "tokenRegex_exec bol s = None \<Longrightarrow>
     \<forall>l \<in> set (if bol then split_lines s else tl (split_lines s)). \<not> is_key_line l"
proof (induction s arbitrary: bol)
  case Nil
  show ?case by (simp add: not_key_line_Nil)
next
  case (Cons c cs)
  from Cons.prems have here: "\<not> (bol \<and> prefix tokenKey (c # cs))"
    and rest: "tokenRegex_exec (is_line_terminator c) cs = None"
    by (auto split: if_splits)
  from Cons.IH [OF rest]
  have ih: "\<forall>l \<in> set (if is_line_terminator c then split_lines cs else tl (split_lines cs)). \<not> is_key_line l" .
  show ?case
  proof (cases "is_line_terminator c")
    case True
    with ih show ?thesis by (simp add: not_key_line_Nil)
  next
    case False
    with ih here show ?thesis by (simp add: is_key_line_Cons)
  qed
qed

lemma tokenRegex_exec_Some:
  assumes "tokenRegex_exec bol s = Some (p, m, t)" and "\<forall>c \<in> set v. in_line c"
  shows "split_lines (p @ v @ t) =
           (if bol then replace_first_key v (split_lines s)
            else hd (split_lines s) # replace_first_key v (tl (split_lines s)))"
    and "\<exists>l \<in> set (if bol then split_lines s else tl (split_lines s)). is_key_line l"
    and "s = p @ m @ t"
  using assms(1)
proof (induction s arbitrary: bol p)
  case Nil
  { case 1 then show ?case by simp }
  { case 2 then show ?case by simp }
  { case 3 then show ?case by simp }
next
  case (Cons c cs)
  {
    case 1
    show ?case
    proof (cases "bol \<and> prefix tokenKey (c # cs)")
      case True
      with 1 have p: "p = []" and t: "t = dropWhile in_line (c # cs)"
        by simp_all
      have k: "is_key_line (hd (split_lines (c # cs)))"
        using True by (simp only: is_key_line_first)
      have "split_lines (v @ t) = (v @ hd (split_lines t)) # tl (split_lines t)"
        using assms(2) by (rule split_lines_in_line_prefix)
      also have "hd (split_lines t) = []"
        unfolding t by (rule hd_split_lines_dropWhile)
      also have "tl (split_lines t) = tl (split_lines (c # cs))"
        unfolding t by (rule tl_split_lines [symmetric])
      finally have "split_lines (v @ t) = v # tl (split_lines (c # cs))" by simp
      moreover have "replace_first_key v (split_lines (c # cs)) = v # tl (split_lines (c # cs))"
        using split_lines_not_Nil k by (rule replace_first_key_hd)
      ultimately show ?thesis using True p by simp
    next
      case False
      with 1 obtain p' where p: "p = c # p'"
        and rest: "tokenRegex_exec (is_line_terminator c) cs = Some (p', m, t)"
        by (auto split: if_splits)
      from Cons.IH(1) [OF rest]
      have ih: "split_lines (p' @ v @ t) =
           (if is_line_terminator c then replace_first_key v (split_lines cs)
            else hd (split_lines cs) # replace_first_key v (tl (split_lines cs)))" .
      show ?thesis
      proof (cases "is_line_terminator c")
        case True
        with ih p show ?thesis by (simp add: not_key_line_Nil)
      next
        case lt: False
        with ih p False show ?thesis by (simp add: is_key_line_Cons)
      qed
    qed
  next
    case 2
    show ?case
    proof (cases "bol \<and> prefix tokenKey (c # cs)")
      case True
      then have "is_key_line (hd (split_lines (c # cs)))"
        by (simp only: is_key_line_first)
      with split_lines_not_Nil have "\<exists>l \<in> set (split_lines (c # cs)). is_key_line l"
        by (rule key_line_hd)
      with True show ?thesis by simp
    next
      case False
      with 2 obtain p' where
        rest: "tokenRegex_exec (is_line_terminator c) cs = Some (p', m, t)"
        by (auto split: if_splits)
      from Cons.IH(2) [OF rest]
      have ih: "\<exists>l \<in> set (if is_line_terminator c then split_lines cs else tl (split_lines cs)). is_key_line l" .
      then show ?thesis
        by (cases "is_line_terminator c") (auto split: if_splits)
    qed
  next
    case 3
    show ?case
    proof (cases "bol \<and> prefix tokenKey (c # cs)")
      case True
      with 3 show ?thesis by auto
    next
      case False
      with 3 obtain p' where p: "p = c # p'"
        and rest: "tokenRegex_exec (is_line_terminator c) cs = Some (p', m, t)"
        by (auto split: if_splits)
      from Cons.IH(3) [OF rest] p show ?thesis by simp
    qed
  }
qed


lemma tokenRegex_test_lines:
  "tokenRegex_test content = (\<exists>l \<in> set (split_lines content). is_key_line l)"
proof (cases "tokenRegex_exec True content")
  case None
  from tokenRegex_exec_None [OF None] None show ?thesis
    by (simp add: tokenRegex_test_def)
next
  case (Some r)
  obtain p m t where r: "r = (p, m, t)" by (cases r)
  from Some r have ex: "tokenRegex_exec True content = Some (p, m, t)" by simp
  have e: "\<forall>c \<in> set ([]::string). in_line c" by simp
  from tokenRegex_exec_Some(2) [OF ex e] Some show ?thesis
    by (simp add: tokenRegex_test_def)
qed

lemma plain_line:
  assumes "plain_token T"
  shows "\<forall>c \<in> set (tokenKey @ T). in_line c" and "CHR ''$'' \<notin> set (tokenKey @ T)"
    and "is_key_line (tokenKey @ T)"
  using assms tokenKey_in_line tokenKey_no_dollar
  by (auto simp: plain_token_def is_key_line_def)

lemma tokenRegex_replace_lines:
  assumes "tokenRegex_test content" and "plain_token T"
  shows "split_lines (tokenRegex_replace content (tokenKey @ T)) =
           replace_first_key (tokenKey @ T) (split_lines content)"
proof -
  from assms(1) obtain p m t where ex: "tokenRegex_exec True content = Some (p, m, t)"
    by (auto simp: tokenRegex_test_def)
  have "split_lines (p @ (tokenKey @ T) @ t) =
          (if True then replace_first_key (tokenKey @ T) (split_lines content)
           else hd (split_lines content) # replace_first_key (tokenKey @ T) (tl (split_lines content)))"
    using ex plain_line(1) [OF assms(2)] by (rule tokenRegex_exec_Some(1))
  moreover have "tokenRegex_replace content (tokenKey @ T) = p @ (tokenKey @ T) @ t"
    using ex plain_line(2) [OF assms(2)]
    by (simp add: tokenRegex_replace_def getSubstitution_plain)
  ultimately show ?thesis by simp
qed

lemma prefix_tokenKey_before_newline:
  "prefix tokenKey (a @ newline @ b) = prefix tokenKey a"
proof -
  have "prefix tokenKey (takeWhile in_line (a @ newline @ b)) = prefix tokenKey (a @ newline @ b)"
    using tokenKey_in_line by (rule prefix_in_line_takeWhile)
  moreover have "prefix tokenKey (takeWhile in_line a) = prefix tokenKey a"
    using tokenKey_in_line by (rule prefix_in_line_takeWhile)
  moreover have "takeWhile in_line (a @ newline @ b) = takeWhile in_line a"
    by (induction a) (simp_all add: newline_def is_line_terminator_def)
  ultimately show ?thesis by simp
qed

lemma tokenRegex_exec_skip:
  "tokenRegex_exec bol a = None \<Longrightarrow>
     tokenRegex_exec bol (a @ newline @ b) =
       map_option (\<lambda>(p, m, t). (a @ newline @ p, m, t)) (tokenRegex_exec True b)"
proof (induction a arbitrary: bol)
  case Nil
  have "\<not> prefix tokenKey (newline @ b)"
    using prefix_tokenKey_before_newline [of "[]" b] by (simp add: tokenKey_def)
  then show ?case
    by (simp add: newline_def is_line_terminator_def)
next
  case (Cons c a)
  from Cons.prems have here: "\<not> (bol \<and> prefix tokenKey (c # a))"
    and rest: "tokenRegex_exec (is_line_terminator c) a = None"
    by (auto split: if_splits)
  have "prefix tokenKey ((c # a) @ newline @ b) = prefix tokenKey (c # a)"
    by (rule prefix_tokenKey_before_newline)
  with here have here': "(bol \<and> prefix tokenKey (c # a @ newline @ b)) = False" by simp
  have "tokenRegex_exec bol ((c # a) @ newline @ b) =
          map_option (\<lambda>(p, m, s). (c # p, m, s)) (tokenRegex_exec (is_line_terminator c) (a @ newline @ b))"
    by (simp only: append_Cons tokenRegex_exec.simps here' if_False)
  also have "\<dots> = map_option (\<lambda>(p, m, s). (c # p, m, s))
                      (map_option (\<lambda>(p, m, t). (a @ newline @ p, m, t)) (tokenRegex_exec True b))"
    by (simp only: Cons.IH [OF rest])
  also have "\<dots> = map_option (\<lambda>(p, m, t). ((c # a) @ newline @ p, m, t)) (tokenRegex_exec True b)"
    by (cases "tokenRegex_exec True b") auto
  finally show ?case .
qed

lemma tokenRegex_exec_key_line:
  assumes "\<forall>c \<in> set T. in_line c"
  shows "tokenRegex_exec True (tokenKey @ T @ newline) = Some ([], tokenKey @ T, newline)"
proof -
  have k: "tokenKey @ T @ newline = CHR ''I'' # ''TD_ACCESS_TOKEN='' @ T @ newline"
    by (simp add: tokenKey_def)
  have tw: "takeWhile in_line (tokenKey @ T @ newline) = tokenKey @ T"
    using assms tokenKey_in_line
    by (simp add: takeWhile_append2 newline_def is_line_terminator_def takeWhile_append1)
  have dw: "dropWhile in_line (tokenKey @ T @ newline) = newline"
    using assms tokenKey_in_line
    by (simp add: dropWhile_append2 newline_def is_line_terminator_def)
  have "tokenRegex_exec True (CHR ''I'' # ''TD_ACCESS_TOKEN='' @ T @ newline) =
          Some ([], takeWhile in_line (CHR ''I'' # ''TD_ACCESS_TOKEN='' @ T @ newline),
                dropWhile in_line (CHR ''I'' # ''TD_ACCESS_TOKEN='' @ T @ newline))"
    by (simp add: tokenKey_def)
  then show ?thesis using tw dw by (simp only: k [symmetric])
qed

lemma append_then_replace:
  assumes "\<not> tokenRegex_test content" and "plain_token T1" and "plain_token T2"
  shows "tokenRegex_test (content @ newline @ tokenKey @ T1 @ newline)"
    and "tokenRegex_replace (content @ newline @ tokenKey @ T1 @ newline) (tokenKey @ T2) =
           content @ newline @ tokenKey @ T2 @ newline"
proof -
  from assms(1) have none: "tokenRegex_exec True content = None"
    unfolding tokenRegex_test_def by blast
  have t1: "\<forall>c \<in> set T1. in_line c" using assms(2) by (simp add: plain_token_def)
  have ex: "tokenRegex_exec True (content @ newline @ tokenKey @ T1 @ newline) =
              Some (content @ newline, tokenKey @ T1, newline)"
    using tokenRegex_exec_skip [OF none, of "tokenKey @ T1 @ newline"]
      tokenRegex_exec_key_line [OF t1]
    by simp
  show "tokenRegex_test (content @ newline @ tokenKey @ T1 @ newline)"
    using ex by (simp add: tokenRegex_test_def)
  show "tokenRegex_replace (content @ newline @ tokenKey @ T1 @ newline) (tokenKey @ T2) =
           content @ newline @ tokenKey @ T2 @ newline"
    using ex plain_line(2) [OF assms(3)]
    by (simp add: tokenRegex_replace_def getSubstitution_plain)
qed


lemma replace_first_key_map:
  "length (filter is_key_line ls) \<le> 1 \<Longrightarrow>
     replace_first_key new_line ls = map (\<lambda>l. if is_key_line l then new_line else l) ls"
proof (induction ls)
  case Nil
  show ?case by simp
next
  case (Cons l ls)
  show ?case
  proof (cases "is_key_line l")
    case True
    with Cons.prems have "filter is_key_line ls = []" by simp
    then have "\<forall>x \<in> set ls. \<not> is_key_line x" by (simp add: filter_empty_conv)
    then have "map (\<lambda>l. if is_key_line l then new_line else l) ls = ls"
      by (intro map_idI) simp
    with True show ?thesis by simp
  next
    case False
    with Cons show ?thesis by simp
  qed
qed

lemma replace_first_key_twice:
  "is_key_line l1 \<Longrightarrow> replace_first_key l2 (replace_first_key l1 ls) = replace_first_key l2 ls"
  by (induction ls) simp_all

lemma replace_first_key_keeps_key:
  "is_key_line l1 \<Longrightarrow> \<exists>l \<in> set ls. is_key_line l \<Longrightarrow> \<exists>l \<in> set (replace_first_key l1 ls). is_key_line l"
  by (induction ls) auto

lemma single_key_line_after_map:
  "length (filter is_key_line ls) \<le> 1 \<Longrightarrow> \<exists>l \<in> set ls. is_key_line l \<Longrightarrow> is_key_line new_line \<Longrightarrow>
     filter is_key_line (map (\<lambda>l. if is_key_line l then new_line else l) ls) = [new_line]"
proof (induction ls)
  case Nil
  then show ?case by simp
next
  case (Cons l ls)
  show ?case
  proof (cases "is_key_line l")
    case True
    with Cons.prems have "filter is_key_line ls = []" by simp
    then have none: "\<forall>x \<in> set ls. \<not> is_key_line x" by (simp add: filter_empty_conv)
    then have "map (\<lambda>l. if is_key_line l then new_line else l) ls = ls"
      by (intro map_idI) simp
    with True none Cons.prems(3) show ?thesis by (simp add: filter_empty_conv)
  next
    case False
    with Cons show ?thesis by simp
  qed
qed

lemma saveAccessToken_existing:
  assumes "files d envPath = Some content" and "\<not> denied d envPath"
  shows "saveAccessToken (JStr T) d =
           (True, d\<lparr>files := (files d)(envPath \<mapsto>
              (if tokenRegex_test content then tokenRegex_replace content (tokenKey @ T)
               else content @ newline @ tokenKey @ T @ newline))\<rparr>)"
  using assms
  by (simp add: saveAccessToken_def existsSync_def readFileSync_def writeFileSync_def Let_def)

lemma written_twice:
  assumes "files d envPath = Some content" and "\<not> denied d envPath"
  shows "saveAccessToken (JStr T2) (snd (saveAccessToken (JStr T1) d)) =
           (True, d\<lparr>files := (files d)(envPath \<mapsto>
              (let c1 = (if tokenRegex_test content then tokenRegex_replace content (tokenKey @ T1)
                         else content @ newline @ tokenKey @ T1 @ newline)
               in if tokenRegex_test c1 then tokenRegex_replace c1 (tokenKey @ T2)
                  else c1 @ newline @ tokenKey @ T2 @ newline))\<rparr>)"
proof -
  let ?c1 = "if tokenRegex_test content then tokenRegex_replace content (tokenKey @ T1)
             else content @ newline @ tokenKey @ T1 @ newline"
  let ?d1 = "d\<lparr>files := (files d)(envPath \<mapsto> ?c1)\<rparr>"
  have one: "saveAccessToken (JStr T1) d = (True, ?d1)"
    using assms by (rule saveAccessToken_existing)
  have "files ?d1 envPath = Some ?c1" "\<not> denied ?d1 envPath"
    using assms(2) by simp_all
  then have "saveAccessToken (JStr T2) ?d1 =
           (True, ?d1\<lparr>files := (files ?d1)(envPath \<mapsto>
              (if tokenRegex_test ?c1 then tokenRegex_replace ?c1 (tokenKey @ T2)
               else ?c1 @ newline @ tokenKey @ T2 @ newline))\<rparr>)"
    by (rule saveAccessToken_existing)
  with one show ?thesis by (simp add: Let_def)
qed

text \<open>
  Claim C6, as the code has it. For an existing, writable token file in which at most
  one line starts with the key, and tokens that contain neither \<open>$\<close> nor a line
  terminator: writing \<open>T1\<close> and then \<open>T2\<close> succeeds both times, touches no other file, and
  leaves exactly one key line, \<open>KEY=T2\<close>. If the key was there, its line is replaced in
  place and every other line is as before; if it was not, the file is the old content
  followed by a newline, \<open>KEY=T2\<close> and a newline.
\<close>

theorem token_writer_replaces_or_appends:
  assumes "files d envPath = Some content" and "\<not> denied d envPath"
    and "plain_token T1" and "plain_token T2"
    and "length (filter is_key_line (split_lines content)) \<le> 1"
  shows "\<exists>c2. saveAccessToken (JStr T2) (snd (saveAccessToken (JStr T1) d)) =
                (True, d\<lparr>files := (files d)(envPath \<mapsto> c2)\<rparr>) \<and>
              fst (saveAccessToken (JStr T1) d) \<and>
              filter is_key_line (split_lines c2) = [tokenKey @ T2] \<and>
              (if \<exists>l \<in> set (split_lines content). is_key_line l
               then split_lines c2 =
                      map (\<lambda>l. if is_key_line l then tokenKey @ T2 else l) (split_lines content)
               else c2 = content @ newline @ tokenKey @ T2 @ newline \<and>
                    split_lines c2 = split_lines content @ [tokenKey @ T2, []])"
proof (cases "tokenRegex_test content")
  case True
  let ?c1 = "tokenRegex_replace content (tokenKey @ T1)"
  let ?c2 = "tokenRegex_replace ?c1 (tokenKey @ T2)"
  from True have present: "\<exists>l \<in> set (split_lines content). is_key_line l"
    by (simp add: tokenRegex_test_lines)
  have l1: "split_lines ?c1 = replace_first_key (tokenKey @ T1) (split_lines content)"
    using True assms(3) by (rule tokenRegex_replace_lines)
  have "\<exists>l \<in> set (split_lines ?c1). is_key_line l"
    unfolding l1 using plain_line(3) [OF assms(3)] present by (rule replace_first_key_keeps_key)
  then have t1: "tokenRegex_test ?c1" by (simp add: tokenRegex_test_lines)
  have "split_lines ?c2 = replace_first_key (tokenKey @ T2) (split_lines ?c1)"
    using t1 assms(4) by (rule tokenRegex_replace_lines)
  also have "\<dots> = replace_first_key (tokenKey @ T2) (split_lines content)"
    unfolding l1 using plain_line(3) [OF assms(3)] by (rule replace_first_key_twice)
  also have "\<dots> = map (\<lambda>l. if is_key_line l then tokenKey @ T2 else l) (split_lines content)"
    using assms(5) by (rule replace_first_key_map)
  finally have l2: "split_lines ?c2 =
      map (\<lambda>l. if is_key_line l then tokenKey @ T2 else l) (split_lines content)" .
  have k2: "filter is_key_line (split_lines ?c2) = [tokenKey @ T2]"
    unfolding l2 using assms(5) present plain_line(3) [OF assms(4)]
    by (rule single_key_line_after_map)
  have w: "saveAccessToken (JStr T2) (snd (saveAccessToken (JStr T1) d)) =
             (True, d\<lparr>files := (files d)(envPath \<mapsto> ?c2)\<rparr>)"
    using written_twice [OF assms(1,2), of T2 T1] True t1 by (simp add: Let_def)
  have f: "fst (saveAccessToken (JStr T1) d)"
    using saveAccessToken_existing [OF assms(1,2), of T1] by simp
  from w f k2 l2 present show ?thesis by auto
next
  case False
  let ?c1 = "content @ newline @ tokenKey @ T1 @ newline"
  let ?c2 = "content @ newline @ tokenKey @ T2 @ newline"
  from False have absent: "\<not> (\<exists>l \<in> set (split_lines content). is_key_line l)"
    by (simp add: tokenRegex_test_lines)
  have t1: "tokenRegex_test ?c1"
    and r: "tokenRegex_replace ?c1 (tokenKey @ T2) = ?c2"
    using False assms(3,4) by (rule append_then_replace)+
  have "split_lines (tokenKey @ T2 @ newline) = [tokenKey @ T2, []]"
    using split_lines_in_line_prefix [OF plain_line(1) [OF assms(4)], of newline]
    by (simp add: newline_def is_line_terminator_def)
  then have l2: "split_lines ?c2 = split_lines content @ [tokenKey @ T2, []]"
    using split_lines_append_newline [of content "tokenKey @ T2 @ newline"] by simp
  have k2: "filter is_key_line (split_lines ?c2) = [tokenKey @ T2]"
    unfolding l2 using absent plain_line(3) [OF assms(4)]
    by (simp add: filter_empty_conv not_key_line_Nil)
  have w: "saveAccessToken (JStr T2) (snd (saveAccessToken (JStr T1) d)) =
             (True, d\<lparr>files := (files d)(envPath \<mapsto> ?c2)\<rparr>)"
    using written_twice [OF assms(1,2), of T2 T1] False t1 r by (simp add: Let_def)
  have f: "fst (saveAccessToken (JStr T1) d)"
    using saveAccessToken_existing [OF assms(1,2), of T1] by simp
  from w f k2 l2 absent show ?thesis by auto
qed



theorem token_writer_replaces_or_appends_witness:
  "(\<exists>c2. saveAccessToken (JStr ''t2'') (snd (saveAccessToken (JStr ''t1'') (env_disk env_with_key))) =
           (True, (env_disk env_with_key)\<lparr>files := (files (env_disk env_with_key))(envPath \<mapsto> c2)\<rparr>) \<and>
         fst (saveAccessToken (JStr ''t1'') (env_disk env_with_key)) \<and>
         filter is_key_line (split_lines c2) = [tokenKey @ ''t2''] \<and>
         split_lines c2 = [''A=1'', ''ITD_ACCESS_TOKEN=t2'', ''B=2'']) \<and>
   (\<exists>c2. saveAccessToken (JStr ''t2'') (snd (saveAccessToken (JStr ''t1'') (env_disk env_without_key))) =
           (True, (env_disk env_without_key)\<lparr>files := (files (env_disk env_without_key))(envPath \<mapsto> c2)\<rparr>) \<and>
         fst (saveAccessToken (JStr ''t1'') (env_disk env_without_key)) \<and>
         filter is_key_line (split_lines c2) = [tokenKey @ ''t2''] \<and>
         c2 = env_without_key @ newline @ tokenKey @ ''t2'' @ newline)"
proof -
  have t: "plain_token ''t1''" "plain_token ''t2''"
    by (simp_all add: plain_token_def is_line_terminator_def)
  have a: "files (env_disk env_with_key) envPath = Some env_with_key"
          "\<not> denied (env_disk env_with_key) envPath"
    by (simp_all add: env_disk_def)
  have b: "files (env_disk env_without_key) envPath = Some env_without_key"
          "\<not> denied (env_disk env_without_key) envPath"
    by (simp_all add: env_disk_def)
  have la: "split_lines env_with_key = [''A=1'', ''ITD_ACCESS_TOKEN=old'', ''B=2'']"
    by (simp add: env_with_key_def newline_def is_line_terminator_def split_lines.simps(2)
        del: split_lines_Cons)
  have lb: "split_lines env_without_key = [''A=1'', ''B=2'']"
    by (simp add: env_without_key_def newline_def is_line_terminator_def split_lines.simps(2)
        del: split_lines_Cons)
  have ka: "length (filter is_key_line (split_lines env_with_key)) \<le> 1"
    by (simp add: la is_key_line_def tokenKey_def)
  have kb: "length (filter is_key_line (split_lines env_without_key)) \<le> 1"
    by (simp add: lb is_key_line_def tokenKey_def)
  have pa: "\<exists>l \<in> set (split_lines env_with_key). is_key_line l"
    by (simp add: la is_key_line_def tokenKey_def)
  have pb: "\<not> (\<exists>l \<in> set (split_lines env_without_key). is_key_line l)"
    by (simp add: lb is_key_line_def tokenKey_def)
  have ma: "map (\<lambda>l. if is_key_line l then tokenKey @ ''t2'' else l) (split_lines env_with_key) =
              [''A=1'', ''ITD_ACCESS_TOKEN=t2'', ''B=2'']"
    by (simp add: la is_key_line_def tokenKey_def)
  from token_writer_replaces_or_appends [OF a t ka]
  obtain c2 where
    w: "saveAccessToken (JStr ''t2'') (snd (saveAccessToken (JStr ''t1'') (env_disk env_with_key))) =
           (True, (env_disk env_with_key)\<lparr>files := (files (env_disk env_with_key))(envPath \<mapsto> c2)\<rparr>)"
    and f: "fst (saveAccessToken (JStr ''t1'') (env_disk env_with_key))"
    and k: "filter is_key_line (split_lines c2) = [tokenKey @ ''t2'']"
    and i: "if \<exists>l \<in> set (split_lines env_with_key). is_key_line l
            then split_lines c2 =
                   map (\<lambda>l. if is_key_line l then tokenKey @ ''t2'' else l) (split_lines env_with_key)
            else c2 = env_with_key @ newline @ tokenKey @ ''t2'' @ newline \<and>
                 split_lines c2 = split_lines env_with_key @ [tokenKey @ ''t2'', []]"
    by blast
  from pa have paT: "(\<exists>l \<in> set (split_lines env_with_key). is_key_line l) = True"
    by (simp only: simp_thms)
  have "split_lines c2 =
      map (\<lambda>l. if is_key_line l then tokenKey @ ''t2'' else l) (split_lines env_with_key)"
    using i [unfolded paT if_True] .
  then have "split_lines c2 = [''A=1'', ''ITD_ACCESS_TOKEN=t2'', ''B=2'']"
    by (simp only: ma)
  with w f k
  have first: "\<exists>c2. saveAccessToken (JStr ''t2'') (snd (saveAccessToken (JStr ''t1'') (env_disk env_with_key))) =
           (True, (env_disk env_with_key)\<lparr>files := (files (env_disk env_with_key))(envPath \<mapsto> c2)\<rparr>) \<and>
         fst (saveAccessToken (JStr ''t1'') (env_disk env_with_key)) \<and>
         filter is_key_line (split_lines c2) = [tokenKey @ ''t2''] \<and>
         split_lines c2 = [''A=1'', ''ITD_ACCESS_TOKEN=t2'', ''B=2'']"
    by (intro exI [of _ c2] conjI)
  from token_writer_replaces_or_appends [OF b t kb]
  obtain c3 where
    w3: "saveAccessToken (JStr ''t2'') (snd (saveAccessToken (JStr ''t1'') (env_disk env_without_key))) =
           (True, (env_disk env_without_key)\<lparr>files := (files (env_disk env_without_key))(envPath \<mapsto> c3)\<rparr>)"
    and f3: "fst (saveAccessToken (JStr ''t1'') (env_disk env_without_key))"
    and k3: "filter is_key_line (split_lines c3) = [tokenKey @ ''t2'']"
    and i3: "if \<exists>l \<in> set (split_lines env_without_key). is_key_line l
            then split_lines c3 =
                   map (\<lambda>l. if is_key_line l then tokenKey @ ''t2'' else l) (split_lines env_without_key)
            else c3 = env_without_key @ newline @ tokenKey @ ''t2'' @ newline \<and>
                 split_lines c3 = split_lines env_without_key @ [tokenKey @ ''t2'', []]"
    by blast
  from pb have pbF: "(\<exists>l \<in> set (split_lines env_without_key). is_key_line l) = False"
    by (simp only: simp_thms)
  have "c3 = env_without_key @ newline @ tokenKey @ ''t2'' @ newline"
    using i3 [unfolded pbF if_False] by (rule conjunct1)
  with w3 f3 k3
  have second: "\<exists>c2. saveAccessToken (JStr ''t2'') (snd (saveAccessToken (JStr ''t1'') (env_disk env_without_key))) =
           (True, (env_disk env_without_key)\<lparr>files := (files (env_disk env_without_key))(envPath \<mapsto> c2)\<rparr>) \<and>
         fst (saveAccessToken (JStr ''t1'') (env_disk env_without_key)) \<and>
         filter is_key_line (split_lines c2) = [tokenKey @ ''t2''] \<and>
         c2 = env_without_key @ newline @ tokenKey @ ''t2'' @ newline"
    by (intro exI [of _ c3] conjI)
  from first second show ?thesis by (rule conjI)
qed


text \<open>
  With the key on two lines, only the first is rewritten and two key lines remain; and
  a token containing \<open>$&\<close> is not stored as it is, because the replacement text is
  expanded by \<open>String.prototype.replace\<close>.
\<close>

theorem token_writer_counterexample:
  "files (snd (saveAccessToken (JStr ''T2'') (snd (saveAccessToken (JStr ''T1'') (env_disk env_duplicate_key)))))
     envPath = Some (''ITD_ACCESS_TOKEN=T2'' @ newline @ ''ITD_ACCESS_TOKEN=b'') \<and>
   files (snd (saveAccessToken (JStr ''x$&y'') (snd (saveAccessToken (JStr ''T1'') (env_disk env_with_key)))))
     envPath = Some (''A=1'' @ newline @ ''ITD_ACCESS_TOKEN=xITD_ACCESS_TOKEN=T1y'' @ newline @ ''B=2'')"
  by (simp add: saveAccessToken_def existsSync_def readFileSync_def writeFileSync_def
      tokenRegex_test_def tokenRegex_replace_def tokenKey_def newline_def is_line_terminator_def
      env_disk_def env_duplicate_key_def env_with_key_def Let_def)

section \<open>Properties of \<open>AuthManager\<close>\<close>

lemma try_catch_Inr: "try_catch (Inr v, s) h = (Inr v, s)"
  by (simp add: try_catch_def)

lemma try_catch_Inl: "try_catch (Inl e, s) h = h e s"
  by (simp add: try_catch_def)

text \<open>
  Claim C10. \<open>logout\<close> clears the session (access token \<open>null\<close>, not authenticated, user
  data \<open>null\<close>, default \<open>Cookie\<close> header empty) and returns \<open>true\<close> only when the
  sign-out request answers 200; on any other status, or when the request throws, it
  returns \<open>false\<close> and leaves the access token, the authenticated flag and the user data
  as they were.
\<close>

theorem logout_clears_session_only_on_200:
  "(responded_200 settled \<longrightarrow>
      fst (logout settled w) = Inr (JBool True) \<and>
      accessToken (snd (logout settled w)) = JNull \<and>
      \<not> isAuthenticated (snd (logout settled w)) \<and>
      userData (snd (logout settled w)) = JNull \<and>
      defaultCookie (snd (logout settled w)) = Some []) \<and>
   (\<not> responded_200 settled \<longrightarrow>
      fst (logout settled w) = Inr (JBool False) \<and>
      accessToken (snd (logout settled w)) = accessToken w \<and>
      isAuthenticated (snd (logout settled w)) = isAuthenticated w \<and>
      userData (snd (logout settled w)) = userData w)"
proof (cases settled)
  case (Inl e)
  then show ?thesis
    by (simp add: responded_200_def logout_def logout_body_def try_catch_Inl)
next
  case (Inr response)
  then show ?thesis
    by (simp add: responded_200_def logout_def logout_body_def try_catch_Inr
        setAccessToken_def Let_def)
qed

theorem logout_clears_session_only_on_200_witness:
  "responded_200 (ok_response JNull) \<and>
   fst (logout (ok_response JNull) signed_in) = Inr (JBool True) \<and>
   accessToken (snd (logout (ok_response JNull) signed_in)) = JNull \<and>
   \<not> isAuthenticated (snd (logout (ok_response JNull) signed_in)) \<and>
   \<not> responded_200 (Inl (HttpError ''timeout'' None)) \<and>
   fst (logout (Inl (HttpError ''timeout'' None)) signed_in) = Inr (JBool False) \<and>
   accessToken (snd (logout (Inl (HttpError ''timeout'' None)) signed_in)) = JStr ''old'' \<and>
   isAuthenticated (snd (logout (Inl (HttpError ''timeout'' None)) signed_in))"
proof -
  have a: "responded_200 (ok_response JNull)"
    by (simp add: responded_200_def ok_response_def)
  have b: "\<not> responded_200 (Inl (HttpError ''timeout'' None))"
    by (simp add: responded_200_def)
  have c: "accessToken signed_in = JStr ''old''" "isAuthenticated signed_in"
    by (simp_all add: signed_in_def)
  show ?thesis
    using a b c
      logout_clears_session_only_on_200 [of "ok_response JNull" signed_in]
      logout_clears_session_only_on_200 [of "Inl (HttpError ''timeout'' None)" signed_in]
    by simp
qed

lemma truthy_opt_prop_get: "truthy (opt_prop v k) \<Longrightarrow> get_prop v k = Inr (opt_prop v k)"
  by (cases v) (simp_all add: opt_prop_def)

lemma envPath_neq_cookiesPath: "cookiesPath \<noteq> envPath"
  by (simp add: envPath_def cookiesPath_def)

lemma saveCookieHeader_env: "files (snd (saveCookieHeader h d)) envPath = files d envPath"
  using envPath_neq_cookiesPath
  by (simp add: saveCookieHeader_def writeFileSync_def split: sum.splits if_splits)

lemma persist_cookies_frame:
  "accessToken (persist_cookies lib w) = accessToken w"
  "isAuthenticated (persist_cookies lib w) = isAuthenticated w"
  "cookieJar (persist_cookies lib w) = cookieJar w"
  "sent (persist_cookies lib w) = sent w"
  "baseUrl (persist_cookies lib w) = baseUrl w"
  "files (fs (persist_cookies lib w)) envPath = files (fs w) envPath"
  by (simp_all add: persist_cookies_def Let_def saveCookieHeader_env split: sum.splits)

lemma refresh_body_success:
  assumes "refresh_succeeded settled"
  shows "fst (refresh_body lib settled w) = Inr (body_token settled)"
    and "accessToken (snd (refresh_body lib settled w)) = body_token settled"
    and "isAuthenticated (snd (refresh_body lib settled w))"
    and "files (fs (snd (refresh_body lib settled w))) envPath =
         files (snd (saveAccessToken (body_token settled) (fs w))) envPath"
    and "sent (snd (refresh_body lib settled w)) = sent w"
proof -
  from assms obtain response where s: "settled = Inr response"
    and ok: "status response = 200" "truthy (opt_prop (data response) ''accessToken'')"
    by (cases settled) (auto simp: refresh_succeeded_def)
  have g: "get_prop (data response) ''accessToken'' = Inr (opt_prop (data response) ''accessToken'')"
    using ok(2) by (rule truthy_opt_prop_get)
  show "fst (refresh_body lib settled w) = Inr (body_token settled)"
    using s ok g by (simp add: refresh_body_def body_token_def Let_def)
  show "accessToken (snd (refresh_body lib settled w)) = body_token settled"
    using s ok g
    by (simp add: refresh_body_def body_token_def Let_def persist_cookies_frame
        setAccessToken_def split: option.splits)
  show "isAuthenticated (snd (refresh_body lib settled w))"
    using s ok g
    by (simp add: refresh_body_def Let_def persist_cookies_frame split: option.splits)
  show "files (fs (snd (refresh_body lib settled w))) envPath =
         files (snd (saveAccessToken (body_token settled) (fs w))) envPath"
    using s ok g
    by (simp add: refresh_body_def body_token_def Let_def persist_cookies_frame
        setAccessToken_def split: option.splits)
  show "sent (snd (refresh_body lib settled w)) = sent w"
    using s ok g
    by (simp add: refresh_body_def Let_def persist_cookies_frame setAccessToken_def
        split: option.splits)
qed

lemma refresh_body_failure:
  assumes "\<not> refresh_succeeded settled"
  shows "snd (refresh_body lib settled w) = w"
    and "fst (refresh_body lib settled w) = Inr JNull \<or> (\<exists>e. fst (refresh_body lib settled w) = Inl e)"
proof -
  show "snd (refresh_body lib settled w) = w"
  proof (cases settled)
    case (Inl e)
    then show ?thesis by (simp add: refresh_body_def)
  next
    case (Inr response)
    with assms have "(status response = 200 \<and> truthy (opt_prop (data response) ''accessToken'')) = False"
      by (simp add: refresh_succeeded_def)
    with Inr show ?thesis by (simp only: refresh_body_def sum.case if_False fst_conv snd_conv simp_thms)
  qed
  show "fst (refresh_body lib settled w) = Inr JNull \<or> (\<exists>e. fst (refresh_body lib settled w) = Inl e)"
  proof (cases settled)
    case (Inl e)
    then show ?thesis by (simp add: refresh_body_def)
  next
    case (Inr response)
    with assms have "(status response = 200 \<and> truthy (opt_prop (data response) ''accessToken'')) = False"
      by (simp add: refresh_succeeded_def)
    with Inr show ?thesis by (simp only: refresh_body_def sum.case if_False fst_conv snd_conv simp_thms)
  qed
qed

lemma refresh_resume_success:
  assumes "refresh_succeeded settled"
  shows "refresh_resume lib settled w = refresh_body lib settled w"
proof -
  have "fst (refresh_body lib settled w) = Inr (body_token settled)"
    using assms by (rule refresh_body_success)
  then show ?thesis
    by (cases "refresh_body lib settled w") (simp add: refresh_resume_def try_catch_def)
qed

lemma refresh_resume_failure:
  assumes "\<not> refresh_succeeded settled"
  shows "refresh_resume lib settled w = (Inr JNull, w)"
proof -
  have "snd (refresh_body lib settled w) = w"
    and "fst (refresh_body lib settled w) = Inr JNull \<or> (\<exists>e. fst (refresh_body lib settled w) = Inl e)"
    using assms by (rule refresh_body_failure)+
  then show ?thesis
    by (cases "refresh_body lib settled w") (auto simp: refresh_resume_def try_catch_def)
qed

lemma refresh_begin_frame:
  "accessToken (refresh_begin w) = accessToken w"
  "isAuthenticated (refresh_begin w) = isAuthenticated w"
  "fs (refresh_begin w) = fs w"
  "cookieJar (refresh_begin w) = cookieJar w"
  "baseUrl (refresh_begin w) = baseUrl w"
  "sent (refresh_begin w) = sent w @ [refresh_request w]"
  by (simp_all add: refresh_begin_def)

lemma saveAccessToken_not_written:
  assumes "files d envPath = None \<or> denied d envPath"
  shows "saveAccessToken tok d = (False, d)"
  using assms
  by (auto simp: saveAccessToken_def existsSync_def readFileSync_def split: option.splits)

lemma replace_first_key_member:
  "\<exists>l \<in> set ls. is_key_line l \<Longrightarrow> new_line \<in> set (replace_first_key new_line ls)"
  by (induction ls) auto

lemma written_once:
  assumes "files d envPath = Some content" and "\<not> denied d envPath" and "plain_token T"
  shows "\<exists>c. files (snd (saveAccessToken (JStr T) d)) envPath = Some c \<and>
             tokenKey @ T \<in> set (split_lines c) \<and>
             (if \<exists>l \<in> set (split_lines content). is_key_line l
              then split_lines c = replace_first_key (tokenKey @ T) (split_lines content)
              else c = content @ newline @ tokenKey @ T @ newline)"
proof (cases "tokenRegex_test content")
  case True
  then have present: "\<exists>l \<in> set (split_lines content). is_key_line l"
    by (simp add: tokenRegex_test_lines)
  have l: "split_lines (tokenRegex_replace content (tokenKey @ T)) =
             replace_first_key (tokenKey @ T) (split_lines content)"
    using True assms(3) by (rule tokenRegex_replace_lines)
  have m: "tokenKey @ T \<in> set (split_lines (tokenRegex_replace content (tokenKey @ T)))"
    unfolding l using present by (rule replace_first_key_member)
  have "files (snd (saveAccessToken (JStr T) d)) envPath =
          Some (tokenRegex_replace content (tokenKey @ T))"
    using saveAccessToken_existing [OF assms(1,2), of T] True by simp
  with l m present show ?thesis by auto
next
  case False
  then have absent: "\<not> (\<exists>l \<in> set (split_lines content). is_key_line l)"
    by (simp add: tokenRegex_test_lines)
  have "split_lines (tokenKey @ T @ newline) = [tokenKey @ T, []]"
    using split_lines_in_line_prefix [OF plain_line(1) [OF assms(3)], of newline]
    by (simp add: newline_def is_line_terminator_def)
  then have "split_lines (content @ newline @ tokenKey @ T @ newline) =
               split_lines content @ [tokenKey @ T, []]"
    using split_lines_append_newline [of content "tokenKey @ T @ newline"] by simp
  then have m: "tokenKey @ T \<in> set (split_lines (content @ newline @ tokenKey @ T @ newline))"
    by simp
  have "files (snd (saveAccessToken (JStr T) d)) envPath =
          Some (content @ newline @ tokenKey @ T @ newline)"
    using saveAccessToken_existing [OF assms(1,2), of T] False by simp
  with m absent show ?thesis by auto
qed

text \<open>
  Claim C1, as the code has it. \<open>refreshAccessToken\<close> returns the new access token exactly
  when the refresh endpoint answers 200 with a truthy \<open>accessToken\<close> in the body (for a
  string: a non-empty one); it then sets the session's access token to it, sets the
  authenticated flag, and calls the token-file writer, whose flag it does not read.
  The writer persists the token when the token file exists and can be written: for a
  string token with no \<open>$\<close> and no line terminator, the file then has the line
  \<open>KEY=token\<close>, in place of the first key line or appended after a newline. When the
  token file is missing or cannot be written, the token is returned all the same and
  the file is as before. In every other outcome (another status, an absent or falsy
  \<open>accessToken\<close>, a request that throws) it returns \<open>null\<close>, leaves the access token, the
  flag, the cookie jar and the disk as they were, and in no case does an exception
  leave the method.
\<close>

theorem refresh_returns_token_iff_truthy_token:
  "(refresh_succeeded settled \<longrightarrow>
      fst (refreshAccessToken lib settled w) = Inr (body_token settled) \<and>
      truthy (body_token settled) \<and>
      accessToken (snd (refreshAccessToken lib settled w)) = body_token settled \<and>
      isAuthenticated (snd (refreshAccessToken lib settled w)) \<and>
      (files (fs w) envPath = Some content \<and> \<not> denied (fs w) envPath \<and>
       body_token settled = JStr T \<and> plain_token T \<longrightarrow>
         (\<exists>c. files (fs (snd (refreshAccessToken lib settled w))) envPath = Some c \<and>
              tokenKey @ T \<in> set (split_lines c) \<and>
              (if \<exists>l \<in> set (split_lines content). is_key_line l
               then split_lines c = replace_first_key (tokenKey @ T) (split_lines content)
               else c = content @ newline @ tokenKey @ T @ newline))) \<and>
      (files (fs w) envPath = None \<or> denied (fs w) envPath \<longrightarrow>
         files (fs (snd (refreshAccessToken lib settled w))) envPath = files (fs w) envPath)) \<and>
   (\<not> refresh_succeeded settled \<longrightarrow>
      fst (refreshAccessToken lib settled w) = Inr JNull \<and>
      accessToken (snd (refreshAccessToken lib settled w)) = accessToken w \<and>
      isAuthenticated (snd (refreshAccessToken lib settled w)) = isAuthenticated w \<and>
      cookieJar (snd (refreshAccessToken lib settled w)) = cookieJar w \<and>
      fs (snd (refreshAccessToken lib settled w)) = fs w)"
proof (cases "refresh_succeeded settled")
  case True
  then have t: "truthy (body_token settled)"
    by (cases settled) (simp_all add: refresh_succeeded_def body_token_def)
  have env: "files (fs (snd (refreshAccessToken lib settled w))) envPath =
               files (snd (saveAccessToken (body_token settled) (fs w))) envPath"
    using refresh_body_success(4) [OF True, of lib "refresh_begin w"]
    by (simp add: refreshAccessToken_def refresh_resume_success [OF True] refresh_begin_frame)
  have written: "\<exists>c. files (fs (snd (refreshAccessToken lib settled w))) envPath = Some c \<and>
              tokenKey @ T \<in> set (split_lines c) \<and>
              (if \<exists>l \<in> set (split_lines content). is_key_line l
               then split_lines c = replace_first_key (tokenKey @ T) (split_lines content)
               else c = content @ newline @ tokenKey @ T @ newline)"
    if "files (fs w) envPath = Some content" "\<not> denied (fs w) envPath"
       "body_token settled = JStr T" "plain_token T"
    using written_once [OF that(1,2,4)] env that(3) by simp
  have kept: "files (fs (snd (refreshAccessToken lib settled w))) envPath = files (fs w) envPath"
    if "files (fs w) envPath = None \<or> denied (fs w) envPath"
    using saveAccessToken_not_written [OF that, of "body_token settled"] env by simp
  show ?thesis
    using True t written kept refresh_body_success(1,2,3) [OF True, of lib "refresh_begin w"]
    by (simp add: refreshAccessToken_def refresh_resume_success refresh_begin_frame)
next
  case False
  then show ?thesis
    by (simp add: refreshAccessToken_def refresh_resume_failure refresh_begin_frame)
qed


theorem refresh_returns_token_iff_truthy_token_witness:
  "refresh_succeeded (token_response (JStr ''new'') None) \<and>
   fst (refreshAccessToken simple_jar (token_response (JStr ''new'') None) signed_in) = Inr (JStr ''new'') \<and>
   accessToken (snd (refreshAccessToken simple_jar (token_response (JStr ''new'') None) signed_in)) = JStr ''new'' \<and>
   (\<exists>c. files (fs (snd (refreshAccessToken simple_jar (token_response (JStr ''new'') None) signed_in))) envPath
           = Some c \<and>
        split_lines c = [''ITD_ACCESS_TOKEN=new'']) \<and>
   \<not> refresh_succeeded (Inr \<lparr>status = 401, data = JNull, set_cookie = None\<rparr>) \<and>
   fst (refreshAccessToken simple_jar (Inr \<lparr>status = 401, data = JNull, set_cookie = None\<rparr>) signed_in) = Inr JNull \<and>
   accessToken (snd (refreshAccessToken simple_jar (Inr \<lparr>status = 401, data = JNull, set_cookie = None\<rparr>) signed_in)) = JStr ''old''"
proof -
  let ?ok = "token_response (JStr ''new'') None"
  let ?ko = "Inr \<lparr>status = 401, data = JNull, set_cookie = None\<rparr> :: http_result"
  have a: "refresh_succeeded ?ok"
    by (simp add: refresh_succeeded_def token_response_def opt_prop_def)
  have b: "\<not> refresh_succeeded ?ko"
    by (simp add: refresh_succeeded_def)
  have c: "body_token ?ok = JStr ''new''"
    by (simp add: body_token_def token_response_def opt_prop_def)
  have d: "files (fs signed_in) envPath = Some ''ITD_ACCESS_TOKEN=old''"
          "\<not> denied (fs signed_in) envPath"
    by (simp_all add: signed_in_def env_disk_def)
  have p: "plain_token ''new''"
    by (simp add: plain_token_def is_line_terminator_def)
  have l: "split_lines ''ITD_ACCESS_TOKEN=old'' = [''ITD_ACCESS_TOKEN=old'']"
    by (simp add: is_line_terminator_def split_lines.simps(2) del: split_lines_Cons)
  have k: "(\<exists>l \<in> set (split_lines ''ITD_ACCESS_TOKEN=old''). is_key_line l) = True"
    unfolding l by (simp add: is_key_line_def tokenKey_def)
  have r: "replace_first_key (tokenKey @ ''new'') (split_lines ''ITD_ACCESS_TOKEN=old'') =
             [''ITD_ACCESS_TOKEN=new'']"
    unfolding l by (simp add: is_key_line_def tokenKey_def)
  have e: "accessToken signed_in = JStr ''old''"
    by (simp add: signed_in_def)
  note ok = refresh_returns_token_iff_truthy_token
              [of ?ok simple_jar signed_in "''ITD_ACCESS_TOKEN=old''" "''new''"]
  note ko = refresh_returns_token_iff_truthy_token
              [of ?ko simple_jar signed_in "''ITD_ACCESS_TOKEN=old''" "''new''"]
  note S = ok [THEN conjunct1, THEN mp, OF a]
  note F = ko [THEN conjunct2, THEN mp, OF b]
  have h: "files (fs signed_in) envPath = Some ''ITD_ACCESS_TOKEN=old'' \<and> \<not> denied (fs signed_in) envPath \<and>
           body_token ?ok = JStr ''new'' \<and> plain_token ''new''"
    using d c p by (intro conjI)
  note W = S [THEN conjunct2, THEN conjunct2, THEN conjunct2, THEN conjunct2, THEN conjunct1, THEN mp, OF h]
  from W obtain c2 where
    w: "files (fs (snd (refreshAccessToken simple_jar ?ok signed_in))) envPath = Some c2"
    and i: "if \<exists>l \<in> set (split_lines ''ITD_ACCESS_TOKEN=old''). is_key_line l
            then split_lines c2 = replace_first_key (tokenKey @ ''new'') (split_lines ''ITD_ACCESS_TOKEN=old'')
            else c2 = ''ITD_ACCESS_TOKEN=old'' @ newline @ tokenKey @ ''new'' @ newline"
    by (elim exE conjE)
  have "split_lines c2 = replace_first_key (tokenKey @ ''new'') (split_lines ''ITD_ACCESS_TOKEN=old'')"
    using i [unfolded k if_True] .
  then have "split_lines c2 = [''ITD_ACCESS_TOKEN=new'']"
    by (simp only: r)
  with w have written: "\<exists>c. files (fs (snd (refreshAccessToken simple_jar ?ok signed_in))) envPath = Some c \<and>
        split_lines c = [''ITD_ACCESS_TOKEN=new'']"
    by (intro exI [of _ c2] conjI)
  have f1: "fst (refreshAccessToken simple_jar ?ok signed_in) = Inr (JStr ''new'')"
    using S [THEN conjunct1] by (simp only: c)
  have f2: "accessToken (snd (refreshAccessToken simple_jar ?ok signed_in)) = JStr ''new''"
    using S [THEN conjunct2, THEN conjunct2, THEN conjunct1] by (simp only: c)
  have g1: "fst (refreshAccessToken simple_jar ?ko signed_in) = Inr JNull"
    using F [THEN conjunct1] .
  have g2: "accessToken (snd (refreshAccessToken simple_jar ?ko signed_in)) = JStr ''old''"
    using F [THEN conjunct2, THEN conjunct1] by (simp only: e)
  show ?thesis
    using a f1 f2 written b g1 g2 by (intro conjI)
qed

text \<open>
  Three inputs on which the claim as stated fails. A 200 response whose \<open>accessToken\<close>
  field holds the empty string: the field is present, and \<open>null\<close> is returned. A
  successful refresh on a disk without token file: the token is returned and nothing
  is written. A token containing \<open>$&\<close>: it is returned, and the file holds another
  text.
\<close>

theorem refresh_counterexample:
  "responded_200 (token_response (JStr []) None) \<and>
   accessToken_field_present (token_response (JStr []) None) \<and>
   fst (refreshAccessToken simple_jar (token_response (JStr []) None) signed_in) = Inr JNull \<and>
   files (fs signed_in_without_env) envPath = None \<and>
   fst (refreshAccessToken simple_jar (token_response (JStr ''new'') None) signed_in_without_env)
     = Inr (JStr ''new'') \<and>
   fs (snd (refreshAccessToken simple_jar (token_response (JStr ''new'') None) signed_in_without_env))
     = fs signed_in_without_env \<and>
   fst (refreshAccessToken simple_jar (token_response (JStr ''x$&y'') None) signed_in) = Inr (JStr ''x$&y'') \<and>
   files (fs (snd (refreshAccessToken simple_jar (token_response (JStr ''x$&y'') None) signed_in))) envPath
     = Some ''ITD_ACCESS_TOKEN=xITD_ACCESS_TOKEN=oldy''"
  by (simp add: responded_200_def accessToken_field_present_def token_response_def
      refreshAccessToken_def refresh_resume_def refresh_body_def refresh_begin_def
      try_catch_def opt_prop_def signed_in_without_env_def signed_in_def env_disk_def
      saveAccessToken_def existsSync_def readFileSync_def writeFileSync_def
      tokenRegex_test_def tokenRegex_replace_def tokenKey_def is_line_terminator_def
      setAccessToken_def Let_def)

lemma merge_cookies_is_fold:
  assumes "\<And>c j. malformed c \<Longrightarrow> isl (setCookieSync lib c u j)"
    and "\<And>c j. \<not> malformed c \<Longrightarrow> setCookieSync lib c u j = Inr (store c j)"
  shows "merge_cookies lib u cs jar = fold store (filter (\<lambda>c. \<not> malformed c) cs) jar"
proof (induction cs arbitrary: jar)
  case Nil
  show ?case by simp
next
  case (Cons c cs)
  show ?case
  proof (cases "malformed c")
    case True
    then have "isl (setCookieSync lib c u jar)" by (rule assms(1))
    then obtain e where "setCookieSync lib c u jar = Inl e"
      by (cases "setCookieSync lib c u jar") simp_all
    with True Cons.IH show ?thesis by simp
  next
    case False
    then have "setCookieSync lib c u jar = Inr (store c jar)" by (rule assms(2))
    with False Cons.IH show ?thesis by simp
  qed
qed

lemma refresh_body_jar:
  assumes "refresh_succeeded settled" and "settled = Inr response"
  shows "cookieJar (snd (refresh_body lib settled w)) =
         (case set_cookie response of
            None \<Rightarrow> cookieJar w
          | Some cs \<Rightarrow> merge_cookies lib (baseUrl w) cs (cookieJar w))"
proof -
  from assms have ok: "status response = 200" "truthy (opt_prop (data response) ''accessToken'')"
    by (simp_all add: refresh_succeeded_def)
  have g: "get_prop (data response) ''accessToken'' = Inr (opt_prop (data response) ''accessToken'')"
    using ok(2) by (rule truthy_opt_prop_get)
  show ?thesis
    using assms(2) ok g
    by (simp add: refresh_body_def Let_def persist_cookies_frame setAccessToken_def
        split: option.splits)
qed

text \<open>
  Claim C5. During a refresh whose response carries several cookies, some of them
  malformed (the jar rejects them, whatever it holds) and the others well-formed (the
  jar stores each, by \<open>store\<close>), the jar ends up holding every well-formed cookie, stored
  in the order sent, as if the malformed ones had not been there: a rejected cookie
  neither stops the loop nor makes the refresh fail, which still returns the new token.
\<close>

theorem malformed_cookie_never_aborts_merge:
  assumes "\<forall>c j. malformed c \<longrightarrow> isl (setCookieSync lib c (baseUrl w) j)"
    and "\<forall>c j. \<not> malformed c \<longrightarrow> setCookieSync lib c (baseUrl w) j = Inr (store c j)"
    and "refresh_succeeded (Inr response)"
    and "set_cookie response = Some cs"
  shows "fst (refreshAccessToken lib (Inr response) w) = Inr (body_token (Inr response)) \<and>
         cookieJar (snd (refreshAccessToken lib (Inr response) w)) =
           fold store (filter (\<lambda>c. \<not> malformed c) cs) (cookieJar w)"
proof -
  have m: "merge_cookies lib (baseUrl w) cs (cookieJar w) =
           fold store (filter (\<lambda>c. \<not> malformed c) cs) (cookieJar w)"
    using assms(1,2) by (intro merge_cookies_is_fold) blast+
  have r: "fst (refresh_body lib (Inr response) (refresh_begin w)) = Inr (body_token (Inr response))"
    using assms(3) by (rule refresh_body_success)
  have j: "cookieJar (snd (refresh_body lib (Inr response) (refresh_begin w))) =
           merge_cookies lib (baseUrl w) cs (cookieJar w)"
    using refresh_body_jar [OF assms(3) refl, of lib "refresh_begin w"] assms(4)
    by (simp add: refresh_begin_frame)
  show ?thesis
    using r j m assms(3) by (simp add: refreshAccessToken_def refresh_resume_success)
qed

theorem malformed_cookie_never_aborts_merge_witness:
  "refresh_succeeded (token_response (JStr ''new'') (Some [''a=1'', ''garbage'', ''b=2; Path=/'', ''is_auth=1''])) \<and>
   fst (refreshAccessToken simple_jar
          (token_response (JStr ''new'') (Some [''a=1'', ''garbage'', ''b=2; Path=/'', ''is_auth=1'']))
          signed_in) = Inr (JStr ''new'') \<and>
   cookieJar (snd (refreshAccessToken simple_jar
          (token_response (JStr ''new'') (Some [''a=1'', ''garbage'', ''b=2; Path=/'', ''is_auth=1'']))
          signed_in)) = [(''refresh_token'', ''r0''), (''a'', ''1''), (''b'', ''2''), (''is_auth'', ''1'')]"
proof -
  let ?cs = "[''a=1'', ''garbage'', ''b=2; Path=/'', ''is_auth=1'']"
  let ?resp = "\<lparr>status = 200, data = JObj [(''accessToken'', JStr ''new'')], set_cookie = Some ?cs\<rparr>"
  let ?store = "\<lambda>c jar. case parse_cookie c of None \<Rightarrow> jar | Some (k, v) \<Rightarrow> AList.update k v jar"
  have t: "token_response (JStr ''new'') (Some ?cs) = Inr ?resp"
    by (simp add: token_response_def)
  have a: "\<forall>c j. parse_cookie c = None \<longrightarrow> isl (setCookieSync simple_jar c (baseUrl signed_in) j)"
    by (simp add: simple_jar_def)
  have a': "\<forall>c j. \<not> parse_cookie c = None \<longrightarrow>
              setCookieSync simple_jar c (baseUrl signed_in) j = Inr (?store c j)"
    by (auto simp: simple_jar_def)
  have b: "refresh_succeeded (Inr ?resp)"
    by (simp add: refresh_succeeded_def opt_prop_def)
  have c: "set_cookie ?resp = Some ?cs"
    by simp
  have d: "body_token (Inr ?resp) = JStr ''new''"
    by (simp add: body_token_def opt_prop_def)
  have e: "fold ?store (filter (\<lambda>c. \<not> parse_cookie c = None) ?cs) (cookieJar signed_in) =
             [(''refresh_token'', ''r0''), (''a'', ''1''), (''b'', ''2''), (''is_auth'', ''1'')]"
    by (simp add: parse_cookie_def signed_in_def Let_def)
  note T = malformed_cookie_never_aborts_merge
             [of "\<lambda>c. parse_cookie c = None" simple_jar signed_in ?store ?resp ?cs, OF a a' b c]
  have f1: "fst (refreshAccessToken simple_jar (Inr ?resp) signed_in) = Inr (JStr ''new'')"
    using T [THEN conjunct1] by (simp only: d)
  have f2: "cookieJar (snd (refreshAccessToken simple_jar (Inr ?resp) signed_in)) =
              [(''refresh_token'', ''r0''), (''a'', ''1''), (''b'', ''2''), (''is_auth'', ''1'')]"
    using T [THEN conjunct2] by (simp only: e)
  show ?thesis
    unfolding t using b f1 f2 by (intro conjI)
qed

lemma refresh_resume_frame:
  "sent (snd (refresh_resume lib settled w)) = sent w"
  "baseUrl (snd (refresh_resume lib settled w)) = baseUrl w"
proof -
  have "sent (snd (refresh_resume lib settled w)) = sent w \<and>
        baseUrl (snd (refresh_resume lib settled w)) = baseUrl w"
  proof (cases "refresh_succeeded settled")
    case True
    then obtain response where s: "settled = Inr response"
      and ok: "status response = 200" "truthy (opt_prop (data response) ''accessToken'')"
      by (cases settled) (auto simp: refresh_succeeded_def)
    have g: "get_prop (data response) ''accessToken'' = Inr (opt_prop (data response) ''accessToken'')"
      using ok(2) by (rule truthy_opt_prop_get)
    have "baseUrl (snd (refresh_body lib settled w)) = baseUrl w"
      using s ok g
      by (simp add: refresh_body_def Let_def persist_cookies_frame setAccessToken_def
          split: option.splits)
    with True show ?thesis
      by (simp add: refresh_resume_success refresh_body_success)
  next
    case False
    then show ?thesis by (simp add: refresh_resume_failure)
  qed
  then show "sent (snd (refresh_resume lib settled w)) = sent w"
    and "baseUrl (snd (refresh_resume lib settled w)) = baseUrl w"
    by simp_all
qed

lemma refresh_requests_begin:
  "refresh_requests (refresh_begin w) = refresh_requests w + 1"
  by (simp add: refresh_requests_def refresh_begin_def refresh_request_def)

lemma refresh_requests_resume:
  "refresh_requests (snd (refresh_resume lib settled w)) = refresh_requests w"
  by (simp add: refresh_requests_def refresh_resume_frame)

lemma refresh_step_requests:
  "refresh_requests (session (refresh_step lib st ev)) =
     refresh_requests (session st) + (if is_invoke ev then 1 else 0)"
proof (cases ev)
  case Invoke
  then show ?thesis
    by (simp add: refresh_step_def is_invoke_def refresh_requests_begin)
next
  case (Settle r)
  have "refresh_requests (snd (refresh_resume lib r (session st))) = refresh_requests (session st)"
    by (rule refresh_requests_resume)
  with Settle show ?thesis
    by (cases "refresh_resume lib r (session st)") (simp add: refresh_step_def is_invoke_def)
qed

lemma refresh_step_pending:
  "is_invoke ev \<Longrightarrow> pending (refresh_step lib st ev) = pending st + 1"
  by (cases ev) (simp_all add: refresh_step_def is_invoke_def)

text \<open>
  Claim C2, as the code has it. \<open>refreshAccessToken\<close> keeps no record of a refresh in
  flight: every call sends its own request to the refresh endpoint, so under any
  interleaving of calls and settling requests the number of refresh requests sent on a
  session grows by the number of calls made.
\<close>

theorem every_refresh_call_starts_a_round_trip:
  "refresh_requests (session (run_refresh lib evs st)) = refresh_requests (session st) + invocations evs"
proof (induction evs arbitrary: st)
  case Nil
  show ?case by (simp add: run_refresh_def invocations_def)
next
  case (Cons ev evs)
  have "run_refresh lib (ev # evs) st = run_refresh lib evs (refresh_step lib st ev)"
    by (simp add: run_refresh_def)
  then show ?case
    using Cons.IH [of "refresh_step lib st ev"] refresh_step_requests [of lib st ev]
    by (simp add: invocations_def)
qed

text \<open>
  Two calls entered before either request settles: both are suspended, and two requests
  have gone to the refresh endpoint.
\<close>

theorem two_refreshes_in_flight_counterexample:
  "pending (run_refresh simple_jar [Invoke, Invoke] (idle signed_in)) = 2 \<and>
   refresh_requests (session (run_refresh simple_jar [Invoke, Invoke] (idle signed_in))) = 2"
proof -
  have "refresh_requests signed_in = 0"
    by (simp add: refresh_requests_def signed_in_def)
  then show ?thesis
    by (simp add: run_refresh_def refresh_step_def idle_def refresh_requests_begin)
qed

section \<open>Properties of the mirror pool\<close>

lemma mirror_entry_throws: "isl (mirror_entry projectRoot data_obj key)"
  by (simp add: mirror_entry_def read_identifier_def callback_scope_def Let_def)

lemma map_throwing_all_throw:
  assumes "\<And>x. isl (f x)" and "xs \<noteq> []"
  shows "isl (map_throwing f xs)"
proof (cases xs)
  case Nil
  with assms(2) show ?thesis by simp
next
  case (Cons x rest)
  have "isl (f x)" by (rule assms(1))
  then obtain e where "f x = Inl e"
    by (cases "f x") simp_all
  with Cons show ?thesis by simp
qed

lemma loadMirrorsFromFile_never_returns:
  "isl (loadMirrorsFromFile json_parse d filePath projectRoot)"
proof -
  have "isl (map_throwing (mirror_entry projectRoot v) ks)" if "ks \<noteq> []" for v ks
    using mirror_entry_throws that by (rule map_throwing_all_throw)
  then show ?thesis
    by (simp add: loadMirrorsFromFile_def Let_def split: sum.splits option.splits jsval.splits)
qed

lemma path_join_mirrors_file: "path_join ''/app'' ''.cookies.mirrors'' = ''/app/.cookies.mirrors''"
  by (simp add: path_join_def path_normalize_def path_isAbsolute_def Let_def)

text \<open>
  Claim C3 asks that a well-formed, non-empty multi-account file yields a pool with one
  client per account key. On the file \<open>{"gork": "refresh_token=abc"}\<close> the construction
  throws instead: building the options object of the first account reads the
  identifier \<open>cookiesString\<close>, which is bound nowhere. By
  \<open>loadMirrorsFromFile_never_returns\<close> the same happens on every file.
\<close>

theorem mirror_file_pool_construction_throws:
  "createMirrorPool new_client gork_parse gork_disk ''/app'' (ArgOptions (Some ''.cookies.mirrors'') None)
     = Inl (ReferenceError ''cookiesString is not defined'')"
  by (simp add: createMirrorPool_def loadMirrorsFromFile_def mirror_entry_def read_identifier_def
      callback_scope_def toCookieString_def trim_def is_whitespace_def gork_parse_def gork_disk_def
      gork_text_def path_isAbsolute_def path_join_mirrors_file existsSync_def readFileSync_def opt_prop_def
      Let_def)

lemma facade_call_step:
  assumes "clients p \<noteq> []" and "facade_call is_method has_method e"
  shows "\<exists>name. eval_call is_method has_method e p =
           (AppliedTo (clients p ! (index p mod length (clients p))) name,
            p\<lparr>index := Suc (index p),
              applied := applied p @ [(clients p ! (index p mod length (clients p)), name)]\<rparr>)"
proof (cases e)
  case (PoolCall nm)
  with assms(2) have "is_method nm" "nm \<notin> set reserved_names" "nm \<notin> set MANAGER_KEYS"
    by (simp_all add: facade_call_def)
  then have "pool_get is_method nm p = (Inr (MethodWrapper nm), p)"
    using assms(1) by (simp add: pool_get_def reserved_names_def)
  with PoolCall assms(1) show ?thesis
    by (simp add: eval_call_def nextClient_def apply_method_def)
next
  case (PoolMemberCall obj m)
  with assms(2) have k: "obj \<in> set MANAGER_KEYS" and h: "has_method obj m"
    by (simp_all add: facade_call_def)
  from k have "obj \<noteq> ''getClient''" "obj \<noteq> ''nextClient''" "obj \<noteq> ''clients''" "obj \<noteq> ''size''"
    by (auto simp: MANAGER_KEYS_def)
  with k have "pool_get is_method obj p = (Inr (ManagerProxy obj), p)"
    using assms(1) by (simp add: pool_get_def)
  with PoolMemberCall h assms(1) show ?thesis
    by (simp add: eval_call_def nextClient_def apply_method_def)
next
  case (ClientCall c m)
  with assms(2) show ?thesis by (simp add: facade_call_def)
next
  case (ClientMemberCall c obj m)
  with assms(2) show ?thesis by (simp add: facade_call_def)
qed

lemma facade_calls_round_robin:
  assumes "clients p \<noteq> []" and "\<forall>e \<in> set es. facade_call is_method has_method e"
  shows "map routed_to (fst (run_calls is_method has_method es p)) =
           map (\<lambda>k. Some (clients p ! ((index p + k) mod length (clients p)))) [0..<length es] \<and>
         index (snd (run_calls is_method has_method es p)) = index p + length es \<and>
         clients (snd (run_calls is_method has_method es p)) = clients p"
  using assms
proof (induction es arbitrary: p)
  case Nil
  show ?case by simp
next
  case (Cons e es)
  from Cons.prems obtain name where
    st: "eval_call is_method has_method e p =
           (AppliedTo (clients p ! (index p mod length (clients p))) name,
            p\<lparr>index := Suc (index p),
              applied := applied p @ [(clients p ! (index p mod length (clients p)), name)]\<rparr>)"
    using facade_call_step [of p is_method has_method e] by auto
  let ?p' = "p\<lparr>index := Suc (index p),
              applied := applied p @ [(clients p ! (index p mod length (clients p)), name)]\<rparr>"
  have ih: "map routed_to (fst (run_calls is_method has_method es ?p')) =
           map (\<lambda>k. Some (clients ?p' ! ((index ?p' + k) mod length (clients ?p')))) [0..<length es] \<and>
         index (snd (run_calls is_method has_method es ?p')) = index ?p' + length es \<and>
         clients (snd (run_calls is_method has_method es ?p')) = clients ?p'"
    using Cons.prems by (intro Cons.IH) simp_all
  obtain rs q where rc: "run_calls is_method has_method es ?p' = (rs, q)"
    by (cases "run_calls is_method has_method es ?p'")
  have whole: "run_calls is_method has_method (e # es) p =
                 (AppliedTo (clients p ! (index p mod length (clients p))) name # rs, q)"
    by (simp add: st rc)
  have tail_eq: "map routed_to rs =
                   map (\<lambda>k. Some (clients p ! ((index p + Suc k) mod length (clients p)))) [0..<length es]"
    using ih rc by simp
  have shift: "map (\<lambda>k. Some (clients p ! ((index p + k) mod length (clients p)))) [0..<Suc (length es)] =
        Some (clients p ! (index p mod length (clients p))) #
        map (\<lambda>k. Some (clients p ! ((index p + Suc k) mod length (clients p)))) [0..<length es]"
    by (simp add: upt_conv_Cons map_Suc_upt [symmetric] del: upt_Suc)
  have "map routed_to (fst (run_calls is_method has_method (e # es) p)) =
          Some (clients p ! (index p mod length (clients p))) # map routed_to rs"
    unfolding whole by (simp add: routed_to_def)
  then have first: "map routed_to (fst (run_calls is_method has_method (e # es) p)) =
          map (\<lambda>k. Some (clients p ! ((index p + k) mod length (clients p)))) [0..<length (e # es)]"
    using tail_eq shift by (simp del: upt_Suc)
  have second: "index (snd (run_calls is_method has_method (e # es) p)) = index p + length (e # es)"
    unfolding whole using ih rc by simp
  have third: "clients (snd (run_calls is_method has_method (e # es) p)) = clients p"
    unfolding whole using ih rc by simp
  from first second third show ?case by blast
qed

text \<open>
  Claim C4. In a pool built from the ordered accounts \<open>[a, b, c]\<close>, every method call
  through the facade, whatever the method's name and whether it is called on the pool
  or through one of its managers, advances the shared counter by exactly one; seven such
  calls are applied to the accounts in the order a, b, c, a, b, c, a.
\<close>

theorem round_robin_dispatch:
  assumes "createMirrorPool new_client json_parse d cwd (ArgArray [a, b, c]) = Inr p"
    and "\<forall>e \<in> set es. facade_call is_method has_method e"
    and "length es = 7"
  shows "map routed_to (fst (run_calls is_method has_method es p)) =
           map (\<lambda>x. Some (as_client new_client x)) [a, b, c, a, b, c, a] \<and>
         index (snd (run_calls is_method has_method es p)) = 7 \<and>
         (\<forall>e \<in> set es. \<forall>q. clients q \<noteq> [] \<longrightarrow>
            index (snd (eval_call is_method has_method e q)) = index q + 1)"
proof -
  from assms(1) have p: "clients p = map (as_client new_client) [a, b, c]" "index p = 0"
    by (auto simp: createMirrorPool_def)
  then have ne: "clients p \<noteq> []" by simp
  have seven: "[0..<7] = [0, Suc 0, 2, 3, 4, 5, 6 :: nat]"
    by (simp add: upt_conv_Cons)
  have rr: "map routed_to (fst (run_calls is_method has_method es p)) =
           map (\<lambda>k. Some (clients p ! ((index p + k) mod length (clients p)))) [0..<length es]"
    and ix: "index (snd (run_calls is_method has_method es p)) = index p + length es"
    using facade_calls_round_robin [OF ne assms(2)] by simp_all
  have one: "index (snd (eval_call is_method has_method e q)) = index q + 1"
    if "e \<in> set es" "clients q \<noteq> []" for e q
  proof -
    from that(1) assms(2) have "facade_call is_method has_method e" by blast
    with that(2) obtain name where
      "eval_call is_method has_method e q =
           (AppliedTo (clients q ! (index q mod length (clients q))) name,
            q\<lparr>index := Suc (index q),
              applied := applied q @ [(clients q ! (index q mod length (clients q)), name)]\<rparr>)"
      using facade_call_step [of q is_method has_method e] by auto
    then show ?thesis by simp
  qed
  show ?thesis
    using rr ix one by (simp add: p assms(3) seven)
qed


theorem round_robin_dispatch_witness:
  "createMirrorPool cfg_cookiesString gork_parse gork_disk ''/app'' (ArgArray [Inl ''A'', Inl ''B'', Inl ''C'']) = Inr abc_pool \<and>
   length seven_calls = 7 \<and>
   map routed_to (fst (run_calls client_methods manager_methods seven_calls abc_pool)) =
     [Some ''A'', Some ''B'', Some ''C'', Some ''A'', Some ''B'', Some ''C'', Some ''A''] \<and>
   index (snd (run_calls client_methods manager_methods seven_calls abc_pool)) = 7"
proof -
  have a: "createMirrorPool cfg_cookiesString gork_parse gork_disk ''/app''
             (ArgArray [Inl ''A'', Inl ''B'', Inl ''C'']) = Inr abc_pool"
    by (simp add: createMirrorPool_def abc_pool_def as_client_def)
  have b: "\<forall>e \<in> set seven_calls. facade_call client_methods manager_methods e"
    by (simp add: seven_calls_def facade_call_def client_methods_def manager_methods_def
        reserved_names_def MANAGER_KEYS_def)
  have c: "length seven_calls = 7"
    by (simp add: seven_calls_def)
  show ?thesis
    using round_robin_dispatch [OF a b c] a b c
    by (simp add: as_client_def)
qed

lemma eval_call_same_routing:
  assumes "clients p = clients q" and "index p = index q"
  shows "fst (eval_call is_method has_method e p) = fst (eval_call is_method has_method e q) \<and>
         clients (snd (eval_call is_method has_method e p)) = clients (snd (eval_call is_method has_method e q)) \<and>
         index (snd (eval_call is_method has_method e p)) = index (snd (eval_call is_method has_method e q))"
proof (cases e)
  case (PoolCall nm)
  then show ?thesis
    using assms
    by (simp add: eval_call_def pool_get_def nextClient_def apply_method_def)
next
  case (PoolMemberCall obj m)
  then show ?thesis
    using assms
    by (simp add: eval_call_def pool_get_def nextClient_def apply_method_def)
next
  case (ClientCall c m)
  then show ?thesis
    using assms by (simp add: eval_call_def apply_method_def)
next
  case (ClientMemberCall c obj m)
  then show ?thesis
    using assms by (simp add: eval_call_def apply_method_def)
qed

lemma run_calls_Cons:
  "run_calls is_method has_method (e # es) p =
     (fst (eval_call is_method has_method e p) #
        fst (run_calls is_method has_method es (snd (eval_call is_method has_method e p))),
      snd (run_calls is_method has_method es (snd (eval_call is_method has_method e p))))"
  by (simp split: prod.splits)

lemma run_calls_same_routing:
  assumes "clients p = clients q" and "index p = index q"
  shows "fst (run_calls is_method has_method es p) = fst (run_calls is_method has_method es q)"
  using assms
proof (induction es arbitrary: p q)
  case Nil
  show ?case by simp
next
  case (Cons e es)
  obtain r p' where ep: "eval_call is_method has_method e p = (r, p')"
    by (cases "eval_call is_method has_method e p")
  obtain r' q' where eq: "eval_call is_method has_method e q = (r', q')"
    by (cases "eval_call is_method has_method e q")
  from eval_call_same_routing [OF Cons.prems, of is_method has_method e] ep eq
  have same: "r = r'" "clients p' = clients q'" "index p' = index q'"
    by simp_all
  have "fst (run_calls is_method has_method es p') = fst (run_calls is_method has_method es q')"
    using same(2,3) by (rule Cons.IH)
  with same(1) ep eq show ?case
    by (simp add: run_calls_Cons del: run_calls.simps)
qed

lemma pinned_call_frame:
  assumes "pinned_call_on c e"
  shows "index (snd (eval_call is_method has_method e p)) = index p \<and>
         clients (snd (eval_call is_method has_method e p)) = clients p"
  using assms
  by (cases e) (simp_all add: pinned_call_on_def eval_call_def apply_method_def)

lemma pinned_calls_frame:
  assumes "\<forall>e \<in> set es. pinned_call_on c e"
  shows "index (snd (run_calls is_method has_method es p)) = index p \<and>
         clients (snd (run_calls is_method has_method es p)) = clients p"
  using assms
proof (induction es arbitrary: p)
  case Nil
  show ?case by simp
next
  case (Cons e es)
  obtain r p' where ep: "eval_call is_method has_method e p = (r, p')"
    by (cases "eval_call is_method has_method e p")
  have "pinned_call_on c e" using Cons.prems by simp
  from pinned_call_frame [OF this, of is_method has_method p] ep
  have f: "index p' = index p" "clients p' = clients p" by simp_all
  have "index (snd (run_calls is_method has_method es p')) = index p' \<and>
        clients (snd (run_calls is_method has_method es p')) = clients p'"
    using Cons.prems by (intro Cons.IH) simp
  with f ep show ?case by (simp add: run_calls_Cons del: run_calls.simps)
qed

text \<open>
  Claim C8. After a caller has taken a client from \<open>pool.getClient()\<close>, any number of
  calls made on that client leave the pool's counter where it was, and the calls made
  through the facade afterwards go to the same accounts as they would have without
  them.
\<close>

theorem pinned_client_calls_leave_index:
  assumes "eval_call is_method has_method (PoolCall ''getClient'') p = (HandedOut (Some c), p1)"
    and "\<forall>e \<in> set es. pinned_call_on c e"
  shows "index (snd (run_calls is_method has_method es p1)) = index p1 \<and>
         fst (run_calls is_method has_method later (snd (run_calls is_method has_method es p1))) =
           fst (run_calls is_method has_method later p1)"
proof -
  have f: "index (snd (run_calls is_method has_method es p1)) = index p1"
          "clients (snd (run_calls is_method has_method es p1)) = clients p1"
    using pinned_calls_frame [OF assms(2), of is_method has_method p1] by simp_all
  have "fst (run_calls is_method has_method later (snd (run_calls is_method has_method es p1))) =
           fst (run_calls is_method has_method later p1)"
    using f(2) f(1) by (rule run_calls_same_routing)
  with f(1) show ?thesis by simp
qed

theorem pinned_client_calls_leave_index_witness:
  "eval_call client_methods manager_methods (PoolCall ''getClient'') abc_pool =
     (HandedOut (Some ''A''), abc_pool\<lparr>index := 1\<rparr>) \<and>
   index (snd (run_calls client_methods manager_methods five_pinned_calls (abc_pool\<lparr>index := 1\<rparr>))) = 1 \<and>
   map routed_to (fst (run_calls client_methods manager_methods seven_calls
       (snd (run_calls client_methods manager_methods five_pinned_calls (abc_pool\<lparr>index := 1\<rparr>))))) =
     [Some ''B'', Some ''C'', Some ''A'', Some ''B'', Some ''C'', Some ''A'', Some ''B'']"
proof -
  have a: "eval_call client_methods manager_methods (PoolCall ''getClient'') abc_pool =
             (HandedOut (Some ''A''), abc_pool\<lparr>index := 1\<rparr>)"
    by (simp add: eval_call_def pool_get_def nextClient_def abc_pool_def)
  have b: "\<forall>e \<in> set five_pinned_calls. pinned_call_on ''A'' e"
    by (simp add: five_pinned_calls_def pinned_call_on_def)
  have c: "map routed_to (fst (run_calls client_methods manager_methods seven_calls (abc_pool\<lparr>index := 1\<rparr>))) =
     [Some ''B'', Some ''C'', Some ''A'', Some ''B'', Some ''C'', Some ''A'', Some ''B'']"
    by (simp add: seven_calls_def abc_pool_def eval_call_def pool_get_def nextClient_def
        apply_method_def routed_to_def client_methods_def manager_methods_def MANAGER_KEYS_def)
  show ?thesis
    using pinned_client_calls_leave_index [OF a b, of seven_calls] a b c
    by simp
qed

section \<open>Properties of the resource methods\<close>

lemma try_pure_absorbs: "\<not> isl (try_pure r (\<lambda>error. Inr v))"
  by (cases r) (simp_all add: try_pure_def)

lemma get_prop_truthy: "truthy v \<Longrightarrow> get_prop v k = Inr (opt_prop v k)"
  by (cases v) (simp_all add: opt_prop_def)




subsection \<open>A failed request gives the sentinel\<close>

lemma updateProfile_failed:
  "\<not> responded_with [200] settled \<Longrightarrow> updateProfile w settled = Inr JNull"
  by (cases settled) (simp_all add: updateProfile_def responded_with_def try_pure_def and_then_def)

lemma getMyProfile_failed:
  "\<not> responded_with [200] settled \<Longrightarrow> getMyProfile w settled = Inr JNull"
  by (cases settled) (simp_all add: getMyProfile_def responded_with_def try_pure_def and_then_def)

lemma getUserProfile_failed:
  "\<not> responded_with [200] settled \<Longrightarrow> getUserProfile settled = Inr JNull"
  by (cases settled) (simp_all add: getUserProfile_def responded_with_def try_pure_def and_then_def)

lemma getFollowers_failed:
  "\<not> responded_with [200] settled \<Longrightarrow> getFollowers settled = Inr JNull"
  by (cases settled) (simp_all add: getFollowers_def getFollowers_try_def responded_with_def try_pure_def and_then_def)

lemma getFollowing_failed:
  "\<not> responded_with [200] settled \<Longrightarrow> getFollowing settled = Inr JNull"
  by (cases settled) (simp_all add: getFollowing_def getFollowing_try_def responded_with_def try_pure_def and_then_def)

lemma getTopClans_failed:
  "\<not> responded_with [200] settled \<Longrightarrow> getTopClans settled = Inr JNull"
  by (cases settled) (simp_all add: getTopClans_def responded_with_def try_pure_def and_then_def)

lemma getWhoToFollow_failed:
  "\<not> responded_with [200] settled \<Longrightarrow> getWhoToFollow w settled = Inr JNull"
  by (cases settled) (simp_all add: getWhoToFollow_def responded_with_def try_pure_def and_then_def)

lemma getTrending_failed:
  "\<not> responded_with [200] settled \<Longrightarrow> getTrending settled = Inr JNull"
  by (cases settled) (simp_all add: getTrending_def responded_with_def try_pure_def and_then_def)

lemma getPostsByHashtag_failed:
  "\<not> responded_with [200] settled \<Longrightarrow> getPostsByHashtag settled = Inr JNull"
  by (cases settled) (simp_all add: getPostsByHashtag_def responded_with_def try_pure_def and_then_def)

lemma getStatus_failed:
  "\<not> responded_with [200] settled \<Longrightarrow> getStatus w settled = Inr JNull"
  by (cases settled) (simp_all add: getStatus_def responded_with_def try_pure_def and_then_def)

lemma getFile_failed:
  "\<not> responded_with [200] settled \<Longrightarrow> getFile w settled = Inr JNull"
  by (cases settled) (simp_all add: getFile_def responded_with_def try_pure_def and_then_def)

lemma search_failed:
  "\<not> responded_with [200] settled \<Longrightarrow> search settled = Inr JNull"
  by (cases settled) (simp_all add: search_def search_try_def responded_with_def try_pure_def and_then_def)

lemma getComments_failed:
  "\<not> responded_with [200] settled \<Longrightarrow> getComments settled = Inr empty_comments"
  by (cases settled) (simp_all add: getComments_def getComments_try_def responded_with_def try_pure_def and_then_def)

lemma getNotifications_failed:
  "\<not> responded_with [200] settled \<Longrightarrow> getNotifications w type_filter settled = Inr JNull"
  by (cases settled) (simp_all add: getNotifications_def getNotifications_request_def responded_with_def try_pure_def and_then_def)

lemma getNotifications_part_006_failed:
  "\<not> responded_with [200] settled \<Longrightarrow> getNotifications_part_006 w type_filter settled = Inr JNull"
  by (cases settled) (simp_all add: getNotifications_part_006_def getNotifications_request_def responded_with_def try_pure_def and_then_def)

lemma getNotifications_part_006b_failed:
  "\<not> responded_with [200] settled \<Longrightarrow> getNotifications_part_006b w coerced type_filter settled = Inr JNull"
  by (cases settled) (simp_all add: getNotifications_part_006b_def responded_with_def try_pure_def and_then_def)

lemma markAsReadBatch_failed:
  "\<not> responded_with [200] settled \<Longrightarrow> markAsReadBatch w (JArr (x # xs)) settled = Inr JNull"
  by (cases settled) (simp_all add: markAsReadBatch_def markAsReadBatch_request_def responded_with_def try_pure_def and_then_def)

lemma markAsReadBatch_part_006_failed:
  "\<not> responded_with [200] settled \<Longrightarrow> markAsReadBatch_part_006 w (JArr (x # xs)) settled = Inr JNull"
  by (cases settled) (simp_all add: markAsReadBatch_part_006_def markAsReadBatch_request_def responded_with_def try_pure_def and_then_def)

lemma getUnreadCount_failed:
  "\<not> responded_with [200] settled \<Longrightarrow> getUnreadCount w settled = Inr JNull"
  by (cases settled) (simp_all add: getUnreadCount_def getUnreadCount_request_def responded_with_def try_pure_def and_then_def)

lemma getUnreadCount_part_006_failed:
  "\<not> responded_with [200] settled \<Longrightarrow> getUnreadCount_part_006 w settled = Inr JNull"
  by (cases settled) (simp_all add: getUnreadCount_part_006_def getUnreadCount_request_def responded_with_def try_pure_def and_then_def)

lemma followUser_failed:
  "\<not> responded_with [200, 201] settled \<Longrightarrow> followUser w settled = Inr JNull"
  by (cases settled) (simp_all add: followUser_def responded_with_def try_pure_def and_then_def)

lemma submit_failed:
  "\<not> responded_with [200, 201] settled \<Longrightarrow> submit w settled = Inr JNull"
  by (cases settled) (simp_all add: submit_def responded_with_def try_pure_def and_then_def)

lemma uploadFile_failed:
  "\<not> responded_with [200, 201] settled \<Longrightarrow> uploadFile w filePath settled = Inr JNull"
  by (cases settled) (simp_all add: uploadFile_def responded_with_def try_pure_def and_then_def)

lemma report_failed:
  "\<not> responded_with [200, 201] settled \<Longrightarrow> report w settled = Inr JNull"
  by (cases settled) (simp_all add: report_def responded_with_def try_pure_def and_then_def)

lemma addComment_failed:
  "\<not> responded_with [200, 201] settled \<Longrightarrow> addComment w settled = Inr JNull"
  by (cases settled) (simp_all add: addComment_def addComment_request_def responded_with_def try_pure_def and_then_def)

lemma addComment_part_005_failed:
  "\<not> responded_with [200, 201] settled \<Longrightarrow> addComment_part_005 w settled = Inr JNull"
  by (cases settled) (simp_all add: addComment_part_005_def addComment_request_def responded_with_def try_pure_def and_then_def)

lemma likeComment_failed:
  "\<not> responded_with [200, 201] settled \<Longrightarrow> likeComment w settled = Inr JNull"
  by (cases settled) (simp_all add: likeComment_def likeComment_request_def responded_with_def try_pure_def and_then_def)

lemma likeComment_part_005_failed:
  "\<not> responded_with [200, 201] settled \<Longrightarrow> likeComment_part_005 w settled = Inr JNull"
  by (cases settled) (simp_all add: likeComment_part_005_def likeComment_request_def responded_with_def try_pure_def and_then_def)

lemma replyToComment_failed:
  "\<not> responded_with [200, 201] settled \<Longrightarrow> replyToComment w replyToUserId settled = Inr JNull"
  by (cases settled) (simp_all add: replyToComment_def responded_with_def try_pure_def and_then_def)

lemma unfollowUser_failed:
  "\<not> responded_with [200, 204] settled \<Longrightarrow> unfollowUser w settled = Inr JNull"
  by (cases settled) (simp_all add: unfollowUser_def responded_with_def try_pure_def and_then_def)

lemma unlikeComment_failed:
  "\<not> responded_with [200, 204] settled \<Longrightarrow> unlikeComment w settled = Inr JNull"
  by (cases settled) (simp_all add: unlikeComment_def unlikeComment_request_def responded_with_def try_pure_def and_then_def)

lemma unlikeComment_part_005_failed:
  "\<not> responded_with [200, 204] settled \<Longrightarrow> unlikeComment_part_005 w settled = Inr JNull"
  by (cases settled) (simp_all add: unlikeComment_part_005_def unlikeComment_request_def responded_with_def try_pure_def and_then_def)

lemma markAsRead_failed:
  "\<not> responded_with [200, 204] settled \<Longrightarrow> markAsRead w settled = Inr JNull"
  by (cases settled) (simp_all add: markAsRead_def markAsRead_request_def responded_with_def try_pure_def and_then_def)

lemma markAsRead_part_006_failed:
  "\<not> responded_with [200, 204] settled \<Longrightarrow> markAsRead_part_006 w settled = Inr JNull"
  by (cases settled) (simp_all add: markAsRead_part_006_def markAsRead_request_def responded_with_def try_pure_def and_then_def)

lemma deleteFile_failed:
  "\<not> responded_with [200, 204] settled \<Longrightarrow> deleteFile w settled = Inr (JBool False)"
  by (cases settled) (simp_all add: deleteFile_def responded_with_def try_pure_def and_then_def)

lemma deleteComment_failed:
  "\<not> responded_with [200, 204] settled \<Longrightarrow> deleteComment w settled = Inr (JBool False)"
  by (cases settled) (simp_all add: deleteComment_def deleteComment_request_def responded_with_def try_pure_def and_then_def)

lemma deleteComment_part_005_failed:
  "\<not> responded_with [200, 204] settled \<Longrightarrow> deleteComment_part_005 w settled = Inr (JBool False)"
  by (cases settled) (simp_all add: deleteComment_part_005_def deleteComment_request_def responded_with_def try_pure_def and_then_def)

lemma markAllAsRead_failed:
  "\<not> responded_with [200, 204] settled \<Longrightarrow> markAllAsRead w settled = Inr (JBool False)"
  by (cases settled) (simp_all add: markAllAsRead_def markAllAsRead_request_def responded_with_def try_pure_def and_then_def)

lemma markAllAsRead_part_006_failed:
  "\<not> responded_with [200, 204] settled \<Longrightarrow> markAllAsRead_part_006 w settled = Inr (JBool False)"
  by (cases settled) (simp_all add: markAllAsRead_part_006_def markAllAsRead_request_def responded_with_def try_pure_def and_then_def)

lemma markAllAsRead_part_006b_failed:
  "\<not> responded_with [200, 204] settled \<Longrightarrow> markAllAsRead_part_006b w settled = Inr (JBool False)"
  by (cases settled) (simp_all add: markAllAsRead_part_006b_def responded_with_def try_pure_def and_then_def)

lemma restoreComment_failed:
  "\<not> responded_with [200, 201, 204] settled \<Longrightarrow> restoreComment w settled = Inr (JBool False)"
  by (cases settled) (simp_all add: restoreComment_def responded_with_def try_pure_def and_then_def)

lemma count_of_empty: "getPostCommentsCount_of getPost empty_comments = Inr (JNum 0)"
  by (simp add: getPostCommentsCount_of_def empty_comments_def opt_prop_def)

lemma top_of_empty: "getTopComment_of coerced sorted_first empty_comments = Inr JNull"
  by (simp add: getTopComment_of_def empty_comments_def opt_prop_def length_prop_def gt_zero_def
      and_then_def)

lemma has_of_zero: "hasComments_of coerced (JNum 0) = Inr (JBool False)"
  by (simp add: hasComments_of_def gt_zero_def and_then_def)

lemma unread_of_null: "hasUnreadNotifications_of coerced JNull = Inr (JBool False)"
  by (simp add: hasUnreadNotifications_of_def js_or_def gt_zero_def and_then_def)

lemma getUserClan_failed:
  "\<not> responded_with [200] settled \<Longrightarrow> getUserClan settled = Inr JNull"
  by (simp add: getUserClan_def getUserProfile_failed and_then_def)

lemma isFollowing_failed:
  "\<not> responded_with [200] settled \<Longrightarrow> isFollowing w settled = Inr (JBool False)"
  by (simp add: isFollowing_def getUserProfile_failed and_then_def)

lemma getMyFollowersCount_failed:
  "\<not> responded_with [200] settled \<Longrightarrow> getMyFollowersCount w settled = Inr (JNum 0)"
  by (simp add: getMyFollowersCount_def getMyProfile_failed and_then_def)

lemma getMyFollowingCount_failed:
  "\<not> responded_with [200] settled \<Longrightarrow> getMyFollowingCount w settled = Inr (JNum 0)"
  by (simp add: getMyFollowingCount_def getMyProfile_failed and_then_def)

lemma getMyClan_failed:
  "\<not> responded_with [200] settled \<Longrightarrow> getMyClan w settled = Inr JNull"
  by (simp add: getMyClan_def getMyProfile_failed and_then_def)

lemma getPostCommentsCount_failed:
  "\<not> responded_with [200] settled \<Longrightarrow> getPostCommentsCount getPost settled = Inr (JNum 0)"
  by (simp add: getPostCommentsCount_def count_of_empty getComments_failed and_then_def)

lemma getTopComment_failed:
  "\<not> responded_with [200] settled \<Longrightarrow> getTopComment coerced sorted_first settled = Inr JNull"
  by (simp add: getTopComment_def top_of_empty getComments_failed and_then_def)

lemma hasComments_failed:
  "\<not> responded_with [200] settled \<Longrightarrow> hasComments coerced getPost settled = Inr (JBool False)"
  by (simp add: hasComments_def has_of_zero getPostCommentsCount_failed and_then_def)

lemma hasUnreadNotifications_failed:
  "\<not> responded_with [200] settled \<Longrightarrow> hasUnreadNotifications w coerced settled = Inr (JBool False)"
  by (simp add: hasUnreadNotifications_def unread_of_null getUnreadCount_failed and_then_def)

lemma hasUnreadNotifications_part_006_failed:
  "\<not> responded_with [200] settled \<Longrightarrow> hasUnreadNotifications_part_006 w coerced settled = Inr (JBool False)"
  by (simp add: hasUnreadNotifications_part_006_def unread_of_null getUnreadCount_part_006_failed and_then_def)

lemma getUnreadNotifications_failed:
  "\<not> responded_with [200] settled \<Longrightarrow> getUnreadNotifications w settled = Inr JNull"
  by (simp add: getUnreadNotifications_def getUnreadNotifications_of_def getNotifications_failed and_then_def)

lemma getUnreadNotifications_part_006_failed:
  "\<not> responded_with [200] settled \<Longrightarrow> getUnreadNotifications_part_006 w settled = Inr JNull"
  by (simp add: getUnreadNotifications_part_006_def getUnreadNotifications_of_def getNotifications_part_006_failed and_then_def)

lemma getUnreadNotifications_part_006b_failed:
  "\<not> responded_with [200] settled \<Longrightarrow> getUnreadNotifications_part_006b w coerced settled = Inr JNull"
  by (simp add: getUnreadNotifications_part_006b_def getUnreadNotifications_of_def getNotifications_part_006b_failed and_then_def)

lemma reportPost_failed:
  "\<not> responded_with [200, 201] settled \<Longrightarrow> reportPost w settled = Inr JNull"
  by (simp add: reportPost_def report_failed and_then_def)

lemma reportComment_failed:
  "\<not> responded_with [200, 201] settled \<Longrightarrow> reportComment w settled = Inr JNull"
  by (simp add: reportComment_def report_failed and_then_def)

lemma reportUser_failed:
  "\<not> responded_with [200, 201] settled \<Longrightarrow> reportUser w settled = Inr JNull"
  by (simp add: reportUser_def report_failed and_then_def)

lemma addVoiceComment_upload_failed:
  "\<not> responded_with [200, 201] upload_settled \<Longrightarrow>
     addVoiceComment w audioPath upload_settled comment_settled = Inr JNull"
  by (simp add: addVoiceComment_def uploadFile_failed and_then_def)

lemma uploadFile_returns: "\<not> isl (uploadFile w filePath settled)"
  by (simp add: uploadFile_def try_pure_absorbs)

lemma addVoiceComment_comment_failed:
  assumes "\<not> responded_with [200, 201] comment_settled"
  shows "addVoiceComment w audioPath upload_settled comment_settled = Inr JNull"
proof -
  obtain uploaded where "uploadFile w audioPath upload_settled = Inr uploaded"
    using uploadFile_returns [of w audioPath upload_settled]
    by (cases "uploadFile w audioPath upload_settled") simp_all
  with assms show ?thesis
    by (simp add: addVoiceComment_def addComment_part_005_failed and_then_def)
qed

subsection \<open>\<open>getComments\<close> of \<open>part_005\<close> and the methods built on it\<close>

lemma length_prop_truthy: "truthy v \<Longrightarrow> \<not> isl (length_prop v)"
  by (cases v) (simp_all add: length_prop_def)

lemma parseResponse_returns: "\<not> isl (parseResponse response)"
  by (auto simp: parseResponse_def Let_def and_then_def dest: length_prop_truthy
      split: sum.splits jsval.splits)

lemma getComments_catch_failed:
  "\<not> responded_with [200] retry_settled \<Longrightarrow> getComments_catch error retry_settled = Inr empty_comments"
  by (cases retry_settled)
    (simp_all add: getComments_catch_def retry_after_422_def responded_with_def)

lemma getComments_catch_not_422:
  "response_status error \<noteq> Some 422 \<Longrightarrow> getComments_catch error retry_settled = Inr empty_comments"
  by (simp add: getComments_catch_def retry_after_422_def)

lemma getComments_part_005_not_422:
  assumes "\<not> responded_with [200] first" and "\<not> answered_422 first"
  shows "getComments_part_005 first second third = Inr empty_comments"
  using assms
  by (cases first)
    (simp_all add: getComments_part_005_def getComments_catch_not_422 responded_with_def
      answered_422_def)

lemma getComments_part_005_all_failed:
  assumes "\<not> responded_with [200] first" and "\<not> responded_with [200] second"
    and "\<not> responded_with [200] third"
  shows "getComments_part_005 first second third = Inr empty_comments"
proof (cases first)
  case (Inl error)
  with assms(2) show ?thesis
    by (simp add: getComments_part_005_def getComments_catch_failed)
next
  case (Inr response)
  with assms(1) have s: "status response \<noteq> 200"
    by (simp add: responded_with_def)
  show ?thesis
  proof (cases second)
    case (Inl error)
    with \<open>first = Inr response\<close> s assms(3) show ?thesis
      by (simp add: getComments_part_005_def getComments_catch_failed)
  next
    case (Inr fallback)
    with assms(2) have "status fallback \<noteq> 200"
      by (simp add: responded_with_def)
    with \<open>first = Inr response\<close> Inr s show ?thesis
      by (simp add: getComments_part_005_def)
  qed
qed

lemma getComments_part_005_retry:
  assumes "answered_422 early" and "status retry = 200"
  shows "getComments_part_005 early (Inr retry) third = parseResponse retry"
proof -
  obtain r where r: "parseResponse retry = Inr r"
    using parseResponse_returns [of retry] by (cases "parseResponse retry") simp_all
  show ?thesis
    using assms r
    by (cases early)
      (simp_all add: getComments_part_005_def getComments_catch_def retry_after_422_def
        answered_422_def)
qed

lemma getPostCommentsCount_part_005_empty:
  "getComments_part_005 first second third = Inr empty_comments \<Longrightarrow>
     getPostCommentsCount_part_005 getPost first second third = Inr (JNum 0)"
  by (simp add: getPostCommentsCount_part_005_def count_of_empty and_then_def)

lemma getTopComment_part_005_empty:
  "getComments_part_005 first second third = Inr empty_comments \<Longrightarrow>
     getTopComment_part_005 coerced sorted_first first second third = Inr JNull"
  by (simp add: getTopComment_part_005_def top_of_empty and_then_def)

lemma hasComments_part_005_empty:
  "getComments_part_005 first second third = Inr empty_comments \<Longrightarrow>
     hasComments_part_005 coerced getPost first second third = Inr (JBool False)"
  by (simp add: hasComments_part_005_def getPostCommentsCount_part_005_empty has_of_zero and_then_def)

subsection \<open>The wrappers of \<open>SearchManager\<close> and the notification stream\<close>

lemma search_wrappers:
  "searchUsers (Inr JNull) = Inr JNull" "searchHashtags (Inr JNull) = Inr JNull"
  "searchUsers (Inl error) = Inl error" "searchHashtags (Inl error) = Inl error"
  by (simp_all add: searchUsers_def searchHashtags_def and_then_def)

lemma getNotificationStream_failed:
  assumes "fetch_failed fetched" and "\<forall>e. onError e = Inr ()"
  shows "getNotificationStream w onError fetched = Inr None"
  using assms
  by (cases fetched)
    (simp_all add: getNotificationStream_def fetch_failed_def try_pure_def and_then_def)

subsection \<open>Construction of the mirror pool\<close>

lemma createMirrorPool_empty_list:
  "\<exists>msg. createMirrorPool new_client json_parse d cwd (ArgArray []) = Inl (TypeError msg)"
  by (simp add: createMirrorPool_def)

lemma createMirrorPool_malformed_file:
  assumes "mpath \<noteq> []" and "files d (mirror_file_path cwd root mpath) = Some content"
    and "\<not> denied d (mirror_file_path cwd root mpath)" and "json_parse (trim content) = None"
  shows "\<exists>msg. createMirrorPool new_client json_parse d cwd (ArgOptions (Some mpath) root) =
           Inl (Error msg)"
proof -
  let ?projectRoot = "case root of None \<Rightarrow> cwd | Some r \<Rightarrow> r"
  have "\<exists>msg. loadMirrorsFromFile json_parse d mpath ?projectRoot = Inl (Error msg)"
    using assms(2-4)
    by (simp add: loadMirrorsFromFile_def mirror_file_path_def existsSync_def readFileSync_def)
  then obtain msg where "loadMirrorsFromFile json_parse d mpath ?projectRoot = Inl (Error msg)" ..
  with assms(1) show ?thesis by (simp add: createMirrorPool_def)
qed

text \<open>
  Claim C9, as the code has it. When the request of a resource method fails (it is
  rejected, or answers with a status the method does not accept), the method returns
  its "no result" value and throws nothing: \<open>null\<close>, \<open>false\<close> for the methods that answer
  with a boolean, \<open>0\<close> for the counting helpers, the empty result for \<open>getComments\<close>.
  This holds for every method of the manager classes in the sources, in each of their
  revisions, with these provisos. \<open>markAsReadBatch\<close> sends a request only for a
  non-empty array of ids. \<open>addVoiceComment\<close> sends two requests and returns \<open>null\<close> when
  either fails. \<open>getComments\<close> of \<open>part_005\<close> answers a 422 with one more request and
  returns that request's comments when it answers 200; it (and the helpers built on it)
  gives the empty result when the first request fails otherwise, or when every request
  fails. \<open>searchUsers\<close> and \<open>searchHashtags\<close> have no handler: they return \<open>null\<close> when
  the method they call returns \<open>null\<close>, and pass on what it throws.
  \<open>getNotificationStream\<close> returns \<open>null\<close> on a failed \<open>fetch\<close> when the \<open>onError\<close> callback
  returns. Construction errors do propagate: \<open>createMirrorPool\<close> throws a TypeError on an
  empty list and an Error on a mirror file that is not valid JSON.
\<close>

theorem failures_absorbed_by_resource_methods:
  "(\<not> responded_with [200] settled \<longrightarrow>
      updateProfile w settled = Inr JNull \<and>
      getMyProfile w settled = Inr JNull \<and>
      getUserProfile settled = Inr JNull \<and>
      getFollowers settled = Inr JNull \<and>
      getFollowing settled = Inr JNull \<and>
      getTopClans settled = Inr JNull \<and>
      getWhoToFollow w settled = Inr JNull \<and>
      getTrending settled = Inr JNull \<and>
      getPostsByHashtag settled = Inr JNull \<and>
      getStatus w settled = Inr JNull \<and>
      getFile w settled = Inr JNull \<and>
      search settled = Inr JNull \<and>
      getComments settled = Inr empty_comments \<and>
      getNotifications w type_filter settled = Inr JNull \<and>
      getNotifications_part_006 w type_filter settled = Inr JNull \<and>
      getNotifications_part_006b w coerced type_filter settled = Inr JNull \<and>
      markAsReadBatch w (JArr (x # xs)) settled = Inr JNull \<and>
      markAsReadBatch_part_006 w (JArr (x # xs)) settled = Inr JNull \<and>
      getUnreadCount w settled = Inr JNull \<and>
      getUnreadCount_part_006 w settled = Inr JNull \<and>
      getUserClan settled = Inr JNull \<and>
      isFollowing w settled = Inr (JBool False) \<and>
      getMyFollowersCount w settled = Inr (JNum 0) \<and>
      getMyFollowingCount w settled = Inr (JNum 0) \<and>
      getMyClan w settled = Inr JNull \<and>
      getPostCommentsCount getPost settled = Inr (JNum 0) \<and>
      getTopComment coerced sorted_first settled = Inr JNull \<and>
      hasComments coerced getPost settled = Inr (JBool False) \<and>
      hasUnreadNotifications w coerced settled = Inr (JBool False) \<and>
      hasUnreadNotifications_part_006 w coerced settled = Inr (JBool False) \<and>
      getUnreadNotifications w settled = Inr JNull \<and>
      getUnreadNotifications_part_006 w settled = Inr JNull \<and>
      getUnreadNotifications_part_006b w coerced settled = Inr JNull) \<and>
   (\<not> responded_with [200, 201] settled \<longrightarrow>
      followUser w settled = Inr JNull \<and>
      submit w settled = Inr JNull \<and>
      uploadFile w filePath settled = Inr JNull \<and>
      report w settled = Inr JNull \<and>
      addComment w settled = Inr JNull \<and>
      addComment_part_005 w settled = Inr JNull \<and>
      likeComment w settled = Inr JNull \<and>
      likeComment_part_005 w settled = Inr JNull \<and>
      replyToComment w replyToUserId settled = Inr JNull \<and>
      reportPost w settled = Inr JNull \<and>
      reportComment w settled = Inr JNull \<and>
      reportUser w settled = Inr JNull) \<and>
   (\<not> responded_with [200, 201] upload_settled \<longrightarrow>
      addVoiceComment w audioPath upload_settled comment_settled = Inr JNull) \<and>
   (\<not> responded_with [200, 201] comment_settled \<longrightarrow>
      addVoiceComment w audioPath upload_settled comment_settled = Inr JNull) \<and>
   (\<not> responded_with [200, 204] settled \<longrightarrow>
      unfollowUser w settled = Inr JNull \<and>
      unlikeComment w settled = Inr JNull \<and>
      unlikeComment_part_005 w settled = Inr JNull \<and>
      markAsRead w settled = Inr JNull \<and>
      markAsRead_part_006 w settled = Inr JNull \<and>
      deleteFile w settled = Inr (JBool False) \<and>
      deleteComment w settled = Inr (JBool False) \<and>
      deleteComment_part_005 w settled = Inr (JBool False) \<and>
      markAllAsRead w settled = Inr (JBool False) \<and>
      markAllAsRead_part_006 w settled = Inr (JBool False) \<and>
      markAllAsRead_part_006b w settled = Inr (JBool False)) \<and>
   (\<not> responded_with [200, 201, 204] settled \<longrightarrow>
      restoreComment w settled = Inr (JBool False)) \<and>
   (\<not> responded_with [200] first \<and> \<not> answered_422 first \<longrightarrow>
      getComments_part_005 first second third = Inr empty_comments \<and>
      getPostCommentsCount_part_005 getPost first second third = Inr (JNum 0) \<and>
      getTopComment_part_005 coerced sorted_first first second third = Inr JNull \<and>
      hasComments_part_005 coerced getPost first second third = Inr (JBool False)) \<and>
   (\<not> responded_with [200] first \<and> \<not> responded_with [200] second \<and> \<not> responded_with [200] third \<longrightarrow>
      getComments_part_005 first second third = Inr empty_comments \<and>
      getPostCommentsCount_part_005 getPost first second third = Inr (JNum 0) \<and>
      getTopComment_part_005 coerced sorted_first first second third = Inr JNull \<and>
      hasComments_part_005 coerced getPost first second third = Inr (JBool False)) \<and>
   (answered_422 early \<and> status retry = 200 \<longrightarrow>
      getComments_part_005 early (Inr retry) third = parseResponse retry) \<and>
   searchUsers (Inr JNull) = Inr JNull \<and>
   searchHashtags (Inr JNull) = Inr JNull \<and>
   searchUsers (Inl error) = Inl error \<and>
   searchHashtags (Inl error) = Inl error \<and>
   (fetch_failed fetched \<and> (\<forall>e. onError e = Inr ()) \<longrightarrow>
      getNotificationStream w onError fetched = Inr None) \<and>
   (\<exists>msg. createMirrorPool new_client json_parse d cwd (ArgArray []) = Inl (TypeError msg)) \<and>
   (mpath \<noteq> [] \<and> files d (mirror_file_path cwd root mpath) = Some content \<and>
    \<not> denied d (mirror_file_path cwd root mpath) \<and> json_parse (trim content) = None \<longrightarrow>
      (\<exists>msg. createMirrorPool new_client json_parse d cwd (ArgOptions (Some mpath) root) =
         Inl (Error msg)))"
proof -
  have part_005:
    "getPostCommentsCount_part_005 getPost first second third = Inr (JNum 0)"
    "getTopComment_part_005 coerced sorted_first first second third = Inr JNull"
    "hasComments_part_005 coerced getPost first second third = Inr (JBool False)"
    if "getComments_part_005 first second third = Inr empty_comments"
    using that
    by (simp_all add: getPostCommentsCount_part_005_empty getTopComment_part_005_empty
        hasComments_part_005_empty)
  show ?thesis
    by (intro conjI impI)
      (simp_all add: updateProfile_failed getMyProfile_failed getUserProfile_failed 
        getFollowers_failed getFollowing_failed getTopClans_failed getWhoToFollow_failed 
        getTrending_failed getPostsByHashtag_failed getStatus_failed getFile_failed 
        search_failed getComments_failed getNotifications_failed 
        getNotifications_part_006_failed getNotifications_part_006b_failed 
        markAsReadBatch_failed markAsReadBatch_part_006_failed getUnreadCount_failed 
        getUnreadCount_part_006_failed followUser_failed submit_failed uploadFile_failed 
        report_failed addComment_failed addComment_part_005_failed likeComment_failed 
        likeComment_part_005_failed replyToComment_failed unfollowUser_failed 
        unlikeComment_failed unlikeComment_part_005_failed markAsRead_failed 
        markAsRead_part_006_failed deleteFile_failed deleteComment_failed 
        deleteComment_part_005_failed markAllAsRead_failed markAllAsRead_part_006_failed 
        markAllAsRead_part_006b_failed restoreComment_failed getUserClan_failed 
        isFollowing_failed getMyFollowersCount_failed getMyFollowingCount_failed 
        getMyClan_failed getPostCommentsCount_failed getTopComment_failed 
        hasComments_failed hasUnreadNotifications_failed 
        hasUnreadNotifications_part_006_failed getUnreadNotifications_failed 
        getUnreadNotifications_part_006_failed getUnreadNotifications_part_006b_failed 
        reportPost_failed reportComment_failed reportUser_failed
        addVoiceComment_upload_failed addVoiceComment_comment_failed
        getComments_part_005_not_422 getComments_part_005_all_failed part_005
        getComments_part_005_retry search_wrappers getNotificationStream_failed
        createMirrorPool_empty_list createMirrorPool_malformed_file)
qed

theorem failures_absorbed_by_resource_methods_witness:
  "\<not> responded_with [200] server_error \<and>
   updateProfile signed_in server_error = Inr JNull \<and>
   getMyProfile signed_in server_error = Inr JNull \<and>
   getUserProfile server_error = Inr JNull \<and>
   getFollowers server_error = Inr JNull \<and>
   getFollowing server_error = Inr JNull \<and>
   getTopClans server_error = Inr JNull \<and>
   getWhoToFollow signed_in server_error = Inr JNull \<and>
   getTrending server_error = Inr JNull \<and>
   getPostsByHashtag server_error = Inr JNull \<and>
   getStatus signed_in server_error = Inr JNull \<and>
   getFile signed_in server_error = Inr JNull \<and>
   search server_error = Inr JNull \<and>
   getComments server_error = Inr empty_comments \<and>
   getNotifications signed_in (Some ''like'') server_error = Inr JNull \<and>
   getNotifications_part_006 signed_in (Some ''like'') server_error = Inr JNull \<and>
   getNotifications_part_006b signed_in (\<lambda>v. Inr False) (Some ''like'') server_error = Inr JNull \<and>
   markAsReadBatch signed_in (JArr [JStr ''n1'']) server_error = Inr JNull \<and>
   markAsReadBatch_part_006 signed_in (JArr [JStr ''n1'']) server_error = Inr JNull \<and>
   getUnreadCount signed_in server_error = Inr JNull \<and>
   getUnreadCount_part_006 signed_in server_error = Inr JNull \<and>
   getUserClan server_error = Inr JNull \<and>
   isFollowing signed_in server_error = Inr (JBool False) \<and>
   getMyFollowersCount signed_in server_error = Inr (JNum 0) \<and>
   getMyFollowingCount signed_in server_error = Inr (JNum 0) \<and>
   getMyClan signed_in server_error = Inr JNull \<and>
   getPostCommentsCount (Inr JNull) server_error = Inr (JNum 0) \<and>
   getTopComment (\<lambda>v. Inr False) (\<lambda>v. Inr JNull) server_error = Inr JNull \<and>
   hasComments (\<lambda>v. Inr False) (Inr JNull) server_error = Inr (JBool False) \<and>
   hasUnreadNotifications signed_in (\<lambda>v. Inr False) server_error = Inr (JBool False) \<and>
   hasUnreadNotifications_part_006 signed_in (\<lambda>v. Inr False) server_error = Inr (JBool False) \<and>
   getUnreadNotifications signed_in server_error = Inr JNull \<and>
   getUnreadNotifications_part_006 signed_in server_error = Inr JNull \<and>
   getUnreadNotifications_part_006b signed_in (\<lambda>v. Inr False) server_error = Inr JNull \<and>
   \<not> responded_with [200, 201] server_error \<and>
   followUser signed_in server_error = Inr JNull \<and>
   submit signed_in server_error = Inr JNull \<and>
   uploadFile signed_in ''/tmp/a.png'' server_error = Inr JNull \<and>
   report signed_in server_error = Inr JNull \<and>
   addComment signed_in server_error = Inr JNull \<and>
   addComment_part_005 signed_in server_error = Inr JNull \<and>
   likeComment signed_in server_error = Inr JNull \<and>
   likeComment_part_005 signed_in server_error = Inr JNull \<and>
   replyToComment signed_in (JStr ''u1'') server_error = Inr JNull \<and>
   reportPost signed_in server_error = Inr JNull \<and>
   reportComment signed_in server_error = Inr JNull \<and>
   reportUser signed_in server_error = Inr JNull \<and>
   \<not> responded_with [200, 201] timed_out \<and>
   addVoiceComment signed_in ''/tmp/voice.ogg'' timed_out server_error = Inr JNull \<and>
   \<not> responded_with [200, 204] server_error \<and>
   unfollowUser signed_in server_error = Inr JNull \<and>
   unlikeComment signed_in server_error = Inr JNull \<and>
   unlikeComment_part_005 signed_in server_error = Inr JNull \<and>
   markAsRead signed_in server_error = Inr JNull \<and>
   markAsRead_part_006 signed_in server_error = Inr JNull \<and>
   deleteFile signed_in server_error = Inr (JBool False) \<and>
   deleteComment signed_in server_error = Inr (JBool False) \<and>
   deleteComment_part_005 signed_in server_error = Inr (JBool False) \<and>
   markAllAsRead signed_in server_error = Inr (JBool False) \<and>
   markAllAsRead_part_006 signed_in server_error = Inr (JBool False) \<and>
   markAllAsRead_part_006b signed_in server_error = Inr (JBool False) \<and>
   \<not> responded_with [200, 201, 204] server_error \<and>
   restoreComment signed_in server_error = Inr (JBool False) \<and>
   \<not> answered_422 server_error \<and>
   getComments_part_005 server_error timed_out unprocessable = Inr empty_comments \<and>
   getPostCommentsCount_part_005 (Inr JNull) server_error timed_out unprocessable = Inr (JNum 0) \<and>
   getTopComment_part_005 (\<lambda>v. Inr False) (\<lambda>v. Inr JNull) server_error timed_out unprocessable = Inr JNull \<and>
   hasComments_part_005 (\<lambda>v. Inr False) (Inr JNull) server_error timed_out unprocessable = Inr (JBool False) \<and>
   \<not> responded_with [200] timed_out \<and>
   \<not> responded_with [200] unprocessable \<and>
   answered_422 unprocessable \<and>
   getComments_part_005 unprocessable (Inr \<lparr>status = 200, data = one_comment, set_cookie = None\<rparr>) unprocessable = Inr (JObj [(''comments'', JArr [JObj [(''id'', JStr ''c1'')]]), (''total'', JNum 1), (''hasMore'', JBool False), (''nextCursor'', JNull)]) \<and>
   searchUsers (Inr JNull) = Inr JNull \<and>
   searchHashtags (Inr JNull) = Inr JNull \<and>
   searchUsers (Inl (HttpError ''timeout'' None)) = Inl (HttpError ''timeout'' None) \<and>
   searchHashtags (Inl (HttpError ''timeout'' None)) = Inl (HttpError ''timeout'' None) \<and>
   fetch_failed (Inl (Error ''network'')) \<and>
   getNotificationStream signed_in (\<lambda>e. Inr ()) (Inl (Error ''network'')) = Inr None \<and>
   (\<exists>msg. createMirrorPool cfg_cookiesString gork_parse broken_disk ''/app'' (ArgArray []) = Inl (TypeError msg)) \<and>
   files broken_disk (mirror_file_path ''/app'' None ''.cookies.mirrors'') = Some broken_text \<and>
   \<not> denied broken_disk (mirror_file_path ''/app'' None ''.cookies.mirrors'') \<and>
   gork_parse (trim broken_text) = None \<and>
   (\<exists>msg. createMirrorPool cfg_cookiesString gork_parse broken_disk ''/app'' (ArgOptions (Some ''.cookies.mirrors'') None) = Inl (Error msg))"
proof -
  have failing:
    "\<not> responded_with [200] server_error" "\<not> responded_with [200, 201] server_error"
    "\<not> responded_with [200, 204] server_error" "\<not> responded_with [200, 201, 204] server_error"
    "\<not> responded_with [200, 201] timed_out" "\<not> responded_with [200] timed_out"
    "\<not> responded_with [200] unprocessable" "\<not> answered_422 server_error"
    "answered_422 unprocessable" "fetch_failed (Inl (Error ''network''))"
    by (simp_all add: responded_with_def answered_422_def fetch_failed_def server_error_def
        timed_out_def unprocessable_def)
  have mirror_file:
    "mirror_file_path ''/app'' None ''.cookies.mirrors'' = ''/app/.cookies.mirrors''"
    "files broken_disk ''/app/.cookies.mirrors'' = Some broken_text"
    "\<not> denied broken_disk ''/app/.cookies.mirrors''"
    "gork_parse (trim broken_text) = None"
    by (simp_all add: mirror_file_path_def path_isAbsolute_def path_join_mirrors_file
        broken_disk_def gork_parse_def trim_def is_whitespace_def broken_text_def gork_text_def)
  have retried:
    "parseResponse \<lparr>status = 200, data = one_comment, set_cookie = None\<rparr> =
       Inr (JObj [(''comments'', JArr [JObj [(''id'', JStr ''c1'')]]), (''total'', JNum 1),
                  (''hasMore'', JBool False), (''nextCursor'', JNull)])"
    by (simp add: parseResponse_def one_comment_def opt_prop_def js_coalesce_def nullish_def
        length_prop_def and_then_def)
  show ?thesis
    using failing mirror_file
      failures_absorbed_by_resource_methods
        [where settled = "server_error" and
          w = "signed_in" and
          type_filter = "Some ''like''" and
          coerced = "\<lambda>v. Inr False" and
          xs = "[]" and
          x = "JStr ''n1''" and
          getPost = "Inr JNull" and
          sorted_first = "\<lambda>v. Inr JNull" and
          filePath = "''/tmp/a.png''" and
          audioPath = "''/tmp/voice.ogg''" and
          replyToUserId = "JStr ''u1''" and
          upload_settled = "timed_out" and
          comment_settled = "server_error" and
          first = "server_error" and
          second = "timed_out" and
          third = "unprocessable" and
          early = "unprocessable" and
          retry = "\<lparr>status = 200, data = one_comment, set_cookie = None\<rparr>" and
          error = "HttpError ''timeout'' None" and
          fetched = "Inl (Error ''network'')" and
          onError = "\<lambda>e. Inr ()" and
          new_client = "cfg_cookiesString" and
          json_parse = "gork_parse" and
          d = "broken_disk" and
          cwd = "''/app''" and
          mpath = "''.cookies.mirrors''" and
          content = "broken_text" and
          root = "None"]
    by (simp add: retried)
qed

text \<open>
  The claim as stated fails for \<open>getComments\<close> of \<open>part_005\<close>: when the first request is
  answered 422, or rejected with a 422, and the request sent in reply answers 200, the
  method returns that answer's comments, not its empty result. And a resource method
  can throw: \<open>searchUsers\<close> passes on the error of the method it calls, and
  \<open>getNotificationStream\<close> the error its \<open>onError\<close> callback throws. With an empty list
  of ids \<open>markAsReadBatch\<close> sends no request and reports success.
\<close>

theorem failure_absorption_counterexample:
  "\<not> responded_with [200] unprocessable \<and>
   \<not> responded_with [200] rejected_422 \<and>
   getComments_part_005 unprocessable (ok_response one_comment) timed_out =
     Inr (JObj [(''comments'', JArr [JObj [(''id'', JStr ''c1'')]]), (''total'', JNum 1),
                (''hasMore'', JBool False), (''nextCursor'', JNull)]) \<and>
   getComments_part_005 rejected_422 (ok_response one_comment) timed_out =
     Inr (JObj [(''comments'', JArr [JObj [(''id'', JStr ''c1'')]]), (''total'', JNum 1),
                (''hasMore'', JBool False), (''nextCursor'', JNull)]) \<and>
   getComments_part_005 unprocessable (ok_response one_comment) timed_out \<noteq> Inr empty_comments \<and>
   getComments_part_005 rejected_422 (ok_response one_comment) timed_out \<noteq> Inr empty_comments \<and>
   searchUsers (Inl (HttpError ''timeout'' None)) = Inl (HttpError ''timeout'' None) \<and>
   searchHashtags (Inl (HttpError ''timeout'' None)) = Inl (HttpError ''timeout'' None) \<and>
   fetch_failed (Inl (Error ''network'')) \<and>
   getNotificationStream signed_in (\<lambda>e. Inl e) (Inl (Error ''network'')) = Inl (Error ''network'') \<and>
   \<not> responded_with [200] server_error \<and>
   markAsReadBatch signed_in (JArr []) server_error =
     Inr (JObj [(''success'', JBool True), (''count'', JNum 0)])"
  by (simp add: getComments_part_005_def getComments_catch_def retry_after_422_def
      response_status_def parseResponse_def one_comment_def opt_prop_def js_coalesce_def
      nullish_def length_prop_def and_then_def try_pure_def ok_response_def unprocessable_def
      rejected_422_def timed_out_def responded_with_def empty_comments_def searchUsers_def
      searchHashtags_def fetch_failed_def getNotificationStream_def requireAuth_def signed_in_def
      server_error_def markAsReadBatch_def markAsReadBatch_request_def)

subsection \<open>The response envelope\<close>


























































end
